(* ===== verification/Prelude.thy ===== *)
theory Prelude
  imports Main "HOL-Library.Char_ord" "HOL-Library.List_Lexorder"
begin

text \<open>
  Shared vocabulary of the development.  The first part models the effectful
  style of the Go code: an operation reads and changes a state, talks to a
  world that may refuse any interaction, and returns an error or a value while
  the state changes made so far stay made.  The second part holds Go's
  fixed-point conventions that several packages use (times, durations, string
  helpers, lookups in ordered lists).  The collections \<open>wp_intros\<close> and
  \<open>run_simps\<close> are filled here and used by the component theories.
\<close>

named_theorems wp_intros "backward rules of the operation calculus"
named_theorems run_simps "evaluation of operations in a world that never refuses"

section \<open>Operations in a world that may refuse\<close>

text \<open>
  Every interaction with the outside (a system call, a callback, a context
  check) consumes one answer of a tape.  \<open>Refuse\<close> fails with no effect,
  \<open>Torn\<close> fails after the effect was made (a rename that succeeded before its
  directory sync failed), \<open>Go\<close> succeeds.  An exhausted tape answers \<open>Go\<close>.
  A crash is the tape that refuses everything from some point on.
\<close>

datatype answer = Go | Refuse | Torn

type_synonym tape = "answer list"
type_synonym ('s, 'e, 'a) op = "tape \<times> 's \<Rightarrow> ('e + 'a) \<times> tape \<times> 's"

definition op_return :: "'a \<Rightarrow> ('s, 'e, 'a) op" where
  "op_return x = (\<lambda>(t, s). (Inr x, t, s))"

definition op_fail :: "'e \<Rightarrow> ('s, 'e, 'a) op" where
  "op_fail e = (\<lambda>(t, s). (Inl e, t, s))"

definition op_bind :: "('s, 'e, 'a) op \<Rightarrow> ('a \<Rightarrow> ('s, 'e, 'b) op) \<Rightarrow> ('s, 'e, 'b) op" where
  "op_bind m f = (\<lambda>ts. case m ts of (Inl e, ts') \<Rightarrow> (Inl e, ts') | (Inr x, ts') \<Rightarrow> f x ts')"

definition op_seq :: "('s, 'e, 'a) op \<Rightarrow> ('s, 'e, 'b) op \<Rightarrow> ('s, 'e, 'b) op" where
  "op_seq m k = op_bind m (\<lambda>_. k)"

definition op_get :: "('s \<Rightarrow> 'a) \<Rightarrow> ('s, 'e, 'a) op" where
  "op_get f = (\<lambda>(t, s). (Inr (f s), t, s))"

definition op_modify :: "('s \<Rightarrow> 's) \<Rightarrow> ('s, 'e, unit) op" where
  "op_modify f = (\<lambda>(t, s). (Inr (), t, f s))"

definition op_ask :: "('s, 'e, answer) op" where
  "op_ask = (\<lambda>(t, s). case t of [] \<Rightarrow> (Inr Go, [], s) | a # t' \<Rightarrow> (Inr a, t', s))"

definition op_check :: "'e \<Rightarrow> ('s, 'e, unit) op" where
  "op_check e = op_bind op_ask (\<lambda>a. if a = Go then op_return () else op_fail e)"

definition op_effect :: "'e \<Rightarrow> ('s \<Rightarrow> 's) \<Rightarrow> ('s, 'e, unit) op" where
  "op_effect e f = op_bind op_ask (\<lambda>a. case a of
     Go \<Rightarrow> op_modify f
   | Refuse \<Rightarrow> op_fail e
   | Torn \<Rightarrow> op_seq (op_modify f) (op_fail e))"

definition op_guard :: "bool \<Rightarrow> 'e \<Rightarrow> ('s, 'e, unit) op" where
  "op_guard b e = (if b then op_return () else op_fail e)"

definition op_try :: "('s, 'e, 'a) op \<Rightarrow> ('s, 'f, 'e + 'a) op" where
  "op_try m = (\<lambda>ts. case m ts of (r, ts') \<Rightarrow> (Inr r, ts'))"

definition op_remap :: "('e \<Rightarrow> 'f) \<Rightarrow> ('s, 'e, 'a) op \<Rightarrow> ('s, 'f, 'a) op" where
  "op_remap g m = (\<lambda>ts. case m ts of (Inl e, ts') \<Rightarrow> (Inl (g e), ts') | (Inr x, ts') \<Rightarrow> (Inr x, ts'))"

fun op_each :: "('a \<Rightarrow> ('s, 'e, unit) op) \<Rightarrow> 'a list \<Rightarrow> ('s, 'e, unit) op" where
  "op_each f [] = op_return ()"
| "op_each f (x # xs) = op_seq (f x) (op_each f xs)"

text \<open>
  \<open>wp m Q E s\<close>: from state \<open>s\<close>, whatever the world answers, \<open>m\<close> ends with a value
  and a state satisfying \<open>Q\<close> or with an error and a state satisfying \<open>E\<close>.
\<close>

definition wp :: "('s, 'e, 'a) op \<Rightarrow> ('a \<Rightarrow> 's \<Rightarrow> bool) \<Rightarrow> ('e \<Rightarrow> 's \<Rightarrow> bool) \<Rightarrow> 's \<Rightarrow> bool" where
  "wp m Q E s \<longleftrightarrow> (\<forall>t. case m (t, s) of (Inl e, t', s') \<Rightarrow> E e s' | (Inr x, t', s') \<Rightarrow> Q x s')"

lemma wpD:
  assumes "wp m Q E s" "m (t, s) = (r, t', s')"
  shows "case r of Inl e \<Rightarrow> E e s' | Inr x \<Rightarrow> Q x s'"
proof -
  from assms(1) have "case m (t, s) of (Inl e, t', s') \<Rightarrow> E e s' | (Inr x, t', s') \<Rightarrow> Q x s'"
    by (simp add: wp_def)
  with assms(2) show ?thesis by (simp split: sum.splits)
qed

lemma wp_Inr: "wp m Q E s \<Longrightarrow> m (t, s) = (Inr x, t', s') \<Longrightarrow> Q x s'"
  by (drule (1) wpD) simp

lemma wp_Inl: "wp m Q E s \<Longrightarrow> m (t, s) = (Inl e, t', s') \<Longrightarrow> E e s'"
  by (drule (1) wpD) simp

lemma wpI:
  assumes "\<And>t x t' s'. m (t, s) = (Inr x, t', s') \<Longrightarrow> Q x s'"
    and "\<And>t e t' s'. m (t, s) = (Inl e, t', s') \<Longrightarrow> E e s'"
  shows "wp m Q E s"
  unfolding wp_def using assms by (auto split: sum.splits prod.splits)

lemma wp_return [wp_intros]: "Q x s \<Longrightarrow> wp (op_return x) Q E s"
  by (simp add: wp_def op_return_def)

lemma wp_fail [wp_intros]: "E e s \<Longrightarrow> wp (op_fail e) Q E s"
  by (simp add: wp_def op_fail_def)

lemma wp_bind [wp_intros]: "wp m (\<lambda>x. wp (f x) Q E) E s \<Longrightarrow> wp (op_bind m f) Q E s"
  unfolding wp_def op_bind_def by (fastforce split: sum.splits prod.splits)

lemma wp_seq [wp_intros]: "wp m (\<lambda>_. wp k Q E) E s \<Longrightarrow> wp (op_seq m k) Q E s"
  unfolding op_seq_def by (rule wp_bind)

lemma wp_get [wp_intros]: "Q (f s) s \<Longrightarrow> wp (op_get f) Q E s"
  by (simp add: wp_def op_get_def)

lemma wp_modify [wp_intros]: "Q () (f s) \<Longrightarrow> wp (op_modify f) Q E s"
  by (simp add: wp_def op_modify_def)

lemma wp_ask: "(\<And>a. Q a s) \<Longrightarrow> wp op_ask Q E s"
  by (auto simp: wp_def op_ask_def split: list.splits)

lemma wp_check [wp_intros]: "Q () s \<Longrightarrow> E e s \<Longrightarrow> wp (op_check e) Q E s"
  unfolding op_check_def by (intro wp_bind wp_ask) (auto intro: wp_intros)

lemma wp_effect [wp_intros]:
  "Q () (f s) \<Longrightarrow> E e s \<Longrightarrow> E e (f s) \<Longrightarrow> wp (op_effect e f) Q E s"
  unfolding op_effect_def by (intro wp_bind wp_ask) (auto intro: wp_intros split: answer.splits)

lemma wp_guard [wp_intros]:
  "(b \<Longrightarrow> Q () s) \<Longrightarrow> (\<not> b \<Longrightarrow> E e s) \<Longrightarrow> wp (op_guard b e) Q E s"
  by (auto simp: op_guard_def intro: wp_intros)

lemma wp_try [wp_intros]:
  assumes "wp m (\<lambda>x. Q (Inr x)) (\<lambda>e. Q (Inl e)) s"
  shows "wp (op_try m) Q E s"
  unfolding wp_def
proof
  fix t
  obtain r t' s' where m: "m (t, s) = (r, t', s')" by (cases "m (t, s)") auto
  show "case op_try m (t, s) of (Inl e, t', s') \<Rightarrow> E e s' | (Inr x, t', s') \<Rightarrow> Q x s'"
    using wpD [OF assms m] by (simp add: op_try_def m split: sum.splits)
qed

lemma wp_remap [wp_intros]:
  assumes "wp m Q (\<lambda>e. E (g e)) s"
  shows "wp (op_remap g m) Q E s"
  unfolding wp_def
proof
  fix t
  obtain r t' s' where m: "m (t, s) = (r, t', s')" by (cases "m (t, s)") auto
  show "case op_remap g m (t, s) of (Inl e, t', s') \<Rightarrow> E e s' | (Inr x, t', s') \<Rightarrow> Q x s'"
    using wpD [OF assms m] by (simp add: op_remap_def m split: sum.splits)
qed

lemma wp_if [wp_intros]:
  "(b \<Longrightarrow> wp m Q E s) \<Longrightarrow> (\<not> b \<Longrightarrow> wp n Q E s) \<Longrightarrow> wp (if b then m else n) Q E s"
  by simp

lemma wp_option:
  "(x = None \<Longrightarrow> wp m Q E s) \<Longrightarrow> (\<And>y. x = Some y \<Longrightarrow> wp (f y) Q E s) \<Longrightarrow>
   wp (case x of None \<Rightarrow> m | Some y \<Rightarrow> f y) Q E s"
  by (simp split: option.splits)

lemma wp_sum:
  "(\<And>e. x = Inl e \<Longrightarrow> wp (g e) Q E s) \<Longrightarrow> (\<And>y. x = Inr y \<Longrightarrow> wp (f y) Q E s) \<Longrightarrow>
   wp (case x of Inl e \<Rightarrow> g e | Inr y \<Rightarrow> f y) Q E s"
  by (simp split: sum.splits)

lemma wp_mono:
  assumes "wp m Q E s" "\<And>x s'. Q x s' \<Longrightarrow> Q' x s'" "\<And>e s'. E e s' \<Longrightarrow> E' e s'"
  shows "wp m Q' E' s"
  using assms by (fastforce simp: wp_def split: sum.splits prod.splits)

text \<open>Sequencing after an operation with a known specification.\<close>

lemma wp_call:
  assumes "wp m Q0 E0 s" "\<And>x s'. Q0 x s' \<Longrightarrow> wp (f x) Q E s'" "\<And>e s'. E0 e s' \<Longrightarrow> E e s'"
  shows "wp (op_bind m f) Q E s"
  by (rule wp_bind, rule wp_mono [OF assms(1)]) (use assms(2,3) in auto)

lemma wp_then:
  assumes "wp m Q0 E0 s" "\<And>x s'. Q0 x s' \<Longrightarrow> wp k Q E s'" "\<And>e s'. E0 e s' \<Longrightarrow> E e s'"
  shows "wp (op_seq m k) Q E s"
  unfolding op_seq_def by (rule wp_call [OF assms])

lemma wp_conj:
  "wp m Q E s \<Longrightarrow> wp m Q' E' s \<Longrightarrow> wp m (\<lambda>x s. Q x s \<and> Q' x s) (\<lambda>e s. E e s \<and> E' e s) s"
  by (auto simp: wp_def split: sum.splits prod.splits)

lemma wp_each:
  assumes "I [] s"
    and "\<And>pre x rest s. xs = pre @ x # rest \<Longrightarrow> I pre s \<Longrightarrow>
           wp (f x) (\<lambda>_. I (pre @ [x])) E s"
    and "\<And>s. I xs s \<Longrightarrow> Q () s"
  shows "wp (op_each f xs) Q E s"
proof -
  have "wp (op_each f ys) Q E s" if "I pre s" "xs = pre @ ys" for ys pre s
    using that
  proof (induction ys arbitrary: pre s)
    case Nil
    then show ?case using assms(3) by (auto intro: wp_intros)
  next
    case (Cons y ys)
    have "wp (f y) (\<lambda>_. I (pre @ [y])) E s"
      by (rule assms(2)) (use Cons.prems in auto)
    then have "wp (f y) (\<lambda>_. wp (op_each f ys) Q E) E s"
      by (rule wp_mono) (use Cons in auto)
    then show ?case by (auto intro: wp_intros)
  qed
  with assms(1) show ?thesis by simp
qed

lemma wp_each_inv:
  assumes "\<And>x s. x \<in> set xs \<Longrightarrow> I s \<Longrightarrow> wp (f x) (\<lambda>_. I) E s" "I s"
    and "\<And>s. I s \<Longrightarrow> Q () s"
  shows "wp (op_each f xs) Q E s"
  by (rule wp_each [where I = "\<lambda>_. I"]) (use assms in auto)

text \<open>The state an operation leaves, whether it succeeds or fails.\<close>

definition op_final :: "('s, 'e, 'a) op \<Rightarrow> tape \<Rightarrow> 's \<Rightarrow> 's" where
  "op_final m t s = snd (snd (m (t, s)))"

lemma op_final_wp:
  assumes "wp m Q E s" "\<And>x s'. Q x s' \<Longrightarrow> R s'" "\<And>e s'. E e s' \<Longrightarrow> R s'"
  shows "R (op_final m t s)"
proof -
  obtain r t' s' where m: "m (t, s) = (r, t', s')" by (cases "m (t, s)") auto
  from wpD [OF assms(1) m] show ?thesis
    using assms(2,3) by (auto simp: op_final_def m split: sum.splits)
qed

text \<open>A read-only operation that fails only by refusing.\<close>

definition reads_only :: "('s, 'e, 'a) op \<Rightarrow> bool" where
  "reads_only m \<longleftrightarrow> (\<forall>s. wp m (\<lambda>_ s'. s' = s) (\<lambda>_ s'. s' = s) s)"

lemma reads_onlyD: "reads_only m \<Longrightarrow> wp m (\<lambda>_ s'. s' = s) (\<lambda>_ s'. s' = s) s"
  by (simp add: reads_only_def)

lemma wp_reads_only: "reads_only m \<Longrightarrow> (\<And>x. Q x s) \<Longrightarrow> (\<And>e. E e s) \<Longrightarrow> wp m Q E s"
  by (rule wp_mono [OF reads_onlyD]) auto

text \<open>
  Relations every operation of a component respects, such as "the configuration
  does not change" or "the invariant is kept": one rule per combinator.
\<close>

definition keeps :: "('s \<Rightarrow> 's \<Rightarrow> bool) \<Rightarrow> ('s, 'e, 'a) op \<Rightarrow> bool" where
  "keeps R m \<longleftrightarrow> (\<forall>s. wp m (\<lambda>_. R s) (\<lambda>_. R s) s)"

locale kept_relation =
  fixes R :: "'s \<Rightarrow> 's \<Rightarrow> bool"
  assumes R_refl: "R s s"
    and R_trans: "R s s' \<Longrightarrow> R s' s'' \<Longrightarrow> R s s''"
begin

lemma return: "keeps R (op_return x)"
  by (auto simp: keeps_def R_refl intro: wp_intros)

lemma fail: "keeps R (op_fail e)"
  by (auto simp: keeps_def R_refl intro: wp_intros)

lemma get: "keeps R (op_get f)"
  by (auto simp: keeps_def R_refl intro: wp_intros)

lemma check: "keeps R (op_check e)"
  by (auto simp: keeps_def R_refl intro: wp_intros)

lemma guard: "keeps R (op_guard b e)"
  by (auto simp: keeps_def R_refl intro: wp_intros)

lemma modify: "(\<And>s. R s (f s)) \<Longrightarrow> keeps R (op_modify f)"
  by (auto simp: keeps_def intro: wp_intros)

lemma effect: "(\<And>s. R s (f s)) \<Longrightarrow> keeps R (op_effect e f)"
  by (auto simp: keeps_def R_refl intro: wp_intros)

lemma bind:
  assumes "keeps R m" "\<And>x. keeps R (f x)"
  shows "keeps R (op_bind m f)"
  unfolding keeps_def
proof
  fix s
  show "wp (op_bind m f) (\<lambda>_. R s) (\<lambda>_. R s) s"
    by (rule wp_call [of m "\<lambda>_. R s" "\<lambda>_. R s"])
      (use assms in \<open>auto simp: keeps_def intro: wp_mono R_trans\<close>)
qed

lemma seq: "keeps R m \<Longrightarrow> keeps R k \<Longrightarrow> keeps R (op_seq m k)"
  unfolding op_seq_def by (rule bind)

lemma attempt: "keeps R m \<Longrightarrow> keeps R (op_try m)"
  by (auto simp: keeps_def intro!: wp_try)

lemma remap: "keeps R m \<Longrightarrow> keeps R (op_remap g m)"
  by (auto simp: keeps_def intro!: wp_remap)

lemma each: "(\<And>x. x \<in> set xs \<Longrightarrow> keeps R (f x)) \<Longrightarrow> keeps R (op_each f xs)"
  by (induction xs) (auto intro: return seq)

lemma branch: "(b \<Longrightarrow> keeps R m) \<Longrightarrow> (\<not> b \<Longrightarrow> keeps R n) \<Longrightarrow> keeps R (if b then m else n)"
  by simp

lemma final: "keeps R m \<Longrightarrow> R s (op_final m t s)"
  by (auto simp: keeps_def intro: op_final_wp)

lemmas rules = return fail get check guard seq bind attempt remap branch

end

text \<open>Evaluation with an empty tape, where every interaction succeeds.\<close>

lemma run_return [run_simps]: "op_return x (t, s) = (Inr x, t, s)"
  by (simp add: op_return_def)

lemma run_fail [run_simps]: "op_fail e (t, s) = (Inl e, t, s)"
  by (simp add: op_fail_def)

lemma run_get [run_simps]: "op_get f (t, s) = (Inr (f s), t, s)"
  by (simp add: op_get_def)

lemma run_modify [run_simps]: "op_modify f (t, s) = (Inr (), t, f s)"
  by (simp add: op_modify_def)

lemma run_check [run_simps]: "op_check e ([], s) = (Inr (), [], s)"
  by (simp add: op_check_def op_bind_def op_ask_def op_return_def)

lemma run_effect [run_simps]: "op_effect e f ([], s) = (Inr (), [], f s)"
  by (simp add: op_effect_def op_bind_def op_ask_def op_modify_def)

lemma run_guard [run_simps]:
  "op_guard b e (t, s) = (if b then (Inr (), t, s) else (Inl e, t, s))"
  by (simp add: op_guard_def op_return_def op_fail_def)

lemma run_bind [run_simps]:
  "op_bind m f ts = (case m ts of (Inl e, ts') \<Rightarrow> (Inl e, ts') | (Inr x, ts') \<Rightarrow> f x ts')"
  by (simp add: op_bind_def)

lemma run_seq [run_simps]:
  "op_seq m k ts = (case m ts of (Inl e, ts') \<Rightarrow> (Inl e, ts') | (Inr x, ts') \<Rightarrow> k ts')"
  by (simp add: op_seq_def op_bind_def)

lemma run_try [run_simps]: "op_try m ts = (case m ts of (r, ts') \<Rightarrow> (Inr r, ts'))"
  by (simp add: op_try_def)

lemma run_remap [run_simps]:
  "op_remap g m ts = (case m ts of (Inl e, ts') \<Rightarrow> (Inl (g e), ts') | (Inr x, ts') \<Rightarrow> (Inr x, ts'))"
  by (simp add: op_remap_def)

lemma run_each_same:
  "(\<And>x. x \<in> set xs \<Longrightarrow> f x (t, s) = (Inr (), t, s)) \<Longrightarrow> op_each f xs (t, s) = (Inr (), t, s)"
  by (induction xs) (auto simp: run_simps)

lemma run_each_inv:
  assumes "\<And>x s. x \<in> set xs \<Longrightarrow> I s \<Longrightarrow> \<exists>s'. f x (t, s) = (Inr (), t, s') \<and> I s'" "I s"
  shows "\<exists>s'. op_each f xs (t, s) = (Inr (), t, s') \<and> I s'"
  using assms
proof (induction xs arbitrary: s)
  case Nil
  then show ?case by (simp add: run_simps)
next
  case (Cons x xs)
  from Cons.prems obtain s1 where "f x (t, s) = (Inr (), t, s1)" "I s1" by (meson list.set_intros(1))
  moreover from this Cons obtain s2 where "op_each f xs (t, s1) = (Inr (), t, s2)" "I s2"
    by (meson list.set_intros(2))
  ultimately show ?case by (auto simp: run_simps)
qed

text \<open>The same with a statement about the processed prefix.\<close>

lemma run_each_prefix:
  assumes "I [] s"
    and "\<And>pre x rest s. xs = pre @ x # rest \<Longrightarrow> I pre s \<Longrightarrow>
           \<exists>s'. f x (t, s) = (Inr (), t, s') \<and> I (pre @ [x]) s'"
  shows "\<exists>s'. op_each f xs (t, s) = (Inr (), t, s') \<and> I xs s'"
proof -
  have "\<exists>s'. op_each f ys (t, s) = (Inr (), t, s') \<and> I xs s'" if "I pre s" "xs = pre @ ys" for ys pre s
    using that
  proof (induction ys arbitrary: pre s)
    case Nil
    then show ?case by (simp add: run_simps)
  next
    case (Cons y ys)
    from assms(2) [of pre y ys s] Cons.prems obtain s1 where
      "f y (t, s) = (Inr (), t, s1)" "I (pre @ [y]) s1" by auto
    moreover from this Cons obtain s2 where "op_each f ys (t, s1) = (Inr (), t, s2)" "I xs s2"
      by (metis append.assoc append_Cons append_Nil)
    ultimately show ?case by (auto simp: run_simps)
  qed
  from this [OF assms(1), of xs] show ?thesis by simp
qed

text \<open>An operation on one part of a larger state.\<close>

definition op_zoom :: "('w \<Rightarrow> 's) \<Rightarrow> ('s \<Rightarrow> 'w \<Rightarrow> 'w) \<Rightarrow> ('s, 'e, 'a) op \<Rightarrow> ('w, 'e, 'a) op" where
  "op_zoom get put m = (\<lambda>(t, w). case m (t, get w) of (r, t', s) \<Rightarrow> (r, t', put s w))"

lemma wp_zoom [wp_intros]:
  assumes "wp m (\<lambda>x s. Q x (put s w)) (\<lambda>e s. E e (put s w)) (get w)"
  shows "wp (op_zoom get put m) Q E w"
  unfolding wp_def
proof
  fix t
  obtain r t' s where m: "m (t, get w) = (r, t', s)" by (metis prod_cases3)
  from wpD [OF assms m] show "case op_zoom get put m (t, w) of (Inl e, t', s') \<Rightarrow> E e s' | (Inr x, t', s') \<Rightarrow> Q x s'"
    by (simp add: op_zoom_def m split: sum.splits)
qed

lemma run_zoom [run_simps]:
  "op_zoom get put m (t, w) = (case m (t, get w) of (r, t', s) \<Rightarrow> (r, t', put s w))"
  by (simp add: op_zoom_def)

section \<open>Runs of a labelled step relation\<close>

inductive runs :: "('s \<Rightarrow> 'l \<Rightarrow> 's \<Rightarrow> bool) \<Rightarrow> 's \<Rightarrow> 'l list \<Rightarrow> 's \<Rightarrow> bool" for step where
  run_start: "runs step s [] s"
| run_step: "runs step s es s' \<Longrightarrow> step s' e s'' \<Longrightarrow> runs step s (es @ [e]) s''"

lemma run_one: "step s e s' \<Longrightarrow> runs step s [e] s'"
  using run_step [OF run_start] by simp

lemma run_two: "step s e s' \<Longrightarrow> step s' e' s'' \<Longrightarrow> runs step s [e, e'] s''"
  using run_step [OF run_one] by simp

text \<open>
  An invariant of a step relation, and a relation between the states of a run
  that every step from an invariant state respects.
\<close>

locale step_invariant =
  fixes step :: "'s \<Rightarrow> 'l \<Rightarrow> 's \<Rightarrow> bool" and inv :: "'s \<Rightarrow> bool"
  assumes step_inv: "inv s \<Longrightarrow> step s e s' \<Longrightarrow> inv s'"
begin

lemma run_inv: "runs step s es s' \<Longrightarrow> inv s \<Longrightarrow> inv s'"
  by (induction rule: runs.induct) (auto intro: step_inv)

end

locale step_relation = step_invariant +
  fixes rel :: "'s \<Rightarrow> 's \<Rightarrow> bool"
  assumes rel_refl: "rel s s"
    and rel_trans: "rel s s' \<Longrightarrow> rel s' s'' \<Longrightarrow> rel s s''"
    and step_rel: "inv s \<Longrightarrow> step s e s' \<Longrightarrow> rel s s'"
begin

lemma run_rel: "runs step s es s' \<Longrightarrow> inv s \<Longrightarrow> rel s s'"
  by (induction rule: runs.induct) (auto intro: rel_refl rel_trans step_rel run_inv)

end

text \<open>A relation that every step of another one maps into, seen through an abstraction.\<close>

locale step_simulation = step_invariant +
  fixes astep :: "'a \<Rightarrow> 'l \<Rightarrow> 'a \<Rightarrow> bool" and abs :: "'s \<Rightarrow> 'a"
  assumes step_sim: "inv s \<Longrightarrow> step s e s' \<Longrightarrow> astep (abs s) e (abs s')"
begin

lemma run_sim: "runs step s es s' \<Longrightarrow> inv s \<Longrightarrow> runs astep (abs s) es (abs s')"
  by (induction rule: runs.induct) (auto intro: runs.intros step_sim run_inv)

end

section \<open>Times and durations\<close>

text \<open>
  A Go \<open>time.Time\<close> is the number of nanoseconds since the zero time (1 January
  of year 1, UTC), so \<open>IsZero\<close> is equality with 0.  A duration is a number of
  nanoseconds; \<open>Sub\<close> saturates at the bounds of a signed 64-bit integer.
\<close>

type_synonym time = int
type_synonym duration = int

definition zero_time :: time where "zero_time = 0"

definition time_before :: "time \<Rightarrow> time \<Rightarrow> bool" where "time_before a b \<longleftrightarrow> a < b"

definition time_after :: "time \<Rightarrow> time \<Rightarrow> bool" where "time_after a b \<longleftrightarrow> b < a"

definition time_sub :: "time \<Rightarrow> time \<Rightarrow> duration" where
  "time_sub a b = max (- (2 ^ 63)) (min (2 ^ 63 - 1) (a - b))"

definition millisecond :: duration where "millisecond = 1000000"
definition second :: duration where "second = 1000000000"
definition minute :: duration where "minute = 60 * second"
definition hour :: duration where "hour = 60 * minute"

lemmas duration_defs = millisecond_def second_def minute_def hour_def

lemma time_sub_le_iff: "0 \<le> d \<Longrightarrow> d < 2 ^ 63 - 1 \<Longrightarrow> time_sub a b \<le> d \<longleftrightarrow> a - b \<le> d"
  by (auto simp: time_sub_def)

lemma time_sub_less_iff: "0 \<le> d \<Longrightarrow> d \<le> 2 ^ 63 - 1 \<Longrightarrow> time_sub a b < d \<longleftrightarrow> a - b < d"
  by (auto simp: time_sub_def)

text \<open>A signed 64-bit result, and the Unix time in nanoseconds.\<close>

definition wrap64 :: "int \<Rightarrow> int" where "wrap64 i = (i + 2 ^ 63) mod 2 ^ 64 - 2 ^ 63"

lemma wrap64_id: "- (2 ^ 63) \<le> i \<Longrightarrow> i < 2 ^ 63 \<Longrightarrow> wrap64 i = i"
  by (simp add: wrap64_def)

definition unix_nano :: "time \<Rightarrow> int" where
  "unix_nano t = wrap64 (t - 62135596800 * second)"

text \<open>
  A string field that holds a time: \<open>Stamp t\<close> when \<open>time.Parse(time.RFC3339, s)\<close>
  succeeds with \<open>t\<close>, \<open>Text s\<close> when it fails (the empty string included).
  \<open>Format(time.RFC3339)\<close> drops the fraction of the second.
\<close>

datatype stamp = Text string | Stamp time

definition rfc3339 :: "time \<Rightarrow> stamp" where "rfc3339 t = Stamp (t - t mod second)"
definition rfc3339_nano :: "time \<Rightarrow> stamp" where "rfc3339_nano t = Stamp t"

section \<open>Strings and lists\<close>

text \<open>
  Go strings are byte sequences; \<open>string\<close> is a list of 8-bit characters, and
  the lexicographic order of \<open>List_Lexorder\<close> over \<open>Char_ord\<close> is Go's byte order.
\<close>

definition go_space :: "char \<Rightarrow> bool" where
  "go_space c \<longleftrightarrow> c \<in> {CHR '' '', CHR 0x09, CHR 0x0A, CHR 0x0B, CHR 0x0C, CHR 0x0D}"

definition trim_left :: "(char \<Rightarrow> bool) \<Rightarrow> string \<Rightarrow> string" where
  "trim_left p s = dropWhile p s"

definition trim_right :: "(char \<Rightarrow> bool) \<Rightarrow> string \<Rightarrow> string" where
  "trim_right p s = rev (dropWhile p (rev s))"

definition trim_space :: "string \<Rightarrow> string" where
  "trim_space s = trim_right go_space (trim_left go_space s)"

definition has_prefix :: "string \<Rightarrow> string \<Rightarrow> bool" where
  "has_prefix s p \<longleftrightarrow> take (length p) s = p"

definition has_suffix :: "string \<Rightarrow> string \<Rightarrow> bool" where
  "has_suffix s p \<longleftrightarrow> has_prefix (rev s) (rev p)"

fun contains_sub :: "string \<Rightarrow> string \<Rightarrow> bool" where
  "contains_sub [] p \<longleftrightarrow> p = []"
| "contains_sub (c # s) p \<longleftrightarrow> has_prefix (c # s) p \<or> contains_sub s p"

definition in_range :: "char \<Rightarrow> char \<Rightarrow> char \<Rightarrow> bool" where
  "in_range lo hi c \<longleftrightarrow> (of_char lo :: nat) \<le> of_char c \<and> (of_char c :: nat) \<le> of_char hi"

definition is_digit :: "char \<Rightarrow> bool" where "is_digit c = in_range CHR ''0'' CHR ''9'' c"
definition is_lower :: "char \<Rightarrow> bool" where "is_lower c = in_range CHR ''a'' CHR ''z'' c"
definition is_upper :: "char \<Rightarrow> bool" where "is_upper c = in_range CHR ''A'' CHR ''Z'' c"
definition is_hex :: "char \<Rightarrow> bool" where
  "is_hex c \<longleftrightarrow> is_digit c \<or> in_range CHR ''a'' CHR ''f'' c"

definition to_lower_char :: "char \<Rightarrow> char" where
  "to_lower_char c = (if is_upper c then char_of ((of_char c :: nat) + 32) else c)"

definition to_lower :: "string \<Rightarrow> string" where "to_lower s = map to_lower_char s"

lemmas char_class_defs = in_range_def is_digit_def is_lower_def is_upper_def is_hex_def

text \<open>Decimal notation, and the canonical names built from it.\<close>

fun dec :: "nat \<Rightarrow> string" where
  "dec n = (if n < 10 then [char_of (48 + n)] else dec (n div 10) @ [char_of (48 + n mod 10)])"

declare dec.simps [simp del]

definition dec_int :: "int \<Rightarrow> string" where
  "dec_int i = (if i < 0 then CHR ''-'' # dec (nat (- i)) else dec (nat i))"

text \<open>The last element of a list satisfying a test, and the slice tail Go keeps.\<close>

definition take_last :: "nat \<Rightarrow> 'a list \<Rightarrow> 'a list" where
  "take_last n xs = drop (length xs - n) xs"

lemma length_take_last [simp]: "length (take_last n xs) = min n (length xs)"
  by (auto simp: take_last_def)

lemma set_take_last: "set (take_last n xs) \<subseteq> set xs"
  by (simp add: take_last_def set_drop_subset)

lemma distinct_filter_snoc:
  "distinct (filter P xs) \<Longrightarrow> x \<notin> set (filter P xs) \<Longrightarrow> distinct (filter P xs @ [x])"
  by simp

end
