(* ===== verification/File_Target.thy ===== *)
theory File_Target
  imports Prelude
begin

text \<open>
  \<open>internal/restorejournal/file_target.go\<close>: the bounded file adapter that a
  restore journal writes through, and the contract \<open>Target\<close> of
  \<open>journal.go\<close> that it implements, stated as the locale \<open>restore_target\<close>.
\<close>

section \<open>Images\<close>

record image =
  img_exists :: bool
  img_data :: string

datatype rj_error =
  RjInvalid | RjUnavailable | RjBusy | RjPending | RjRecovery | RjAborted | RjConflict

definition MaxImageBytes :: nat where "MaxImageBytes = 4 * 2 ^ 20"

definition validImage :: "image \<Rightarrow> bool" where
  "validImage i \<longleftrightarrow> length (img_data i) \<le> MaxImageBytes \<and> (img_exists i \<or> length (img_data i) = 0)"

definition equal_image :: "image \<Rightarrow> image \<Rightarrow> bool" where
  "equal_image a b \<longleftrightarrow> img_exists a = img_exists b \<and> img_data a = img_data b"

lemma equal_image_iff [simp]: "equal_image a b \<longleftrightarrow> a = b"
  by (auto simp: equal_image_def)

definition absent_image :: image where
  "absent_image = \<lparr>img_exists = False, img_data = []\<rparr>"

lemma validImage_absent [simp]: "validImage absent_image"
  by (simp add: validImage_def absent_image_def)

section \<open>The file adapter\<close>

text \<open>
  What the directory entry holds: nothing, something that is no regular file,
  or a regular file with its bytes.
\<close>

datatype file_content = Absent | Irregular | Regular string

record file_target =
  ft_closed :: bool
  ft_content :: file_content

definition readTarget :: "(file_target, rj_error, image) op" where
  "readTarget =
     op_seq (op_check RjAborted) (
     op_seq (op_check RjInvalid) (
     op_bind (op_get ft_content) (\<lambda>c. case c of
       Absent \<Rightarrow> op_return absent_image
     | Irregular \<Rightarrow> op_fail RjInvalid
     | Regular d \<Rightarrow>
         if length d > MaxImageBytes then op_fail RjInvalid
         else op_seq (op_check RjUnavailable) (
              op_seq (op_check RjConflict) (
              op_seq (op_check RjInvalid) (
              op_seq (op_check RjAborted) (
              op_return \<lparr>img_exists = True, img_data = d\<rparr>)))))))"

definition ft_read :: "(file_target, rj_error, image) op" where
  "ft_read = op_bind (op_get ft_closed) (\<lambda>c. if c then op_fail RjUnavailable else readTarget)"

text \<open>
  The \<open>write\<close> closure of \<open>OpenFileTarget\<close>: an atomic replacement or a removal,
  then a directory sync.  A failure may come after the rename or the unlink.
\<close>

definition image_content :: "image \<Rightarrow> file_content" where
  "image_content i = (if img_exists i then Regular (img_data i) else Absent)"

definition ft_write :: "image \<Rightarrow> (file_target, rj_error, unit) op" where
  "ft_write after = op_effect RjRecovery (\<lambda>f. f\<lparr>ft_content := image_content after\<rparr>)"

definition CompareAndSwap :: "image \<Rightarrow> image \<Rightarrow> (file_target, rj_error, unit) op" where
  "CompareAndSwap before after =
     op_bind (op_get ft_closed) (\<lambda>c.
     if c then op_fail RjUnavailable
     else if \<not> validImage before \<or> \<not> validImage after then op_fail RjInvalid
     else op_bind readTarget (\<lambda>current.
       if \<not> equal_image current before then op_fail RjConflict
       else if equal_image before after then op_return ()
       else op_seq (op_check RjAborted) (ft_write after)))"

definition ft_close :: "(file_target, rj_error, unit) op" where
  "ft_close = op_bind (op_get ft_closed) (\<lambda>c.
     if c then op_return ()
     else op_seq (op_modify (\<lambda>f. f\<lparr>ft_closed := True\<rparr>)) (op_check RjUnavailable))"

section \<open>The contract of a restore target\<close>

text \<open>
  \<open>holds f = Some i\<close>: an open target whose whole image is \<open>i\<close>.  \<open>Read\<close>
  returns the image or fails with no change; \<open>CompareAndSwap\<close> succeeds only
  from the expected image, and its failure leaves either the image untouched
  or the replacement made.
\<close>

locale restore_target =
  fixes rd :: "('f, rj_error, image) op"
    and cas :: "image \<Rightarrow> image \<Rightarrow> ('f, rj_error, unit) op"
    and holds :: "'f \<Rightarrow> image option"
  assumes rd_wp: "wp rd (\<lambda>i f'. f' = f \<and> holds f = Some i) (\<lambda>_ f'. f' = f) f"
    and rd_run: "holds f = Some i \<Longrightarrow> rd ([], f) = (Inr i, [], f)"
    and cas_wp: "wp (cas b a)
          (\<lambda>_ f'. holds f = Some b \<and> holds f' = Some a)
          (\<lambda>_ f'. f' = f \<or> holds f = Some b \<and> holds f' = Some a) f"
    and cas_run: "holds f = Some b \<Longrightarrow> validImage b \<Longrightarrow> validImage a \<Longrightarrow>
          \<exists>f'. cas b a ([], f) = (Inr (), [], f') \<and> holds f' = Some a"
begin

text \<open>Whatever a swap reports, a target that held one of the two images still does.\<close>

lemma cas_stays:
  assumes "holds f \<in> {Some b, Some a}"
  shows "wp (cas b a) (\<lambda>_ f'. holds f' = Some a) (\<lambda>_ f'. holds f' \<in> {Some b, Some a}) f"
  by (rule wp_mono [OF cas_wp]) (use assms in auto)

lemma cas_back_stays:
  assumes "holds f \<in> {Some b, Some a}"
  shows "wp (cas a b) (\<lambda>_ f'. holds f' = Some b) (\<lambda>_ f'. holds f' \<in> {Some b, Some a}) f"
  by (rule wp_mono [OF cas_wp]) (use assms in auto)

lemma rd_holds: "holds f = Some i \<Longrightarrow> wp rd (\<lambda>j f'. f' = f \<and> j = i) (\<lambda>_ f'. f' = f) f"
  by (rule wp_mono [OF rd_wp]) auto

lemma foreign_refused:
  assumes "holds f = Some i" "i \<noteq> b"
  shows "wp (cas b a) (\<lambda>_ _. False) (\<lambda>_ f'. f' = f) f"
  by (rule wp_mono [OF cas_wp]) (use assms in auto)

end

section \<open>The file adapter honours the contract\<close>

definition ft_holds :: "file_target \<Rightarrow> image option" where
  "ft_holds f = (if ft_closed f then None else case ft_content f of
     Absent \<Rightarrow> Some absent_image
   | Irregular \<Rightarrow> None
   | Regular d \<Rightarrow> if length d \<le> MaxImageBytes then Some \<lparr>img_exists = True, img_data = d\<rparr> else None)"

lemma ft_holds_valid: "ft_holds f = Some i \<Longrightarrow> validImage i"
  by (auto simp: ft_holds_def validImage_def absent_image_def
        split: if_splits file_content.splits)

lemma ft_holds_write:
  assumes "\<not> ft_closed f" "validImage a"
  shows "ft_holds (f\<lparr>ft_content := image_content a\<rparr>) = Some a"
proof (cases "img_exists a")
  case True
  with assms show ?thesis by (cases a) (simp add: ft_holds_def image_content_def validImage_def)
next
  case False
  with assms show ?thesis
    by (cases a) (simp add: ft_holds_def image_content_def validImage_def absent_image_def)
qed

lemma readTarget_wp:
  "\<not> ft_closed f \<Longrightarrow>
   wp readTarget (\<lambda>i f'. f' = f \<and> ft_holds f = Some i) (\<lambda>_ f'. f' = f) f"
  unfolding readTarget_def
  by (cases "ft_content f")
    (auto intro!: wp_intros wp_if simp: ft_holds_def split: file_content.splits)

lemma readTarget_run: "ft_holds f = Some i \<Longrightarrow> readTarget ([], f) = (Inr i, [], f)"
  by (auto simp: readTarget_def ft_holds_def run_simps split: if_splits file_content.splits)

lemma ft_read_wp: "wp ft_read (\<lambda>i f'. f' = f \<and> ft_holds f = Some i) (\<lambda>_ f'. f' = f) f"
  unfolding ft_read_def by (auto intro!: wp_intros wp_if readTarget_wp)

lemma CompareAndSwap_wp:
  "wp (CompareAndSwap b a)
     (\<lambda>_ f'. ft_holds f = Some b \<and> ft_holds f' = Some a)
     (\<lambda>_ f'. f' = f \<or> ft_holds f = Some b \<and> ft_holds f' = Some a) f"
proof (cases "ft_closed f \<or> \<not> validImage b \<or> \<not> validImage a")
  case True
  then show ?thesis
    unfolding CompareAndSwap_def by (auto intro!: wp_intros wp_if)
next
  case False
  then have "wp readTarget (\<lambda>i f'. f' = f \<and> ft_holds f = Some i) (\<lambda>_ f'. f' = f) f"
    by (simp add: readTarget_wp)
  then have rest: "wp (op_bind readTarget (\<lambda>current.
       if \<not> equal_image current b then op_fail RjConflict
       else if equal_image b a then op_return ()
       else op_seq (op_check RjAborted) (ft_write a)))
     (\<lambda>_ f'. ft_holds f = Some b \<and> ft_holds f' = Some a)
     (\<lambda>_ f'. f' = f \<or> ft_holds f = Some b \<and> ft_holds f' = Some a) f"
    by (rule wp_call)
      (use False in \<open>auto intro!: wp_intros wp_if simp: ft_write_def ft_holds_write\<close>)
  show ?thesis
    unfolding CompareAndSwap_def by (rule wp_bind, rule wp_get) (use False rest in simp)
qed

lemma CompareAndSwap_run:
  assumes "ft_holds f = Some b" "validImage b" "validImage a"
  shows "\<exists>f'. CompareAndSwap b a ([], f) = (Inr (), [], f') \<and> ft_holds f' = Some a"
proof -
  have "\<not> ft_closed f" using assms(1) by (auto simp: ft_holds_def split: if_splits)
  with assms show ?thesis
    by (auto simp: CompareAndSwap_def run_simps readTarget_run ft_write_def ft_holds_write)
qed

text \<open>The content a swap leaves, exactly.\<close>

lemma ft_holds_content: "ft_holds f = Some i \<Longrightarrow> ft_content f = image_content i"
  by (auto simp: ft_holds_def image_content_def absent_image_def split: if_splits file_content.splits)

lemma CompareAndSwap_content:
  "wp (CompareAndSwap b a)
    (\<lambda>_ f'. validImage a \<and> ft_holds f = Some b \<and> f' = f\<lparr>ft_content := image_content a\<rparr>)
    (\<lambda>e f'. f' = f \<or> e = RjRecovery \<and> b \<noteq> a \<and> validImage a \<and> ft_holds f = Some b \<and> f' = f\<lparr>ft_content := image_content a\<rparr>) f"
proof (cases "ft_closed f \<or> \<not> validImage b \<or> \<not> validImage a")
  case True
  then show ?thesis
    unfolding CompareAndSwap_def by (auto intro!: wp_intros wp_if)
next
  case False
  have same: "f = f\<lparr>ft_content := image_content i\<rparr>" if "ft_holds f = Some i" for i
    using ft_holds_content [OF that] by simp
  from False have "wp readTarget (\<lambda>i f'. f' = f \<and> ft_holds f = Some i) (\<lambda>_ f'. f' = f) f"
    by (simp add: readTarget_wp)
  then have rest: "wp (op_bind readTarget (\<lambda>current.
       if \<not> equal_image current b then op_fail RjConflict
       else if equal_image b a then op_return ()
       else op_seq (op_check RjAborted) (ft_write a)))
    (\<lambda>_ f'. validImage a \<and> ft_holds f = Some b \<and> f' = f\<lparr>ft_content := image_content a\<rparr>)
    (\<lambda>e f'. f' = f \<or> e = RjRecovery \<and> b \<noteq> a \<and> validImage a \<and> ft_holds f = Some b \<and> f' = f\<lparr>ft_content := image_content a\<rparr>) f"
    by (rule wp_call)
      (use same False in \<open>auto intro!: wp_intros wp_if simp: ft_write_def\<close>)
  show ?thesis
    unfolding CompareAndSwap_def by (rule wp_bind, rule wp_get) (use False rest in simp)
qed

interpretation ft: restore_target ft_read CompareAndSwap ft_holds
proof unfold_locales
  show "wp ft_read (\<lambda>i f'. f' = f \<and> ft_holds f = Some i) (\<lambda>_ f'. f' = f) f" for f
    by (rule ft_read_wp)
  show "ft_read ([], f) = (Inr i, [], f)" if "ft_holds f = Some i" for f i
  proof -
    have "\<not> ft_closed f" using that by (auto simp: ft_holds_def split: if_splits)
    with that show ?thesis by (simp add: ft_read_def run_simps readTarget_run)
  qed
qed (auto intro: CompareAndSwap_wp CompareAndSwap_run)

end
