(* ===== verification/Restore_Journal.thy ===== *)
theory Restore_Journal
  imports File_Target
begin

text \<open>
  \<open>internal/restorejournal/journal.go\<close>: a bounded before/after plan is made
  durable before the first target is touched, and recovery rolls a prepared
  plan back or finishes a committed one.  An error of an operation is the pair
  of outcome and error that the Go method returns.
\<close>

section \<open>Documents\<close>

definition MaxTargets :: nat where "MaxTargets = 64"
definition MaxPlanBytes :: nat where "MaxPlanBytes = 8 * 2 ^ 20"
definition maxJournalBytes :: nat where "maxJournalBytes = 12 * 2 ^ 20"
definition journalKind :: string where "journalKind = ''razvilka-private-restore''"

datatype outcome = Clean | Applied | RolledBack | Blocked

datatype doc_state = DocIdle | DocPrepared | DocCommitted | DocOther string

record rj_record =
  rec_target :: string
  rec_before :: image
  rec_after :: image

record document =
  doc_kind :: string
  doc_schema :: int
  doc_scope :: string
  doc_id :: string
  doc_st :: doc_state
  doc_records :: "rj_record list"

text \<open>
  The journal file: missing, refused before any record is used (oversized, not
  canonical, or with a digest that does not match), or the canonical encoding
  of a document with its digest.
\<close>

datatype journal_file = NoJournal | BadJournal | Journal document

record journal =
  rj_file :: journal_file
  rj_targets :: "string \<Rightarrow> file_target option"
  rj_scope :: string
  rj_closed :: bool

definition idle_doc :: "string \<Rightarrow> document" where
  "idle_doc scope = \<lparr>doc_kind = journalKind, doc_schema = 1, doc_scope = scope, doc_id = [],
     doc_st = DocIdle, doc_records = []\<rparr>"

definition validHash :: "string \<Rightarrow> bool" where
  "validHash v \<longleftrightarrow> length v = 64 \<and> list_all is_hex v"

definition valid_doc_id :: "string \<Rightarrow> bool" where
  "valid_doc_id v \<longleftrightarrow> length v = 32 \<and> list_all is_hex v"

text \<open>\<open>^[a-z][a-z0-9_-]{0,47}$\<close>\<close>

definition target_id_ok :: "string \<Rightarrow> bool" where
  "target_id_ok v \<longleftrightarrow> (case v of [] \<Rightarrow> False | c # cs \<Rightarrow>
     is_lower c \<and> length cs \<le> 47 \<and>
     list_all (\<lambda>d. is_lower d \<or> is_digit d \<or> d = CHR ''_'' \<or> d = CHR ''-'') cs)"

text \<open>The loop of \<open>load\<close> over the records: ascending configured targets, bounded images.\<close>

fun valid_records :: "(string \<Rightarrow> bool) \<Rightarrow> string \<Rightarrow> nat \<Rightarrow> rj_record list \<Rightarrow> bool" where
  "valid_records is_target prev used [] \<longleftrightarrow> True"
| "valid_records is_target prev used (r # rs) \<longleftrightarrow>
     prev < rec_target r \<and> is_target (rec_target r) \<and>
     validImage (rec_before r) \<and> validImage (rec_after r) \<and>
     \<not> equal_image (rec_before r) (rec_after r) \<and>
     (let used' = used + length (img_data (rec_before r)) + length (img_data (rec_after r))
      in used' \<le> MaxPlanBytes \<and> valid_records is_target (rec_target r) used' rs)"

definition valid_document :: "string \<Rightarrow> (string \<Rightarrow> bool) \<Rightarrow> document \<Rightarrow> bool" where
  "valid_document scope is_target d \<longleftrightarrow>
     doc_kind d = journalKind \<and> doc_schema d = 1 \<and> doc_scope d = scope \<and>
     (if doc_st d = DocIdle then doc_id d = [] \<and> doc_records d = []
      else valid_doc_id (doc_id d) \<and> (doc_st d = DocPrepared \<or> doc_st d = DocCommitted) \<and>
           doc_records d \<noteq> [] \<and> length (doc_records d) \<le> MaxTargets \<and>
           valid_records is_target [] 0 (doc_records d))"

definition configured :: "journal \<Rightarrow> string \<Rightarrow> bool" where
  "configured s tid \<longleftrightarrow> rj_targets s tid \<noteq> None"

definition rj_load :: "(journal, rj_error, document) op" where
  "rj_load =
     op_seq (op_check RjInvalid) (
     op_bind (op_get (\<lambda>s. s)) (\<lambda>s. case rj_file s of
       NoJournal \<Rightarrow> op_return (idle_doc (rj_scope s))
     | BadJournal \<Rightarrow> op_fail RjInvalid
     | Journal d \<Rightarrow>
         op_seq (op_check RjUnavailable) (
         op_seq (op_check RjInvalid) (
         if valid_document (rj_scope s) (configured s) d then op_return d
         else op_fail RjInvalid))))"

text \<open>
  The exact length of the canonical JSON.  An image with no bytes is a nil
  slice (every image the journal builds is a clone) and is written \<open>null\<close>;
  19, 32 and 75 count the punctuation and field names of an image, a record
  and a document.
\<close>

definition base64_len :: "nat \<Rightarrow> nat" where
  "base64_len n = 4 * ((n + 2) div 3)"

definition image_json_len :: "image \<Rightarrow> nat" where
  "image_json_len i = 19 + (if img_exists i then 4 else 5) +
     (if img_data i = [] then 4 else 2 + base64_len (length (img_data i)))"

definition record_json_len :: "rj_record \<Rightarrow> nat" where
  "record_json_len r = 32 + length (rec_target r) +
     image_json_len (rec_before r) + image_json_len (rec_after r)"

fun state_text :: "doc_state \<Rightarrow> string" where
  "state_text DocIdle = ''idle''"
| "state_text DocPrepared = ''prepared''"
| "state_text DocCommitted = ''committed''"
| "state_text (DocOther v) = v"

definition document_json_len :: "document \<Rightarrow> nat" where
  "document_json_len d =
     75 +
     length (doc_kind d) + length (doc_scope d) + length (doc_id d) +
     length (state_text (doc_st d)) + 64 +
     (if doc_records d = [] then 4
      else 1 + length (doc_records d) + sum_list (map record_json_len (doc_records d)))"

definition rj_save :: "document \<Rightarrow> (journal, rj_error, unit) op" where
  "rj_save d =
     (if document_json_len d > maxJournalBytes then op_fail RjInvalid
      else op_effect RjUnavailable (\<lambda>s. s\<lparr>rj_file := Journal d\<rparr>))"

section \<open>Targets of the journal\<close>

definition on_target :: "string \<Rightarrow> (file_target, rj_error, 'a) op \<Rightarrow> (journal, rj_error, 'a) op" where
  "on_target tid m = (\<lambda>(t, s). case rj_targets s tid of
     None \<Rightarrow> (Inl RjUnavailable, t, s)
   | Some f \<Rightarrow> (case m (t, f) of (r, t', f') \<Rightarrow>
       (r, t', s\<lparr>rj_targets := (rj_targets s)(tid \<mapsto> f')\<rparr>)))"

definition check_record :: "bool \<Rightarrow> rj_record \<Rightarrow> (journal, rj_error, unit) op" where
  "check_record committed r =
     op_seq (op_check RjRecovery) (
     op_bind (op_remap (\<lambda>_. RjRecovery) (on_target (rec_target r) ft_read)) (\<lambda>current.
     if \<not> validImage current then op_fail RjRecovery
     else if equal_image current (rec_after r) \<or> \<not> committed \<and> equal_image current (rec_before r)
     then op_return ()
     else op_fail RjRecovery))"

definition checkTargets :: "document \<Rightarrow> bool \<Rightarrow> (journal, rj_error, unit) op" where
  "checkTargets d committed = op_each (check_record committed) (doc_records d)"

definition undo_record :: "rj_record \<Rightarrow> (journal, rj_error, unit) op" where
  "undo_record r =
     op_seq (op_check RjRecovery) (
     op_bind (op_remap (\<lambda>_. RjRecovery) (on_target (rec_target r) ft_read)) (\<lambda>current.
     if \<not> validImage current then op_fail RjRecovery
     else if equal_image current (rec_before r) then op_return ()
     else if \<not> equal_image current (rec_after r) then op_fail RjRecovery
     else op_remap (\<lambda>_. RjRecovery)
       (on_target (rec_target r) (CompareAndSwap (rec_after r) (rec_before r)))))"

definition confirm_record :: "rj_record \<Rightarrow> (journal, rj_error, unit) op" where
  "confirm_record r =
     op_seq (op_check RjRecovery) (
     op_bind (op_remap (\<lambda>_. RjRecovery) (on_target (rec_target r) ft_read)) (\<lambda>current.
     op_guard (equal_image current (rec_before r)) RjRecovery))"

definition apply_record :: "rj_record \<Rightarrow> (journal, rj_error, unit) op" where
  "apply_record r =
     op_seq (op_check RjAborted)
       (on_target (rec_target r) (CompareAndSwap (rec_before r) (rec_after r)))"

section \<open>Recovery\<close>

type_synonym 'a rj_op = "(journal, outcome \<times> rj_error, 'a) op"

definition must :: "(journal, rj_error, 'a) op \<Rightarrow> 'a rj_op" where
  "must m = op_remap (\<lambda>_. (Blocked, RjRecovery)) m"

definition recoverWithHandover :: "bool \<Rightarrow> outcome rj_op" where
  "recoverWithHandover handover =
     op_bind (op_remap (\<lambda>e. (Blocked, e)) rj_load) (\<lambda>d.
     op_seq (op_check (Blocked, RjRecovery)) (
     if doc_st d = DocIdle then op_return Clean
     else
     op_seq (must (checkTargets d (doc_st d = DocCommitted))) (
     op_seq (if doc_st d = DocPrepared
             then must (op_seq (op_each undo_record (rev (doc_records d)))
                               (op_each confirm_record (doc_records d)))
             else op_return ()) (
     op_seq (op_check (Blocked, RjRecovery)) (
     op_seq (if handover then op_check (Blocked, RjRecovery) else op_return ()) (
     op_bind (op_get rj_scope) (\<lambda>scope.
     op_seq (must (rj_save (idle_doc scope))) (
     op_return (if doc_st d = DocPrepared then RolledBack else Applied)))))))))"

definition Recover :: "outcome rj_op" where
  "Recover =
     op_seq (op_check (Blocked, RjBusy)) (
     op_bind (op_get rj_closed) (\<lambda>c.
     if c then op_fail (Blocked, RjUnavailable) else recoverWithHandover False))"

definition abort_op :: "bool \<Rightarrow> outcome rj_op" where
  "abort_op handover =
     op_bind (op_try (recoverWithHandover handover)) (\<lambda>r. case r of
       Inl _ \<Rightarrow> op_fail (Blocked, RjRecovery)
     | Inr result \<Rightarrow> op_fail (result, RjAborted))"

section \<open>Execution of a plan\<close>

text \<open>The capture loop: the before images in target order, with the size of the whole plan.\<close>

fun capture_plan :: "nat \<Rightarrow> (string \<times> image) list \<Rightarrow> rj_record list rj_op" where
  "capture_plan used [] = op_return []"
| "capture_plan used ((tid, after) # rest) =
     op_seq (op_check (Clean, RjAborted)) (
     op_bind (op_remap (\<lambda>_. (Clean, RjAborted)) (on_target tid ft_read)) (\<lambda>before.
     if \<not> validImage before then op_fail (Clean, RjAborted)
     else
       let used' = used + length (img_data before) + length (img_data after) in
       if used' > MaxPlanBytes then op_fail (Clean, RjInvalid)
       else op_bind (capture_plan used' rest) (\<lambda>records. op_return
         (if equal_image before after then records
          else \<lparr>rec_target = tid, rec_before = before, rec_after = after\<rparr> # records))))"

definition prepared_doc :: "string \<Rightarrow> string \<Rightarrow> rj_record list \<Rightarrow> document" where
  "prepared_doc scope tid records = \<lparr>doc_kind = journalKind, doc_schema = 1, doc_scope = scope,
     doc_id = tid, doc_st = DocPrepared, doc_records = records\<rparr>"

definition commit_plan :: "bool \<Rightarrow> document \<Rightarrow> outcome rj_op" where
  "commit_plan handover d =
     op_seq (must (rj_save d)) (
     op_bind (op_try (op_each apply_record (doc_records d))) (\<lambda>r. case r of
       Inl _ \<Rightarrow> abort_op handover
     | Inr _ \<Rightarrow>
         op_seq (must (checkTargets d True)) (
         op_seq (must (rj_save (d\<lparr>doc_st := DocCommitted\<rparr>))) (
         op_seq (if handover then op_check (Blocked, RjRecovery) else op_return ()) (
         op_seq (must (rj_save (idle_doc (doc_scope d)))) (
         op_return Applied))))))"

text \<open>
  \<open>ExecuteWithHandover\<close>.  The change map is a list of pairs with distinct
  keys; \<open>fresh\<close> is the hexadecimal form of the 16 random bytes of \<open>randomID\<close>.
\<close>

definition ExecuteWithHandover :: "string \<Rightarrow> (string \<times> image) list \<Rightarrow> bool \<Rightarrow> outcome rj_op" where
  "ExecuteWithHandover fresh changes handover =
     op_seq (op_check (Blocked, RjBusy)) (
     op_bind (op_get (\<lambda>s. s)) (\<lambda>s.
     if rj_closed s then op_fail (Blocked, RjUnavailable)
     else op_bind (op_remap (\<lambda>e. (Blocked, e)) rj_load) (\<lambda>current.
     if doc_st current \<noteq> DocIdle then op_fail (Blocked, RjPending)
     else op_seq (op_check (Clean, RjAborted)) (
     if changes = [] \<or> length changes > MaxTargets then op_fail (Clean, RjInvalid)
     else if \<not> list_all (\<lambda>(tid, after). configured s tid \<and> validImage after) changes
     then op_fail (Clean, RjInvalid)
     else op_bind (capture_plan 0 (sort_key fst changes)) (\<lambda>records.
     if records = [] then
       op_seq (if handover then op_check (Blocked, RjRecovery) else op_return ()) (op_return Clean)
     else op_seq (op_check (Clean, RjAborted))
       (commit_plan handover (prepared_doc (rj_scope s) fresh records)))))))"

definition Execute :: "string \<Rightarrow> (string \<times> image) list \<Rightarrow> outcome rj_op" where
  "Execute fresh changes = ExecuteWithHandover fresh changes False"

text \<open>\<open>Open\<close> binds the scope and the targets of trusted startup code and loads once; \<open>Close\<close>.\<close>

definition rj_open :: "string \<Rightarrow> (string \<times> file_target) list \<Rightarrow> (journal, rj_error, unit) op" where
  "rj_open scope targets =
     (if \<not> validHash scope \<or> targets = [] \<or> length targets > MaxTargets then op_fail RjInvalid
      else if \<not> list_all (\<lambda>(tid, _). target_id_ok tid) targets then op_fail RjInvalid
      else op_seq (op_check RjUnavailable) (
           op_seq (op_check RjUnavailable) (
           op_seq (op_check RjBusy) (
           op_seq (op_modify (\<lambda>s. s\<lparr>rj_scope := scope, rj_targets := map_of targets, rj_closed := False\<rparr>)) (
           op_bind (op_try rj_load) (\<lambda>r. case r of
             Inl e \<Rightarrow> op_seq (op_modify (\<lambda>s. s\<lparr>rj_closed := True\<rparr>)) (op_fail e)
           | Inr _ \<Rightarrow> op_return ()))))))"

definition rj_close :: "(journal, rj_error, unit) op" where
  "rj_close = op_bind (op_get rj_closed) (\<lambda>c.
     if c then op_return ()
     else op_seq (op_modify (\<lambda>s. s\<lparr>rj_closed := True\<rparr>)) (op_check RjUnavailable))"

end
