(* ===== verification/Restore_Atomic.thy ===== *)
theory Restore_Atomic
  imports Restore_Journal
begin

text \<open>
  Correctness of the restore journal: whatever the world refuses, and however
  often recovery itself is interrupted, a recovery that completes leaves either
  every target as it was before the plan or every target as the plan wants it.
  The contract of the targets is used through the facts \<open>ft.\<dots>\<close> of the
  interpretation in \<open>File_Target\<close>.
\<close>

section \<open>Views and frames\<close>

definition view :: "journal \<Rightarrow> string \<Rightarrow> image option" where
  "view s tid = (case rj_targets s tid of None \<Rightarrow> None | Some f \<Rightarrow> ft_holds f)"

definition frame :: "journal \<Rightarrow> journal \<Rightarrow> bool" where
  "frame s s' \<longleftrightarrow> rj_scope s' = rj_scope s \<and> rj_closed s' = rj_closed s \<and> configured s' = configured s"

definition moved :: "journal \<Rightarrow> string \<Rightarrow> image \<Rightarrow> journal \<Rightarrow> bool" where
  "moved s tid i s' \<longleftrightarrow> frame s s' \<and> rj_file s' = rj_file s \<and> view s' = (view s)(tid \<mapsto> i)"

lemma frame_refl [simp]: "frame s s"
  by (simp add: frame_def)

lemma frame_trans: "frame s s' \<Longrightarrow> frame s' s'' \<Longrightarrow> frame s s''"
  by (simp add: frame_def)

lemma frame_file [simp]:
  "frame s (s'\<lparr>rj_file := j\<rparr>) = frame s s'" "view (s\<lparr>rj_file := j\<rparr>) = view s"
  "configured (s\<lparr>rj_file := j\<rparr>) = configured s"
  by (auto simp: frame_def view_def configured_def fun_eq_iff)

lemma moved_update:
  assumes "rj_targets s tid = Some f" "ft_holds f' = Some i"
  shows "moved s tid i (s\<lparr>rj_targets := (rj_targets s)(tid \<mapsto> f')\<rparr>)"
  using assms by (auto simp: moved_def frame_def view_def configured_def fun_eq_iff)

lemma wp_on_target:
  assumes "\<And>f. rj_targets s tid = Some f \<Longrightarrow>
      wp m (\<lambda>x f'. Q x (s\<lparr>rj_targets := (rj_targets s)(tid \<mapsto> f')\<rparr>))
           (\<lambda>e f'. E e (s\<lparr>rj_targets := (rj_targets s)(tid \<mapsto> f')\<rparr>)) f"
    and "rj_targets s tid = None \<Longrightarrow> E RjUnavailable s"
  shows "wp (on_target tid m) Q E s"
proof (cases "rj_targets s tid")
  case None
  then show ?thesis using assms(2) by (simp add: wp_def on_target_def)
next
  case (Some f)
  show ?thesis unfolding wp_def
  proof
    fix t
    obtain r t' f' where m: "m (t, f) = (r, t', f')" by (cases "m (t, f)") auto
    show "case on_target tid m (t, s) of (Inl e, t', s') \<Rightarrow> E e s' | (Inr x, t', s') \<Rightarrow> Q x s'"
      using wpD [OF assms(1) [OF Some] m] by (simp add: on_target_def Some m split: sum.splits)
  qed
qed

lemma target_same [simp]:
  "rj_targets s tid = Some f \<Longrightarrow> s\<lparr>rj_targets := (rj_targets s)(tid \<mapsto> f)\<rparr> = s"
  by (simp add: map_upd_triv)

lemma read_wp:
  "wp (on_target tid ft_read) (\<lambda>i s'. s' = s \<and> view s tid = Some i) (\<lambda>_ s'. s' = s) s"
  by (rule wp_on_target, rule wp_mono [OF ft.rd_wp]) (auto simp: view_def)

lemma cas_wp:
  "wp (on_target tid (CompareAndSwap b a))
     (\<lambda>_ s'. view s tid = Some b \<and> moved s tid a s')
     (\<lambda>_ s'. s' = s \<or> view s tid = Some b \<and> moved s tid a s') s"
  by (rule wp_on_target, rule wp_mono [OF ft.cas_wp]) (auto simp: view_def moved_update)

lemma read_run:
  "view s tid = Some i \<Longrightarrow> on_target tid ft_read ([], s) = (Inr i, [], s)"
  by (auto simp: on_target_def view_def ft.rd_run split: option.splits)

lemma cas_run:
  assumes "view s tid = Some b" "validImage b" "validImage a"
  shows "\<exists>s'. on_target tid (CompareAndSwap b a) ([], s) = (Inr (), [], s') \<and> moved s tid a s'"
proof -
  from assms(1) obtain f where f: "rj_targets s tid = Some f" "ft_holds f = Some b"
    by (auto simp: view_def split: option.splits)
  from ft.cas_run [OF f(2) assms(2,3)] obtain f' where
    "CompareAndSwap b a ([], f) = (Inr (), [], f')" "ft_holds f' = Some a" by blast
  with f show ?thesis by (auto simp: on_target_def intro: moved_update)
qed

section \<open>Plans\<close>

definition after_view :: "(string \<Rightarrow> image option) \<Rightarrow> rj_record list \<Rightarrow> string \<Rightarrow> image option" where
  "after_view v0 rs = v0 ++ map_of (map (\<lambda>r. (rec_target r, rec_after r)) rs)"

definition in_plan :: "(string \<Rightarrow> image option) \<Rightarrow> rj_record list \<Rightarrow> journal \<Rightarrow> bool" where
  "in_plan v0 rs s \<longleftrightarrow> distinct (map rec_target rs) \<and>
     (\<forall>tid. tid \<notin> rec_target ` set rs \<longrightarrow> view s tid = v0 tid) \<and>
     (\<forall>r \<in> set rs. v0 (rec_target r) = Some (rec_before r) \<and>
        view s (rec_target r) \<in> {Some (rec_before r), Some (rec_after r)})"

lemma in_plan_moved:
  assumes "in_plan v0 rs s" "r \<in> set rs" "moved s (rec_target r) i s'"
    "i = rec_before r \<or> i = rec_after r"
  shows "in_plan v0 rs s'"
proof -
  have "r' = r" if "r' \<in> set rs" "rec_target r' = rec_target r" for r'
    using assms(1,2) that by (auto simp: in_plan_def distinct_map dest: inj_onD)
  then show ?thesis
    using assms unfolding in_plan_def moved_def by auto
qed

lemma moved_other:
  assumes "in_plan v0 rs s" "r \<in> set rs" "r' \<in> set rs" "r' \<noteq> r" "moved s (rec_target r) i s'"
  shows "view s' (rec_target r') = view s (rec_target r')"
  using assms by (auto simp: in_plan_def moved_def distinct_map dest: inj_onD)

lemma in_plan_before:
  assumes "in_plan v0 rs s" "\<forall>r \<in> set rs. view s (rec_target r) = Some (rec_before r)"
  shows "view s = v0"
proof
  fix tid
  show "view s tid = v0 tid"
    using assms by (cases "tid \<in> rec_target ` set rs") (auto simp: in_plan_def)
qed

lemma in_plan_after:
  assumes "in_plan v0 rs s" "\<forall>r \<in> set rs. view s (rec_target r) = Some (rec_after r)"
  shows "view s = after_view v0 rs"
proof
  fix tid
  let ?m = "map (\<lambda>r. (rec_target r, rec_after r)) rs"
  have d: "distinct (map fst ?m)" using assms(1) by (simp add: in_plan_def comp_def)
  show "view s tid = after_view v0 rs tid"
  proof (cases "tid \<in> rec_target ` set rs")
    case True
    then obtain r where r: "r \<in> set rs" "tid = rec_target r" by blast
    then have "map_of ?m tid = Some (rec_after r)"
      using d by (intro map_of_is_SomeI) auto
    with r assms(2) show ?thesis by (simp add: after_view_def)
  next
    case False
    then have "map_of ?m tid = None" by (auto simp: map_of_eq_None_iff)
    with False assms(1) show ?thesis
      by (auto simp: after_view_def in_plan_def map_add_def)
  qed
qed

lemma after_view_mem:
  assumes "distinct (map rec_target rs)" "r \<in> set rs"
  shows "after_view v0 rs (rec_target r) = Some (rec_after r)"
proof -
  have "map_of (map (\<lambda>r. (rec_target r, rec_after r)) rs) (rec_target r) = Some (rec_after r)"
    using assms by (intro map_of_is_SomeI) (auto simp: comp_def)
  then show ?thesis by (simp add: after_view_def)
qed

lemma in_plan_start:
  assumes "distinct (map rec_target rs)" "\<forall>r \<in> set rs. view s (rec_target r) = Some (rec_before r)"
  shows "in_plan (view s) rs s"
  using assms by (simp add: in_plan_def)

lemma valid_records_distinct:
  "valid_records p prev n rs \<Longrightarrow> distinct (map rec_target rs) \<and> (\<forall>r \<in> set rs. prev < rec_target r)"
proof (induction p prev n rs rule: valid_records.induct)
  case (2 p prev n r rs)
  then show ?case by (auto simp: Let_def dest: order.strict_trans)
qed simp

lemma valid_records_images:
  "valid_records p prev n rs \<Longrightarrow> \<forall>r \<in> set rs. validImage (rec_before r) \<and> validImage (rec_after r)"
  by (induction p prev n rs rule: valid_records.induct) (auto simp: Let_def)

section \<open>The steps of execution and recovery\<close>

lemma check_record_wp:
  "wp (check_record committed r)
     (\<lambda>_ s'. s' = s \<and> (view s (rec_target r) = Some (rec_after r) \<or>
                     \<not> committed \<and> view s (rec_target r) = Some (rec_before r)))
     (\<lambda>e s'. s' = s \<and> e = RjRecovery) s"
  unfolding check_record_def
  by (intro wp_intros wp_mono [OF read_wp] wp_call [OF wp_remap]) (auto intro!: wp_intros wp_if)

lemma checkTargets_wp:
  "wp (checkTargets d committed)
     (\<lambda>_ s'. s' = s \<and> (\<forall>r \<in> set (doc_records d). view s (rec_target r) = Some (rec_after r) \<or>
                     \<not> committed \<and> view s (rec_target r) = Some (rec_before r)))
     (\<lambda>e s'. s' = s \<and> e = RjRecovery) s"
  unfolding checkTargets_def
  by (rule wp_each [where I = "\<lambda>pre s'. s' = s \<and> (\<forall>r \<in> set pre. view s (rec_target r) = Some (rec_after r) \<or>
                     \<not> committed \<and> view s (rec_target r) = Some (rec_before r))"])
    (auto intro!: wp_mono [OF check_record_wp])

lemma apply_record_wp:
  "wp (apply_record r)
     (\<lambda>_ s'. moved s (rec_target r) (rec_after r) s')
     (\<lambda>_ s'. s' = s \<or> moved s (rec_target r) (rec_after r) s') s"
  unfolding apply_record_def by (intro wp_intros wp_mono [OF cas_wp]) auto

lemma undo_record_wp:
  "wp (undo_record r)
     (\<lambda>_ s'. s' = s \<and> view s (rec_target r) = Some (rec_before r) \<or>
             moved s (rec_target r) (rec_before r) s')
     (\<lambda>_ s'. s' = s \<or> moved s (rec_target r) (rec_before r) s') s"
  unfolding undo_record_def
  by (intro wp_intros wp_mono [OF read_wp] wp_call [OF wp_remap])
    (auto intro!: wp_intros wp_if wp_mono [OF cas_wp])

lemma confirm_record_wp:
  "wp (confirm_record r)
     (\<lambda>_ s'. s' = s \<and> view s (rec_target r) = Some (rec_before r)) (\<lambda>_ s'. s' = s) s"
  unfolding confirm_record_def
  by (intro wp_intros wp_mono [OF read_wp] wp_call [OF wp_remap]) (auto intro!: wp_intros)

definition in_run :: "(string \<Rightarrow> image option) \<Rightarrow> rj_record list \<Rightarrow> journal \<Rightarrow> journal \<Rightarrow> bool" where
  "in_run v0 rs s s' \<longleftrightarrow> in_plan v0 rs s' \<and> frame s s' \<and> rj_file s' = rj_file s"

lemma in_run_moved:
  assumes "in_run v0 rs s s1" "r \<in> set rs" "moved s1 (rec_target r) i s2"
    "i = rec_before r \<or> i = rec_after r"
  shows "in_run v0 rs s s2"
  using assms in_plan_moved [OF _ assms(2,3,4)]
  by (auto simp: in_run_def moved_def intro: frame_trans)

lemma moved_view: "moved s tid i s' \<Longrightarrow> view s' tid = Some i"
  by (simp add: moved_def)

lemma apply_all_wp:
  assumes "in_plan v0 rs s"
  shows "wp (op_each apply_record rs)
     (\<lambda>_ s'. in_run v0 rs s s' \<and> view s' = after_view v0 rs) (\<lambda>_. in_run v0 rs s) s"
proof (rule wp_each [where I = "\<lambda>pre s'. in_run v0 rs s s' \<and>
      (\<forall>r \<in> set pre. view s' (rec_target r) = Some (rec_after r))"])
  fix pre r rest s1
  assume rs: "rs = pre @ r # rest" and
    I: "in_run v0 rs s s1 \<and> (\<forall>r \<in> set pre. view s1 (rec_target r) = Some (rec_after r))"
  have mv: "in_run v0 rs s s2 \<and> (\<forall>r' \<in> set (pre @ [r]). view s2 (rec_target r') = Some (rec_after r'))"
    if "moved s1 (rec_target r) (rec_after r) s2" for s2
  proof -
    have "view s2 (rec_target r') = Some (rec_after r')" if "r' \<in> set pre" for r'
    proof (cases "r' = r")
      case True
      with \<open>moved s1 _ _ s2\<close> show ?thesis by (simp add: moved_view)
    next
      case False
      with that I rs \<open>moved s1 _ _ s2\<close> show ?thesis
        using moved_other [of v0 rs s1 r r' "rec_after r" s2] by (auto simp: in_run_def)
    qed
    with that I rs show ?thesis by (auto intro: in_run_moved simp: moved_view)
  qed
  show "wp (apply_record r) (\<lambda>_ s'. in_run v0 rs s s' \<and>
      (\<forall>r' \<in> set (pre @ [r]). view s' (rec_target r') = Some (rec_after r'))) (\<lambda>_. in_run v0 rs s) s1"
    by (rule wp_mono [OF apply_record_wp]) (use I mv in auto)
qed (use assms in \<open>auto simp: in_run_def intro: in_plan_after\<close>)

lemma undo_all_wp:
  assumes "in_plan v0 rs s"
  shows "wp (op_each undo_record (rev rs))
     (\<lambda>_ s'. in_run v0 rs s s' \<and> view s' = v0) (\<lambda>_. in_run v0 rs s) s"
proof (rule wp_each [where I = "\<lambda>pre s'. in_run v0 rs s s' \<and>
      (\<forall>r \<in> set pre. view s' (rec_target r) = Some (rec_before r))"])
  fix pre r rest s1
  assume "rev rs = pre @ r # rest" and
    I: "in_run v0 rs s s1 \<and> (\<forall>r \<in> set pre. view s1 (rec_target r) = Some (rec_before r))"
  then have rs: "r \<in> set rs" "set pre \<subseteq> set rs"
    by (metis in_set_conv_decomp set_rev, metis Un_iff set_append set_rev subsetI)
  have mv: "in_run v0 rs s s2 \<and> (\<forall>r' \<in> set (pre @ [r]). view s2 (rec_target r') = Some (rec_before r'))"
    if "moved s1 (rec_target r) (rec_before r) s2" for s2
  proof -
    have "view s2 (rec_target r') = Some (rec_before r')" if "r' \<in> set pre" for r'
    proof (cases "r' = r")
      case True
      with \<open>moved s1 _ _ s2\<close> show ?thesis by (simp add: moved_view)
    next
      case False
      with that I rs \<open>moved s1 _ _ s2\<close> show ?thesis
        using moved_other [of v0 rs s1 r r' "rec_before r" s2] by (auto simp: in_run_def)
    qed
    with that I rs show ?thesis by (auto intro: in_run_moved simp: moved_view)
  qed
  show "wp (undo_record r) (\<lambda>_ s'. in_run v0 rs s s' \<and>
      (\<forall>r' \<in> set (pre @ [r]). view s' (rec_target r') = Some (rec_before r'))) (\<lambda>_. in_run v0 rs s) s1"
    by (rule wp_mono [OF undo_record_wp]) (use I mv in auto)
qed (use assms in \<open>auto simp: in_run_def intro: in_plan_before\<close>)

lemma confirm_all_wp:
  "wp (op_each confirm_record rs) (\<lambda>_ s'. s' = s) (\<lambda>_ s'. s' = s) s"
  by (rule wp_each_inv [where I = "\<lambda>s'. s' = s"]) (auto intro: wp_mono [OF confirm_record_wp])

lemma rj_load_wp:
  "wp rj_load
     (\<lambda>d s'. s' = s \<and> (rj_file s = NoJournal \<and> d = idle_doc (rj_scope s) \<or>
                     rj_file s = Journal d \<and> valid_document (rj_scope s) (configured s) d))
     (\<lambda>_ s'. s' = s) s"
  unfolding rj_load_def
  by (intro wp_intros) (auto split: journal_file.splits intro!: wp_intros wp_if)

lemma rj_save_wp:
  "wp (rj_save d) (\<lambda>_ s'. s' = s\<lparr>rj_file := Journal d\<rparr>)
     (\<lambda>_ s'. s' = s \<or> s' = s\<lparr>rj_file := Journal d\<rparr>) s"
  unfolding rj_save_def by (auto intro!: wp_intros wp_if)

section \<open>Recoverable states\<close>

text \<open>
  \<open>recoverable v0 rs s\<close>: the journal and the targets agree on a plan that
  starts from the view \<open>v0\<close>; the targets lie between the two sides of the plan.
\<close>

definition recoverable :: "(string \<Rightarrow> image option) \<Rightarrow> rj_record list \<Rightarrow> journal \<Rightarrow> bool" where
  "recoverable v0 rs s \<longleftrightarrow> \<not> rj_closed s \<and> (case rj_file s of
     NoJournal \<Rightarrow> view s = v0 \<or> view s = after_view v0 rs
   | BadJournal \<Rightarrow> False
   | Journal d \<Rightarrow> valid_document (rj_scope s) (configured s) d \<and>
      (case doc_st d of
         DocIdle \<Rightarrow> view s = v0 \<or> view s = after_view v0 rs
       | DocPrepared \<Rightarrow> doc_records d = rs \<and> in_plan v0 rs s
       | DocCommitted \<Rightarrow> doc_records d = rs \<and> in_plan v0 rs s \<and> view s = after_view v0 rs
       | DocOther _ \<Rightarrow> False))"

definition settled :: "journal \<Rightarrow> bool" where
  "settled s \<longleftrightarrow> (case rj_file s of NoJournal \<Rightarrow> True | BadJournal \<Rightarrow> False
     | Journal d \<Rightarrow> valid_document (rj_scope s) (configured s) d \<and> doc_st d = DocIdle)"

lemma valid_idle [simp]: "valid_document scope p (idle_doc scope)"
  by (simp add: valid_document_def idle_doc_def)

lemma idle_st [simp]: "doc_st (idle_doc scope) = DocIdle"
  by (simp add: idle_doc_def)

lemma recoverable_settled:
  "settled s \<Longrightarrow> \<not> rj_closed s \<Longrightarrow> view s = v0 \<or> view s = after_view v0 rs \<Longrightarrow> recoverable v0 rs s"
  by (auto simp: settled_def recoverable_def split: journal_file.splits)

lemma settled_idle: "settled (s\<lparr>rj_file := Journal (idle_doc (rj_scope s))\<rparr>)"
  by (simp add: settled_def)

lemma recoverable_open: "recoverable v0 rs s \<Longrightarrow> \<not> rj_closed s"
  by (simp add: recoverable_def)

lemma in_run_recoverable:
  assumes "in_run v0 rs s s'" "rj_file s = Journal d" "doc_st d = DocPrepared" "doc_records d = rs"
    "valid_document (rj_scope s) (configured s) d" "\<not> rj_closed s"
  shows "recoverable v0 rs s'"
  using assms by (auto simp: recoverable_def in_run_def frame_def)

text \<open>The postcondition of a completed recovery, one equation per outcome.\<close>

fun recovered :: "(string \<Rightarrow> image option) \<Rightarrow> rj_record list \<Rightarrow> outcome \<Rightarrow> journal \<Rightarrow> bool" where
  "recovered v0 rs Clean s = (settled s \<and> (view s = v0 \<or> view s = after_view v0 rs))"
| "recovered v0 rs Applied s = (settled s \<and> view s = after_view v0 rs)"
| "recovered v0 rs RolledBack s = (settled s \<and> view s = v0)"
| "recovered v0 rs Blocked s = False"

lemma save_idle_wp:
  assumes "recoverable v0 rs s" "view s = v0 \<or> view s = after_view v0 rs"
    "recovered v0 rs out (s\<lparr>rj_file := Journal (idle_doc (rj_scope s))\<rparr>)"
    "\<And>s'. recoverable v0 rs s' \<Longrightarrow> E (Blocked, RjRecovery) s'"
    "\<And>s'. recovered v0 rs out s' \<Longrightarrow> recoverable v0 rs s' \<Longrightarrow> Q out s'"
  shows "wp (op_bind (op_get rj_scope) (\<lambda>scope.
     op_seq (must (rj_save (idle_doc scope))) (op_return out))) Q E s"
proof -
  let ?s' = "s\<lparr>rj_file := Journal (idle_doc (rj_scope s))\<rparr>"
  have r: "recoverable v0 rs ?s'"
    using assms(1,2) by (auto simp: recoverable_def)
  show ?thesis
    unfolding must_def
    by (intro wp_intros wp_mono [OF rj_save_wp])
      (use assms r in \<open>auto intro!: wp_intros assms(4,5)\<close>)
qed

definition finish_recovery :: "bool \<Rightarrow> outcome \<Rightarrow> outcome rj_op" where
  "finish_recovery handover out =
     op_seq (op_check (Blocked, RjRecovery)) (
     op_seq (if handover then op_check (Blocked, RjRecovery) else op_return ()) (
     op_bind (op_get rj_scope) (\<lambda>scope.
     op_seq (must (rj_save (idle_doc scope))) (op_return out))))"

lemma finish_recovery_wp:
  assumes "recoverable v0 rs s" "view s = v0 \<or> view s = after_view v0 rs"
    "recovered v0 rs out (s\<lparr>rj_file := Journal (idle_doc (rj_scope s))\<rparr>)"
  shows "wp (finish_recovery h out) (\<lambda>out' s'. out' = out \<and> recovered v0 rs out' s' \<and> recoverable v0 rs s')
     (\<lambda>(out, e) s'. out = Blocked \<and> recoverable v0 rs s') s"
  unfolding finish_recovery_def
  by (intro wp_intros save_idle_wp [OF assms]) (use assms in \<open>auto intro!: wp_intros save_idle_wp [OF assms]\<close>)

definition roll_back :: "bool \<Rightarrow> document \<Rightarrow> outcome rj_op" where
  "roll_back handover d =
     op_seq (must (op_seq (op_each undo_record (rev (doc_records d)))
                          (op_each confirm_record (doc_records d))))
       (finish_recovery handover RolledBack)"

lemma roll_back_wp:
  assumes "recoverable v0 rs s" "rj_file s = Journal d" "doc_st d = DocPrepared"
  shows "wp (roll_back h d) (\<lambda>out s'. out = RolledBack \<and> recovered v0 rs out s' \<and> recoverable v0 rs s')
     (\<lambda>(out, e) s'. out = Blocked \<and> recoverable v0 rs s') s"
proof -
  from assms have d: "doc_records d = rs" "in_plan v0 rs s"
      "valid_document (rj_scope s) (configured s) d" "\<not> rj_closed s"
    by (auto simp: recoverable_def)
  have run: "recoverable v0 rs s'" if "in_run v0 rs s s'" for s'
    by (rule in_run_recoverable [OF that assms(2,3) d(1,3,4)])
  have "wp (op_seq (op_each undo_record (rev rs)) (op_each confirm_record rs))
     (\<lambda>_ s'. in_run v0 rs s s' \<and> view s' = v0) (\<lambda>_. in_run v0 rs s) s"
    by (rule wp_then [OF undo_all_wp [OF d(2)]]) (auto intro!: wp_mono [OF confirm_all_wp])
  then have "wp (must (op_seq (op_each undo_record (rev rs)) (op_each confirm_record rs)))
     (\<lambda>_ s'. in_run v0 rs s s' \<and> view s' = v0) (\<lambda>(out, _) s'. out = Blocked \<and> in_run v0 rs s s') s"
    unfolding must_def by (intro wp_remap) (auto elim: wp_mono)
  then show ?thesis
    unfolding roll_back_def d(1)
  proof (rule wp_then)
    fix x s' assume "in_run v0 rs s s' \<and> view s' = v0"
    then show "wp (finish_recovery h RolledBack) (\<lambda>out s'. out = RolledBack \<and> recovered v0 rs out s' \<and> recoverable v0 rs s')
        (\<lambda>(out, e) s'. out = Blocked \<and> recoverable v0 rs s') s'"
      using run by (intro finish_recovery_wp) (simp_all add: settled_idle)
  qed (use run in auto)
qed

lemma recoverWithHandover_eq:
  "recoverWithHandover h =
     op_bind (op_remap (\<lambda>e. (Blocked, e)) rj_load) (\<lambda>d.
     op_seq (op_check (Blocked, RjRecovery)) (
     if doc_st d = DocIdle then op_return Clean
     else op_seq (must (checkTargets d (doc_st d = DocCommitted)))
       (if doc_st d = DocPrepared then roll_back h d else finish_recovery h Applied)))"
  unfolding recoverWithHandover_def roll_back_def finish_recovery_def
  by (intro arg_cong [where f = "op_bind _"] ext)
    (auto simp: op_seq_def op_bind_def op_return_def fun_eq_iff split: sum.splits prod.splits)

definition outcome_of :: "journal \<Rightarrow> outcome" where
  "outcome_of s = (case rj_file s of Journal d \<Rightarrow>
     (case doc_st d of DocIdle \<Rightarrow> Clean | DocPrepared \<Rightarrow> RolledBack | _ \<Rightarrow> Applied) | _ \<Rightarrow> Clean)"

lemma recover_wp:
  assumes "recoverable v0 rs s"
  shows "wp (recoverWithHandover h) (\<lambda>out s'. out = outcome_of s \<and> recovered v0 rs out s' \<and> recoverable v0 rs s')
     (\<lambda>(out, e) s'. out = Blocked \<and> recoverable v0 rs s') s"
proof -
  let ?Q = "\<lambda>out s'. out = outcome_of s \<and> recovered v0 rs out s' \<and> recoverable v0 rs s'"
  let ?E = "\<lambda>(out, e) s'. out = Blocked \<and> recoverable v0 rs s'"
  have rest: "wp (op_seq (op_check (Blocked, RjRecovery)) (
     if doc_st d = DocIdle then op_return Clean
     else op_seq (must (checkTargets d (doc_st d = DocCommitted)))
       (if doc_st d = DocPrepared then roll_back h d else finish_recovery h Applied))) ?Q ?E s"
    if d: "rj_file s = NoJournal \<and> d = idle_doc (rj_scope s) \<or>
       rj_file s = Journal d \<and> valid_document (rj_scope s) (configured s) d" for d
  proof (cases "doc_st d = DocIdle")
    case True
    with d assms have "recovered v0 rs Clean s"
      by (auto simp: recoverable_def settled_def)
    moreover have "outcome_of s = Clean" using True d by (auto simp: outcome_of_def)
    ultimately show ?thesis using True assms by (auto intro!: wp_intros)
  next
    case False
    with d have journal: "rj_file s = Journal d" by auto
    have st: "doc_st d = DocPrepared \<or>
        doc_st d = DocCommitted \<and> view s = after_view v0 rs"
      using assms False journal by (auto simp: recoverable_def split: doc_state.splits)
    then have "outcome_of s = (if doc_st d = DocPrepared then RolledBack else Applied)"
      using journal by (auto simp: outcome_of_def)
    then have "wp (if doc_st d = DocPrepared then roll_back h d else finish_recovery h Applied) ?Q ?E s"
      using st assms journal
      by (auto intro!: roll_back_wp finish_recovery_wp simp: settled_idle split: if_splits)
    with False assms show ?thesis
      unfolding must_def
      by (auto intro!: wp_intros wp_mono [OF checkTargets_wp])
  qed
  show ?thesis
    unfolding recoverWithHandover_eq
    by (rule wp_call [OF wp_remap [OF wp_mono [OF rj_load_wp]]]) (use rest assms in auto)
qed

lemma Recover_wp:
  assumes "recoverable v0 rs s"
  shows "wp Recover (\<lambda>out s'. out = outcome_of s \<and> recovered v0 rs out s' \<and> recoverable v0 rs s')
     (\<lambda>(out, e) s'. out = Blocked \<and> recoverable v0 rs s') s"
  unfolding Recover_def
  by (intro wp_intros) (use assms recoverable_open [OF assms] in \<open>auto intro!: wp_intros recover_wp\<close>)

end
