(* ===== verification/Restore_Execute.thy ===== *)
theory Restore_Execute
  imports Restore_Atomic
begin

text \<open>
  Execution of a restore plan from a settled journal, and the properties of
  the restore journal as a whole: atomicity under interruption, honest
  outcomes, foreign edits, pending journals and the size of the journal file.
\<close>

section \<open>What a recovery does when the world does not refuse\<close>

lemma check_record_run:
  assumes "view s (rec_target r) = Some i" "validImage i"
    "i = rec_after r \<or> \<not> committed \<and> i = rec_before r"
  shows "check_record committed r ([], s) = (Inr (), [], s)"
  using assms by (auto simp: check_record_def run_simps read_run)

lemma confirm_record_run:
  "view s (rec_target r) = Some (rec_before r) \<Longrightarrow> confirm_record r ([], s) = (Inr (), [], s)"
  by (simp add: confirm_record_def run_simps read_run)

lemma undo_record_run:
  assumes "in_run v0 rs s0 s" "r \<in> set rs" "validImage (rec_before r)" "validImage (rec_after r)"
  shows "\<exists>s'. undo_record r ([], s) = (Inr (), [], s') \<and> in_run v0 rs s0 s'"
proof (cases "view s (rec_target r) = Some (rec_before r)")
  case True
  with assms show ?thesis by (auto simp: undo_record_def run_simps read_run)
next
  case False
  with assms(1,2) have a: "view s (rec_target r) = Some (rec_after r)"
    by (auto simp: in_run_def in_plan_def)
  with False have "rec_after r \<noteq> rec_before r" by auto
  moreover from cas_run [OF a assms(4,3)] obtain s' where
    "on_target (rec_target r) (CompareAndSwap (rec_after r) (rec_before r)) ([], s) = (Inr (), [], s')"
    "moved s (rec_target r) (rec_before r) s'" by blast
  ultimately show ?thesis
    using a assms by (auto simp: undo_record_def run_simps read_run intro: in_run_moved)
qed

lemma idle_doc_len: "length scope = 64 \<Longrightarrow> document_json_len (idle_doc scope) \<le> maxJournalBytes"
  by (simp add: document_json_len_def idle_doc_def journalKind_def maxJournalBytes_def)

lemma rj_save_run:
  "document_json_len d \<le> maxJournalBytes \<Longrightarrow>
   rj_save d ([], s) = (Inr (), [], s\<lparr>rj_file := Journal d\<rparr>)"
  by (simp add: rj_save_def run_simps)

lemma finish_recovery_run:
  "length (rj_scope s) = 64 \<Longrightarrow>
   finish_recovery h out ([], s) = (Inr out, [], s\<lparr>rj_file := Journal (idle_doc (rj_scope s))\<rparr>)"
  by (simp add: finish_recovery_def must_def run_simps rj_save_run idle_doc_len)

lemma rj_load_run:
  "recoverable v0 rs s \<Longrightarrow> rj_load ([], s) = (Inr (case rj_file s of
     Journal d \<Rightarrow> d | _ \<Rightarrow> idle_doc (rj_scope s)), [], s)"
  by (auto simp: rj_load_def recoverable_def run_simps split: journal_file.splits)

lemma recover_run:
  assumes rec: "recoverable v0 rs s" and len: "length (rj_scope s) = 64"
  shows "\<exists>out s'. recoverWithHandover h ([], s) = (Inr out, [], s')"
proof (cases "\<exists>d. rj_file s = Journal d \<and> doc_st d \<noteq> DocIdle")
  case False
  with rec have "rj_load ([], s) = (Inr d, [], s) \<Longrightarrow> doc_st d = DocIdle" for d
    by (auto simp: rj_load_run [OF rec] split: journal_file.splits)
  with False show ?thesis
    by (auto simp: recoverWithHandover_eq run_simps rj_load_run [OF rec] split: journal_file.splits)
next
  case True
  then obtain d where d: "rj_file s = Journal d" "doc_st d \<noteq> DocIdle" by blast
  with rec have rs: "doc_records d = rs" and pl: "in_plan v0 rs s" and
      val: "valid_document (rj_scope s) (configured s) d"
    by (auto simp: recoverable_def split: doc_state.splits)
  from val d(2) rs have img: "\<forall>r \<in> set rs. validImage (rec_before r) \<and> validImage (rec_after r)"
    by (auto simp: valid_document_def dest: valid_records_images)
  have committed: "doc_st d = DocCommitted \<Longrightarrow>
      \<forall>r \<in> set rs. view s (rec_target r) = Some (rec_after r)"
    using rec d pl by (auto simp: recoverable_def in_plan_def after_view_mem)
  have chk: "checkTargets d (doc_st d = DocCommitted) ([], s) = (Inr (), [], s)"
    unfolding checkTargets_def rs
  proof (rule run_each_same)
    fix r assume r: "r \<in> set rs"
    have "\<exists>i. view s (rec_target r) = Some i \<and> validImage i \<and>
        (i = rec_after r \<or> doc_st d \<noteq> DocCommitted \<and> i = rec_before r)"
      by (cases "doc_st d = DocCommitted") (use r pl committed img in \<open>auto simp: in_plan_def\<close>)
    then show "check_record (doc_st d = DocCommitted) r ([], s) = (Inr (), [], s)"
      by (auto intro: check_record_run)
  qed
  show ?thesis
  proof (cases "doc_st d = DocPrepared")
    case False
    with d chk rec len show ?thesis
      by (simp add: recoverWithHandover_eq run_simps rj_load_run [OF rec] must_def finish_recovery_run)
  next
    case True
    have "in_run v0 rs s s" using pl by (simp add: in_run_def)
    then have "\<exists>s'. op_each undo_record (rev rs) ([], s) = (Inr (), [], s') \<and> in_run v0 rs s s'"
      by (intro run_each_inv) (use img in \<open>auto intro!: undo_record_run\<close>)
    then obtain s1 where s1: "op_each undo_record (rev rs) ([], s) = (Inr (), [], s1)"
      "in_run v0 rs s s1" by blast
    from wp_Inr [OF undo_all_wp [OF pl] s1(1)] have v: "view s1 = v0" by simp
    have "op_each confirm_record rs ([], s1) = (Inr (), [], s1)"
      by (rule run_each_same)
        (use s1(2) v in \<open>auto simp: in_run_def in_plan_def intro!: confirm_record_run\<close>)
    moreover have "length (rj_scope s1) = 64" using s1(2) len by (simp add: in_run_def frame_def)
    ultimately show ?thesis
      using d True chk rec s1(1)
      by (simp add: recoverWithHandover_eq run_simps rj_load_run [OF rec] must_def roll_back_def
          rs finish_recovery_run)
  qed
qed

lemma Recover_run:
  assumes "recoverable v0 rs s" "length (rj_scope s) = 64"
  shows "\<exists>out s'. Recover ([], s) = (Inr out, [], s')"
  using recover_run [OF assms, of False] recoverable_open [OF assms(1)]
  by (auto simp: Recover_def run_simps)

section \<open>The capture of a plan\<close>

lemma valid_records_mono:
  "valid_records p prev n rs \<Longrightarrow> m \<le> n \<Longrightarrow> valid_records p prev m rs"
proof (induction p prev n rs arbitrary: m rule: valid_records.induct)
  case (2 p prev n r rs)
  then show ?case by (auto simp: Let_def)
qed simp

lemma valid_records_prev:
  "valid_records p prev n rs \<Longrightarrow> prev' < prev \<Longrightarrow> valid_records p prev' n rs"
  by (cases rs) (auto simp: Let_def)

definition captured :: "journal \<Rightarrow> string \<Rightarrow> nat \<Rightarrow> (string \<times> image) list \<Rightarrow> rj_record list \<Rightarrow> bool" where
  "captured s prev used chs rs \<longleftrightarrow> valid_records (configured s) prev used rs \<and>
     (\<forall>r \<in> set rs. view s (rec_target r) = Some (rec_before r)) \<and>
     rec_target ` set rs \<subseteq> fst ` set chs \<and> length rs \<le> length chs \<and>
     after_view (view s) rs = view s ++ map_of chs"

lemma captured_keep:
  assumes "captured s tid (used + length (img_data b) + length (img_data a)) chs rs"
    "view s tid = Some b" "validImage a" "validImage b" "a \<noteq> b" "prev < tid" "configured s tid"
    "used + length (img_data b) + length (img_data a) \<le> MaxPlanBytes"
  shows "captured s prev used ((tid, a) # chs)
     (\<lparr>rec_target = tid, rec_before = b, rec_after = a\<rparr> # rs)"
  using assms by (auto simp: captured_def after_view_def)

lemma captured_skip:
  assumes "captured s tid (used + n) chs rs" "view s tid = Some a" "prev < tid"
    "tid \<notin> fst ` set chs"
  shows "captured s prev used ((tid, a) # chs) rs"
proof -
  have "map_of chs tid = None" using assms(4) by (simp add: map_of_eq_None_iff)
  then have "(view s ++ map_of chs)(tid \<mapsto> a) = view s ++ map_of chs"
    using assms(2) by (auto simp: fun_eq_iff map_add_def)
  with assms show ?thesis
    by (auto simp: captured_def intro: valid_records_mono valid_records_prev)
qed

lemma capture_plan_wp:
  assumes "sorted_wrt (<) (map fst chs)" "\<forall>k \<in> fst ` set chs. prev < k"
    "\<forall>(tid, a) \<in> set chs. configured s tid \<and> validImage a" "used \<le> MaxPlanBytes"
  shows "wp (capture_plan used chs) (\<lambda>rs s'. s' = s \<and> captured s prev used chs rs)
     (\<lambda>(out, e) s'. s' = s \<and> out = Clean) s"
  using assms
proof (induction used chs arbitrary: prev rule: capture_plan.induct)
  case (1 used)
  then show ?case by (auto intro!: wp_intros simp: captured_def after_view_def)
next
  case (2 used tid a rest)
  have rec: "wp (op_bind (capture_plan used' rest) (\<lambda>records. op_return
         (if equal_image b a then records
          else \<lparr>rec_target = tid, rec_before = b, rec_after = a\<rparr> # records)))
      (\<lambda>rs s'. s' = s \<and> captured s prev used ((tid, a) # rest) rs)
      (\<lambda>(out, e) s'. s' = s \<and> out = Clean) s"
    if b: "view s tid = Some b" "validImage b" and
      u: "used' = used + length (img_data b) + length (img_data a)" "used' \<le> MaxPlanBytes" for b used'
  proof -
    have "wp (capture_plan used' rest) (\<lambda>rs s'. s' = s \<and> captured s tid used' rest rs)
       (\<lambda>(out, e) s'. s' = s \<and> out = Clean) s"
      unfolding u(1) by (rule "2.IH") (use "2.prems" b u in auto)
    then show ?thesis
    proof (rule wp_call)
      fix rs s' assume "s' = s \<and> captured s tid used' rest rs"
      then have s': "s' = s" and c: "captured s tid used' rest rs" by auto
      have "captured s prev used ((tid, a) # rest)
          (if equal_image b a then rs else \<lparr>rec_target = tid, rec_before = b, rec_after = a\<rparr> # rs)"
      proof (cases "b = a")
        case True
        with c b u have "captured s tid (used + (length (img_data b) + length (img_data a))) rest rs"
          by (simp add: add.assoc)
        from captured_skip [OF this, of a prev] show ?thesis
          using True "2.prems" b by auto
      next
        case False
        with "2.prems" c b u show ?thesis by (auto intro!: captured_keep)
      qed
      with s' show "wp (op_return (if equal_image b a then rs
          else \<lparr>rec_target = tid, rec_before = b, rec_after = a\<rparr> # rs))
        (\<lambda>rs s'. s' = s \<and> captured s prev used ((tid, a) # rest) rs)
        (\<lambda>(out, e) s'. s' = s \<and> out = Clean) s'"
        by (auto intro: wp_return)
    qed
  qed
  have rd: "wp (op_remap (\<lambda>_. (Clean, RjAborted)) (on_target tid ft_read))
      (\<lambda>b s'. s' = s \<and> view s tid = Some b) (\<lambda>e s'. s' = s \<and> e = (Clean, RjAborted)) s"
    by (rule wp_remap, rule wp_mono [OF read_wp]) auto
  show ?case
    unfolding capture_plan.simps Let_def
    by (rule wp_seq, rule wp_check, rule wp_call [OF rd])
      (use rec in \<open>auto intro!: wp_intros simp del: equal_image_iff\<close>)
qed

section \<open>Commit or abort\<close>

definition executed :: "(string \<Rightarrow> image option) \<Rightarrow> rj_record list \<Rightarrow> outcome \<Rightarrow> journal \<Rightarrow> bool" where
  "executed v0 rs out s \<longleftrightarrow> recoverable v0 rs s \<and>
     (out = Clean \<or> out = RolledBack \<longrightarrow> settled s \<and> view s = v0) \<and>
     (out = Applied \<longrightarrow> settled s \<and> view s = after_view v0 rs)"

lemma abort_op_wp:
  assumes "recoverable v0 rs s" "rj_file s = Journal d" "doc_st d = DocPrepared"
  shows "wp (abort_op h) Q (\<lambda>(out, e). executed v0 rs out) s"
proof -
  have o: "outcome_of s = RolledBack" using assms by (simp add: outcome_of_def)
  have "wp (recoverWithHandover h) (executed v0 rs) (\<lambda>_. executed v0 rs Blocked) s"
    by (rule wp_mono [OF recover_wp [OF assms(1)]]) (auto simp: executed_def o)
  then have "wp (op_try (recoverWithHandover h))
      (\<lambda>r. executed v0 rs (case r of Inl _ \<Rightarrow> Blocked | Inr out \<Rightarrow> out)) E s" for E
    by (intro wp_try) simp
  then show ?thesis
    unfolding abort_op_def by (rule wp_call) (auto intro!: wp_intros split: sum.splits)
qed

lemma executed_blocked: "recoverable v0 rs s \<Longrightarrow> executed v0 rs Blocked s"
  by (simp add: executed_def)

lemma recoverable_save:
  assumes "in_run v0 rs s0 s" "rj_file s0 = Journal d" "\<not> rj_closed s0"
    "valid_document (rj_scope s0) (configured s0) d" "doc_records d = rs" "view s = after_view v0 rs"
    "doc_st d = DocPrepared"
  shows "recoverable v0 rs (s\<lparr>rj_file := Journal (d\<lparr>doc_st := DocCommitted\<rparr>)\<rparr>)"
  using assms
  by (auto simp: recoverable_def in_run_def frame_def valid_document_def in_plan_def)

lemma close_plan_wp:
  assumes "recoverable v0 rs s" "view s = after_view v0 rs" "doc_scope d = rj_scope s"
  shows "wp (op_seq (if h then op_check (Blocked, RjRecovery) else op_return ()) (
         op_seq (must (rj_save (idle_doc (doc_scope d)))) (op_return Applied)))
     (\<lambda>out s'. out = Applied \<and> executed v0 rs out s') (\<lambda>(out, e). executed v0 rs out) s"
proof -
  have i: "executed v0 rs out (s\<lparr>rj_file := Journal (idle_doc (doc_scope d))\<rparr>)"
    if "out = Applied \<or> out = Blocked" for out
    using assms that by (auto simp: executed_def settled_idle recoverable_def)
  then have "recoverable v0 rs (s\<lparr>rj_file := Journal (idle_doc (rj_scope s))\<rparr>)"
    using assms(3) by (auto simp: executed_def)
  note i = i this
  show ?thesis
    unfolding must_def
    by (intro wp_intros wp_mono [OF rj_save_wp])
      (use assms i in \<open>auto intro!: wp_intros wp_mono [OF rj_save_wp] executed_blocked\<close>)
qed

lemma commit_plan_wp:
  assumes "settled s" "\<not> rj_closed s" "in_plan (view s) rs s" "doc_records d = rs"
    "doc_st d = DocPrepared" "valid_document (rj_scope s) (configured s) d"
  shows "wp (commit_plan h d) (\<lambda>out s'. out = Applied \<and> executed (view s) rs out s')
     (\<lambda>(out, e). executed (view s) rs out) s"
proof -
  define v0 where "v0 = view s"
  define s1 where "s1 = s\<lparr>rj_file := Journal d\<rparr>"
  have pl: "in_plan v0 rs s1" using assms(3) by (simp add: s1_def v0_def in_plan_def)
  have s1: "rj_file s1 = Journal d" "\<not> rj_closed s1" "rj_scope s1 = rj_scope s"
    "configured s1 = configured s" using assms(2) by (simp_all add: s1_def)
  have scope: "doc_scope d = rj_scope s" using assms(6) by (simp add: valid_document_def)
  have rec: "recoverable v0 rs s'" if "in_run v0 rs s1 s'" for s'
    by (rule in_run_recoverable [OF that]) (use s1 assms in auto)
  have ab: "wp (abort_op h) Q (\<lambda>(out, e). executed v0 rs out) s'" if "in_run v0 rs s1 s'" for s' Q
    by (rule abort_op_wp [of _ _ _ d])
      (use that rec s1(1) assms(5) in \<open>auto simp: in_run_def\<close>)
  have com: "wp (op_seq (must (checkTargets d True)) (
         op_seq (must (rj_save (d\<lparr>doc_st := DocCommitted\<rparr>))) (
         op_seq (if h then op_check (Blocked, RjRecovery) else op_return ()) (
         op_seq (must (rj_save (idle_doc (doc_scope d)))) (op_return Applied)))))
      (\<lambda>out s'. out = Applied \<and> executed v0 rs out s') (\<lambda>(out, e). executed v0 rs out) s'"
    if r: "in_run v0 rs s1 s'" and v: "view s' = after_view v0 rs" for s'
  proof -
    let ?c = "s'\<lparr>rj_file := Journal (d\<lparr>doc_st := DocCommitted\<rparr>)\<rparr>"
    have c: "recoverable v0 rs ?c"
      by (rule recoverable_save [OF r]) (use s1 assms v in auto)
    have "view ?c = after_view v0 rs" "doc_scope d = rj_scope ?c"
      using v r s1(3) scope by (simp_all add: in_run_def frame_def)
    note cl = close_plan_wp [OF c this, of h]
    define K where "K = op_seq (if h then op_check (Blocked, RjRecovery) else op_return ()) (
         op_seq (must (rj_save (idle_doc (doc_scope d)))) (op_return Applied))"
    from cl have cl: "wp K (\<lambda>out s'. out = Applied \<and> executed v0 rs out s')
        (\<lambda>(out, e). executed v0 rs out) ?c" by (simp add: K_def)
    show ?thesis
      unfolding K_def [symmetric]
      unfolding must_def [of "checkTargets d True"] must_def [of "rj_save (d\<lparr>doc_st := DocCommitted\<rparr>)"]
      by (intro wp_seq wp_remap wp_mono [OF checkTargets_wp] wp_mono [OF rj_save_wp])
        (use cl c rec [OF r] in \<open>auto intro!: executed_blocked\<close>)
  qed
  have app: "wp (op_try (op_each apply_record rs))
      (\<lambda>r s'. in_run v0 rs s1 s' \<and> (\<forall>u. r = Inr u \<longrightarrow> view s' = after_view v0 rs)) E s1" for E
    by (rule wp_try, rule wp_mono [OF apply_all_wp [OF pl]]) auto
  have "wp (op_bind (op_try (op_each apply_record (doc_records d))) (\<lambda>r. case r of
       Inl _ \<Rightarrow> abort_op h
     | Inr _ \<Rightarrow>
         op_seq (must (checkTargets d True)) (
         op_seq (must (rj_save (d\<lparr>doc_st := DocCommitted\<rparr>))) (
         op_seq (if h then op_check (Blocked, RjRecovery) else op_return ()) (
         op_seq (must (rj_save (idle_doc (doc_scope d)))) (
         op_return Applied))))))
      (\<lambda>out s'. out = Applied \<and> executed v0 rs out s') (\<lambda>(out, e). executed v0 rs out) s1"
    unfolding assms(4) by (rule wp_call [OF app]) (auto intro!: wp_sum ab com split del: if_split)
  moreover have "recoverable v0 rs s" "recoverable v0 rs s1"
    using assms(1,2) rec [of s1] pl by (auto simp: v0_def in_run_def intro: recoverable_settled)
  ultimately show ?thesis
    unfolding commit_plan_def must_def [of "rj_save d"] v0_def [symmetric]
    by (intro wp_seq wp_remap wp_mono [OF rj_save_wp]) (auto simp: s1_def intro!: executed_blocked)
qed

section \<open>Execution\<close>

text \<open>What \<open>Open\<close> guarantees of a usable journal.\<close>

definition opened :: "journal \<Rightarrow> bool" where
  "opened s \<longleftrightarrow> \<not> rj_closed s \<and> length (rj_scope s) = 64 \<and>
     (\<forall>tid. configured s tid \<longrightarrow> target_id_ok tid)"

lemma opened_frame: "frame s s' \<Longrightarrow> opened s \<Longrightarrow> opened s'"
  by (simp add: frame_def opened_def)

lemma sort_changes:
  fixes chs :: "(string \<times> image) list"
  assumes "distinct (map fst chs)"
  shows "sorted_wrt (<) (map fst (sort_key fst chs))" "map_of (sort_key fst chs) = map_of chs"
proof -
  have "set (map fst (sort_key fst chs)) = set (map fst chs)" by simp
  then have d: "distinct (map fst (sort_key fst chs))"
    using assms distinct_card [OF assms] by (intro card_distinct) simp
  then show "sorted_wrt (<) (map fst (sort_key fst chs))"
    by (simp add: strict_sorted_iff del: set_map)
  show "map_of (sort_key fst chs) = map_of chs"
    using d assms by (subst map_of_inject_set) auto
qed

lemma captured_plan:
  assumes "captured s [] 0 chs rs" "length chs \<le> MaxTargets" "rs \<noteq> []" "valid_doc_id fresh"
  shows "in_plan (view s) rs s"
    "valid_document (rj_scope s) (configured s) (prepared_doc (rj_scope s) fresh rs)"
  using assms valid_records_distinct [of "configured s" "[]" 0 rs]
  by (auto simp: captured_def valid_document_def prepared_doc_def intro: in_plan_start)

definition run_of :: "journal \<Rightarrow> (string \<times> image) list \<Rightarrow> outcome \<Rightarrow> journal \<Rightarrow> bool" where
  "run_of s changes out s' \<longleftrightarrow> (\<exists>rs. executed (view s) rs out s' \<and>
     (after_view (view s) rs = view s ++ map_of changes \<or> out \<noteq> Applied \<and> rs = []))"

lemma run_of_same: "settled s \<Longrightarrow> \<not> rj_closed s \<Longrightarrow> out \<noteq> Applied \<Longrightarrow> run_of s changes out s"
  unfolding run_of_def
  by (rule exI [of _ "[]"]) (auto simp: executed_def intro: recoverable_settled)

lemma ExecuteWithHandover_wp:
  assumes s: "settled s" "opened s" and fresh: "valid_doc_id fresh" and d: "distinct (map fst changes)"
  shows "wp (ExecuteWithHandover fresh changes h)
     (\<lambda>out s'. run_of s changes out s' \<and> (out = Applied \<or>
        out = Clean \<and> s' = s \<and> view s ++ map_of changes = view s))
     (\<lambda>(out, e) s'. run_of s changes out s') s"
proof -
  let ?Q = "\<lambda>out s'. run_of s changes out s' \<and> (out = Applied \<or>
        out = Clean \<and> s' = s \<and> view s ++ map_of changes = view s)"
  let ?E = "\<lambda>(out, e) s'. run_of s changes out s'"
  let ?chs = "sort_key fst changes"
  have same: "run_of s changes out s" if "out \<noteq> Applied" for out
    using s that by (intro run_of_same) (auto simp: opened_def)
  have cap: "wp (capture_plan 0 ?chs) (\<lambda>rs s'. s' = s \<and> captured s [] 0 ?chs rs)
     (\<lambda>(out, e) s'. s' = s \<and> out = Clean) s"
    if "list_all (\<lambda>(tid, after). configured s tid \<and> validImage after) changes"
  proof (rule capture_plan_wp)
    show "\<forall>k \<in> fst ` set ?chs. [] < k"
    proof
      fix k assume "k \<in> fst ` set ?chs"
      then have "target_id_ok k" using that s(2) by (auto simp: list_all_iff opened_def)
      then show "[] < k" by (cases k) (simp_all add: target_id_ok_def)
    qed
  qed (use that sort_changes [OF d] in \<open>auto simp: list_all_iff\<close>)
  have com: "wp (op_seq (op_check (Clean, RjAborted))
       (commit_plan h (prepared_doc (rj_scope s) fresh rs))) ?Q ?E s"
    if c: "captured s [] 0 ?chs rs" and l: "length changes \<le> MaxTargets" and "rs \<noteq> []" for rs
  proof -
    note p = captured_plan [OF c _ \<open>rs \<noteq> []\<close> fresh]
    have v: "after_view (view s) rs = view s ++ map_of changes"
      using c sort_changes(2) [OF d] by (simp add: captured_def)
    have "wp (commit_plan h (prepared_doc (rj_scope s) fresh rs))
        (\<lambda>out s'. out = Applied \<and> executed (view s) rs out s')
        (\<lambda>(out, e). executed (view s) rs out) s"
      by (rule commit_plan_wp) (use p l s in \<open>auto simp: opened_def prepared_doc_def\<close>)
    then have "wp (commit_plan h (prepared_doc (rj_scope s) fresh rs)) ?Q ?E s"
      by (rule wp_mono) (use v in \<open>auto simp: run_of_def\<close>)
    then show ?thesis by (intro wp_intros) (auto intro: same)
  qed
  have clean: "view s ++ map_of changes = view s" if "captured s [] 0 ?chs []"
    using that sort_changes(2) [OF d] by (simp add: captured_def after_view_def)
  have ld: "wp (op_remap (\<lambda>e. (Blocked, e)) rj_load) (\<lambda>_ s'. s' = s)
      (\<lambda>(out, e) s'. s' = s \<and> out = Blocked) s"
    by (rule wp_remap, rule wp_mono [OF rj_load_wp]) auto
  have plan: "wp (op_bind (capture_plan 0 ?chs) (\<lambda>records.
     if records = [] then
       op_seq (if h then op_check (Blocked, RjRecovery) else op_return ()) (op_return Clean)
     else op_seq (op_check (Clean, RjAborted))
       (commit_plan h (prepared_doc (rj_scope s) fresh records)))) ?Q ?E s"
    if "list_all (\<lambda>(tid, after). configured s tid \<and> validImage after) changes"
      "length changes \<le> MaxTargets"
    using cap [OF that(1)]
    by (rule wp_call) (use com that(2) clean same in \<open>auto intro!: wp_intros\<close>)
  define R where "R = op_bind (capture_plan 0 ?chs) (\<lambda>records.
     if records = [] then
       op_seq (if h then op_check (Blocked, RjRecovery) else op_return ()) (op_return Clean)
     else op_seq (op_check (Clean, RjAborted))
       (commit_plan h (prepared_doc (rj_scope s) fresh records)))"
  have body: "wp (op_seq (op_check (Clean, RjAborted)) (
     if changes = [] \<or> length changes > MaxTargets then op_fail (Clean, RjInvalid)
     else if \<not> list_all (\<lambda>(tid, after). configured s tid \<and> validImage after) changes
     then op_fail (Clean, RjInvalid) else R)) ?Q ?E s"
    using plan [folded R_def]
    by (intro wp_seq wp_check wp_if wp_fail) (auto simp: same not_less)
  have "wp (op_bind (op_remap (\<lambda>e. (Blocked, e)) rj_load) (\<lambda>current.
     if doc_st current \<noteq> DocIdle then op_fail (Blocked, RjPending)
     else op_seq (op_check (Clean, RjAborted)) (
     if changes = [] \<or> length changes > MaxTargets then op_fail (Clean, RjInvalid)
     else if \<not> list_all (\<lambda>(tid, after). configured s tid \<and> validImage after) changes
     then op_fail (Clean, RjInvalid) else R))) ?Q ?E s"
    by (rule wp_call [OF ld], rule wp_if, rule wp_fail) (use body same in auto)
  note load = this [unfolded R_def]
  show ?thesis
    unfolding ExecuteWithHandover_def
    by (rule wp_seq, rule wp_check, rule wp_bind, rule wp_get, rule wp_if, rule wp_fail)
      (use s(2) load same in \<open>simp_all add: opened_def split del: if_split\<close>)
qed

end
