(* ===== verification/Restore_Properties.thy ===== *)
theory Restore_Properties
  imports Restore_Execute "HOL-Library.Multiset"
begin

text \<open>
  The properties of the restore journal (\<open>internal/restorejournal\<close>), with
  the small journal on which the witnesses run.
\<close>

section \<open>Shared facts\<close>

interpretation fr: kept_relation frame
  by unfold_locales (auto intro: frame_trans)

lemma frame_target [simp]:
  "rj_targets s tid = Some f \<Longrightarrow> frame s (s\<lparr>rj_targets := (rj_targets s)(tid \<mapsto> f')\<rparr>)"
  by (auto simp: frame_def configured_def fun_eq_iff)

lemma keeps_target: "keeps frame (on_target tid m)"
  unfolding keeps_def
  by (intro allI wp_on_target wpI) auto

lemma keeps_load: "keeps frame rj_load"
  unfolding rj_load_def
  by (intro fr.rules) (auto split: journal_file.split intro: fr.rules)

lemma keeps_save: "keeps frame (rj_save d)"
  unfolding rj_save_def by (intro fr.rules fr.effect) auto

lemma keeps_records:
  "keeps frame (check_record c r)" "keeps frame (undo_record r)" "keeps frame (confirm_record r)"
  "keeps frame (apply_record r)"
  unfolding check_record_def undo_record_def confirm_record_def apply_record_def
  by (intro fr.rules keeps_target)+

lemma keeps_recovery: "keeps frame (recoverWithHandover h)" "keeps frame Recover"
  unfolding Recover_def recoverWithHandover_def must_def checkTargets_def
  by (intro fr.rules fr.each keeps_records keeps_load keeps_save)+

lemma keeps_capture: "keeps frame (capture_plan used chs)"
  by (induction used chs rule: capture_plan.induct)
    (simp_all add: Let_def fr.return fr.seq fr.bind fr.check fr.remap fr.branch fr.fail keeps_target)

lemma keeps_execute: "keeps frame (ExecuteWithHandover fresh changes h)"
  unfolding ExecuteWithHandover_def commit_plan_def abort_op_def must_def checkTargets_def
  by (intro fr.rules fr.each keeps_records keeps_load keeps_save keeps_capture keeps_recovery
      | (split sum.split, intro allI impI conjI))+

text \<open>Any number of recoveries, each interrupted by its own tape.\<close>

fun recover_runs :: "tape list \<Rightarrow> journal \<Rightarrow> journal" where
  "recover_runs [] s = s"
| "recover_runs (t # ts) s = recover_runs ts (op_final Recover t s)"

lemma recover_runs_recoverable:
  "recoverable v0 rs s \<Longrightarrow> recoverable v0 rs (recover_runs ts s) \<and> frame s (recover_runs ts s)"
proof (induction ts arbitrary: s)
  case (Cons t ts)
  have "recoverable v0 rs (op_final Recover t s)"
    by (rule op_final_wp [OF Recover_wp [OF Cons.prems]]) auto
  moreover have "frame s (op_final Recover t s)" by (rule fr.final [OF keeps_recovery(2)])
  ultimately show ?case using Cons.IH by (auto intro: frame_trans)
qed simp

lemma run_recovers:
  assumes "run_of s changes out s1" "opened s" "frame s s1"
  shows "\<exists>out s'. Recover ([], recover_runs ts s1) = (Inr out, [], s') \<and> settled s' \<and>
           view s' \<in> {view s, view s ++ map_of changes}"
proof -
  from assms(1) obtain rs where rec: "recoverable (view s) rs s1" and
      rs: "after_view (view s) rs = view s ++ map_of changes \<or> rs = []"
    by (auto simp: run_of_def executed_def)
  have "recoverable (view s) rs (recover_runs ts s1)" "frame s1 (recover_runs ts s1)"
    using recover_runs_recoverable [OF rec] by auto
  moreover from this assms have "length (rj_scope (recover_runs ts s1)) = 64"
    by (auto simp: frame_def opened_def)
  ultimately obtain out s' where
      run: "Recover ([], recover_runs ts s1) = (Inr out, [], s')" and
      q: "recovered (view s) rs out s'"
    using Recover_run wp_Inr [OF Recover_wp] by blast
  have "after_view (view s) [] = view s" by (simp add: after_view_def)
  with q rs have "settled s' \<and> view s' \<in> {view s, view s ++ map_of changes}"
    by (cases out) auto
  with run show ?thesis by auto
qed

section \<open>The size of the journal file\<close>

definition record_bytes :: "rj_record \<Rightarrow> nat" where
  "record_bytes r = length (img_data (rec_before r)) + length (img_data (rec_after r))"

lemma valid_records_bytes:
  "valid_records p prev n rs \<Longrightarrow> n \<le> MaxPlanBytes \<Longrightarrow> n + sum_list (map record_bytes rs) \<le> MaxPlanBytes"
proof (induction p prev n rs rule: valid_records.induct)
  case (2 p prev n r rs)
  then show ?case by (auto simp: Let_def record_bytes_def algebra_simps)
qed simp

lemma valid_records_targets:
  "valid_records p prev n rs \<Longrightarrow> \<forall>r \<in> set rs. p (rec_target r)"
  by (induction p prev n rs rule: valid_records.induct) (auto simp: Let_def)

lemma image_json_bound: "3 * image_json_len i \<le> 98 + 4 * length (img_data i)"
proof -
  have "12 * ((length (img_data i) + 2) div 3) \<le> 4 * length (img_data i) + 8"
    by presburger
  then show ?thesis by (simp add: image_json_len_def base64_len_def)
qed

lemma record_json_bound:
  assumes "length (rec_target r) \<le> 48"
  shows "3 * record_json_len r \<le> 436 + 4 * record_bytes r"
  using assms image_json_bound [of "rec_before r"] image_json_bound [of "rec_after r"]
  by (simp add: record_json_len_def record_bytes_def)

lemma records_json_bound:
  "\<forall>r \<in> set rs. length (rec_target r) \<le> 48 \<Longrightarrow>
   3 * sum_list (map record_json_len rs) \<le> 436 * length rs + 4 * sum_list (map record_bytes rs)"
proof (induction rs)
  case (Cons r rs)
  then show ?case using record_json_bound [of r] by simp
qed simp

lemma target_id_len: "target_id_ok tid \<Longrightarrow> length tid \<le> 48"
  by (auto simp: target_id_ok_def split: list.splits)

lemma valid_document_len:
  assumes v: "valid_document scope p d" and "length scope = 64" "\<And>tid. p tid \<Longrightarrow> target_id_ok tid"
  shows "document_json_len d \<le> maxJournalBytes"
proof (cases "doc_st d = DocIdle")
  case True
  with assms show ?thesis
    by (simp add: valid_document_def document_json_len_def journalKind_def maxJournalBytes_def)
next
  case False
  with v have rs: "valid_records p [] 0 (doc_records d)" "length (doc_records d) \<le> 64"
      "length (doc_id d) = 32" "length (state_text (doc_st d)) \<le> 9"
    by (auto simp: valid_document_def MaxTargets_def valid_doc_id_def)
  have "3 * sum_list (map record_json_len (doc_records d)) \<le>
      436 * 64 + 4 * MaxPlanBytes"
    using records_json_bound [of "doc_records d"] valid_records_targets [OF rs(1)]
      valid_records_bytes [OF rs(1)] rs(2) assms(3) target_id_len
    by fastforce
  with rs v assms(2) show ?thesis
    by (simp add: valid_document_def document_json_len_def journalKind_def maxJournalBytes_def MaxPlanBytes_def)
qed

lemma opened_document_len:
  "opened s \<Longrightarrow> valid_document (rj_scope s) (configured s) d \<Longrightarrow> document_json_len d \<le> maxJournalBytes"
  by (rule valid_document_len [of "rj_scope s" "configured s"]) (auto simp: opened_def)

section \<open>An undisturbed execution\<close>

lemma capture_run:
  assumes "\<forall>(tid, a) \<in> set chs. \<exists>b. view s tid = Some b \<and> validImage b"
    "used + sum_list (map (\<lambda>(tid, a). length (img_data a) +
        (case view s tid of Some b \<Rightarrow> length (img_data b) | None \<Rightarrow> 0)) chs) \<le> MaxPlanBytes"
  shows "\<exists>rs. capture_plan used chs ([], s) = (Inr rs, [], s)"
  using assms
proof (induction used chs rule: capture_plan.induct)
  case (1 used)
  then show ?case by (simp add: run_simps)
next
  case (2 used tid a rest)
  from "2.prems" obtain b where b: "view s tid = Some b" "validImage b" by auto
  let ?u = "used + length (img_data b) + length (img_data a)"
  have "\<exists>rs. capture_plan ?u rest ([], s) = (Inr rs, [], s)"
    by (rule "2.IH") (use "2.prems" b in \<open>auto simp: algebra_simps\<close>)
  with "2.prems" b show ?case by (auto simp: run_simps read_run Let_def algebra_simps)
qed

lemma apply_record_run:
  assumes "view s (rec_target r) = Some (rec_before r)" "validImage (rec_before r)" "validImage (rec_after r)"
  shows "\<exists>s'. apply_record r ([], s) = (Inr (), [], s') \<and> moved s (rec_target r) (rec_after r) s'"
  using cas_run [OF assms] by (auto simp: apply_record_def run_simps)

lemma apply_all_run:
  assumes "distinct (map rec_target rs)" "\<forall>r \<in> set rs. view s (rec_target r) = Some (rec_before r)"
    "\<forall>r \<in> set rs. validImage (rec_before r) \<and> validImage (rec_after r)"
  shows "\<exists>s'. op_each apply_record rs ([], s) = (Inr (), [], s')"
  using assms
proof (induction rs arbitrary: s)
  case (Cons r rs)
  then obtain s1 where s1: "apply_record r ([], s) = (Inr (), [], s1)" "moved s (rec_target r) (rec_after r) s1"
    using apply_record_run [of s r] by auto
  have "\<exists>s'. op_each apply_record rs ([], s1) = (Inr (), [], s')"
    by (rule Cons.IH) (use Cons.prems s1(2) in \<open>auto simp: moved_def image_iff\<close>)
  with s1(1) show ?case by (auto simp: run_simps)
qed (simp add: run_simps)

lemma commit_plan_run:
  assumes "in_plan (view s) rs s" "doc_records d = rs" "opened s"
    "valid_document (rj_scope s) (configured s) d" "doc_st d = DocPrepared"
  shows "\<exists>s'. commit_plan h d ([], s) = (Inr Applied, [], s')"
proof -
  let ?s1 = "s\<lparr>rj_file := Journal d\<rparr>"
  have img: "\<forall>r \<in> set rs. validImage (rec_before r) \<and> validImage (rec_after r)"
    using assms(2,4,5) by (auto simp: valid_document_def dest: valid_records_images)
  have len: "document_json_len d \<le> maxJournalBytes"
      "document_json_len (d\<lparr>doc_st := DocCommitted\<rparr>) \<le> maxJournalBytes"
      "document_json_len (idle_doc (doc_scope d)) \<le> maxJournalBytes"
    using assms(3-5) by (auto intro!: opened_document_len simp: valid_document_def idle_doc_def)
  have pl: "in_plan (view s) rs ?s1" using assms(1) by (simp add: in_plan_def)
  have "\<exists>s2. op_each apply_record rs ([], ?s1) = (Inr (), [], s2)"
    by (rule apply_all_run) (use assms(1) img in \<open>auto simp: in_plan_def\<close>)
  then obtain s2 where s2: "op_each apply_record rs ([], ?s1) = (Inr (), [], s2)" by blast
  from wp_Inr [OF apply_all_wp [OF pl] s2] have "view s2 = after_view (view s) rs" by simp
  then have "checkTargets d True ([], s2) = (Inr (), [], s2)"
    unfolding checkTargets_def assms(2)
    by (intro run_each_same check_record_run)
      (use assms(1) img in \<open>auto simp: in_plan_def after_view_mem\<close>)
  with s2 len assms(2) show ?thesis
    by (simp add: commit_plan_def must_def run_simps rj_save_run)
qed

text \<open>A journal with one file, the plan that rewrites it, and a transaction id.\<close>

definition demo_scope :: string where "demo_scope = replicate 64 CHR ''a''"
definition demo_fresh :: string where "demo_fresh = replicate 32 CHR ''0''"
definition demo_file :: "string \<Rightarrow> file_target" where
  "demo_file c = \<lparr>ft_closed = False, ft_content = Regular c\<rparr>"
definition demo_journal :: "journal_file \<Rightarrow> string \<Rightarrow> journal" where
  "demo_journal j c = \<lparr>rj_file = j, rj_targets = [''config'' \<mapsto> demo_file c],
     rj_scope = demo_scope, rj_closed = False\<rparr>"
definition demo_changes :: "(string \<times> image) list" where
  "demo_changes = [(''config'', \<lparr>img_exists = True, img_data = ''new''\<rparr>)]"

lemma demo_settled: "settled (demo_journal NoJournal c)"
  by (simp add: settled_def demo_journal_def)

lemma demo_opened: "opened (demo_journal j c)"
  by (auto simp: opened_def demo_journal_def demo_scope_def configured_def target_id_ok_def
      char_class_defs)

lemma demo_fresh_ok: "valid_doc_id demo_fresh"
  by (simp add: valid_doc_id_def demo_fresh_def list_all_iff char_class_defs)

lemma demo_distinct: "distinct (map fst demo_changes)"
  by (simp add: demo_changes_def)

lemmas demo_facts = demo_settled demo_opened demo_fresh_ok demo_distinct

section \<open>Properties\<close>

text \<open>
  C1: a restore is atomic.  Start from a settled, open journal and run any plan
  with any refusals, torn writes or crash; then interrupt recovery any number
  of times, each time arbitrarily.  The next recovery that is not disturbed
  completes, leaves the journal settled, and the targets are either all as they
  were or all as the plan wants them.
\<close>

theorem restore_atomic:
  assumes "settled s" "opened s" "valid_doc_id fresh" "distinct (map fst changes)"
  shows "\<exists>out s'.
     Recover ([], recover_runs ts (op_final (ExecuteWithHandover fresh changes h) t s)) = (Inr out, [], s') \<and>
     settled s' \<and> view s' \<in> {view s, view s ++ map_of changes}"
proof -
  have "\<exists>out. run_of s changes out (op_final (ExecuteWithHandover fresh changes h) t s)"
    by (rule op_final_wp [OF ExecuteWithHandover_wp [OF assms]]) auto
  then show ?thesis
    using run_recovers assms(2) fr.final [OF keeps_execute] by blast
qed

theorem restore_atomic_witness:
  "\<exists>out s'. Recover ([], recover_runs [[Go, Refuse]] (op_final
       (ExecuteWithHandover demo_fresh demo_changes False)
       (replicate 12 Go @ [Torn, Refuse]) (demo_journal NoJournal ''old''))) = (Inr out, [], s') \<and>
     settled s' \<and> view s' \<in> {view (demo_journal NoJournal ''old''),
       view (demo_journal NoJournal ''old'') ++ map_of demo_changes}"
  by (rule restore_atomic) (rule demo_facts)+



text \<open>
  C3: an undisturbed execution succeeds.  With at most 64 configured, readable
  targets whose old and new contents fit in the plan budget, the plan is
  applied (or found to be in place already); the journal file it needs never
  exceeds its size limit.
\<close>

theorem restore_applies:
  assumes "settled s" "opened s" "valid_doc_id fresh" "distinct (map fst changes)"
    and "changes \<noteq> []" "length changes \<le> MaxTargets"
    and "\<forall>(tid, a) \<in> set changes. validImage a \<and> (\<exists>b. view s tid = Some b)"
    and "sum_list (map (\<lambda>(tid, a). length (img_data a) +
        (case view s tid of Some b \<Rightarrow> length (img_data b) | None \<Rightarrow> 0)) changes) \<le> MaxPlanBytes"
  shows "\<exists>out s'. ExecuteWithHandover fresh changes h ([], s) = (Inr out, [], s') \<and>
     settled s' \<and> view s' = view s ++ map_of changes"
proof -
  let ?chs = "sort_key fst changes"
  have vi: "validImage b" if "view s tid = Some b" for tid b
    using that by (auto simp: view_def intro: ft_holds_valid split: option.splits)
  have conf: "list_all (\<lambda>(tid, a). configured s tid \<and> validImage a) changes"
    using assms(7) by (auto simp: list_all_iff view_def configured_def split: option.splits)
  have "mset ?chs = mset changes" by simp
  then have "sum_list (map f ?chs) = sum_list (map f changes)" for f :: "string \<times> image \<Rightarrow> nat"
    by (metis mset_map sum_mset_sum_list)
  then have "\<exists>rs. capture_plan 0 ?chs ([], s) = (Inr rs, [], s)"
    by (intro capture_run) (use assms(7,8) vi in auto)
  then obtain rs where cap: "capture_plan 0 ?chs ([], s) = (Inr rs, [], s)" by blast
  have "\<forall>k \<in> fst ` set ?chs. [] < k"
  proof
    fix k assume "k \<in> fst ` set ?chs"
    then have "target_id_ok k" using conf assms(2) by (auto simp: list_all_iff opened_def)
    then show "[] < k" by (cases k) (simp_all add: target_id_ok_def)
  qed
  then have "wp (capture_plan 0 ?chs) (\<lambda>rs s'. s' = s \<and> captured s [] 0 ?chs rs)
     (\<lambda>(out, e) s'. s' = s \<and> out = Clean) s"
    by (intro capture_plan_wp) (use conf sort_changes [OF assms(4)] in \<open>auto simp: list_all_iff\<close>)
  from wp_Inr [OF this cap] have c: "captured s [] 0 ?chs rs" by simp
  have "\<exists>out s'. ExecuteWithHandover fresh changes h ([], s) = (Inr out, [], s')"
  proof (cases "rs = []")
    case True
    with assms cap conf show ?thesis
      by (auto simp: ExecuteWithHandover_def run_simps rj_load_def settled_def opened_def
          split: journal_file.splits)
  next
    case False
    have "\<exists>s'. commit_plan h (prepared_doc (rj_scope s) fresh rs) ([], s) = (Inr Applied, [], s')"
      by (rule commit_plan_run)
        (use captured_plan [OF c _ False assms(3)] assms(2,6) in \<open>auto simp: prepared_doc_def\<close>)
    with False assms cap conf show ?thesis
      by (auto simp: ExecuteWithHandover_def run_simps rj_load_def settled_def opened_def
          split: journal_file.splits)
  qed
  then obtain out s' where e: "ExecuteWithHandover fresh changes h ([], s) = (Inr out, [], s')" by blast
  with wp_Inr [OF ExecuteWithHandover_wp [OF assms(1-4)] e] assms(1) show ?thesis
    by (auto simp: run_of_def executed_def)
qed

theorem restore_applies_witness:
  "\<exists>out s'. ExecuteWithHandover demo_fresh demo_changes True ([], demo_journal NoJournal ''old'') =
     (Inr out, [], s') \<and> settled s' \<and>
     view s' = view (demo_journal NoJournal ''old'') ++ map_of demo_changes"
  by (rule restore_applies [OF demo_facts])
    (simp_all add: demo_changes_def demo_journal_def demo_file_def view_def ft_holds_def validImage_def
      MaxTargets_def MaxPlanBytes_def MaxImageBytes_def)

text \<open>
  C4: recovery never overwrites foreign content.  If a journalled target holds
  anything but its before or after image (for a committed plan, anything but
  its after image), recovery reports \<open>Blocked\<close> and neither the journal nor any
  target changes.
\<close>

theorem restore_foreign_kept:
  assumes "rj_file s = Journal d" "doc_st d \<noteq> DocIdle" "r \<in> set (doc_records d)"
    and "view s (rec_target r) \<noteq> Some (rec_after r)"
    and "doc_st d = DocCommitted \<or> view s (rec_target r) \<noteq> Some (rec_before r)"
  shows "\<exists>e. fst (Recover (t, s)) = Inl (Blocked, e) \<and> op_final Recover t s = s"
proof -
  have ld: "wp (op_remap (\<lambda>e. (Blocked, e)) rj_load) (\<lambda>d' s'. s' = s \<and> d' = d)
      (\<lambda>(out, e) s'. s' = s \<and> out = Blocked) s"
    by (rule wp_remap, rule wp_mono [OF rj_load_wp]) (use assms(1) in auto)
  have ch: "wp (must (checkTargets d (doc_st d = DocCommitted))) (\<lambda>_ _. False)
      (\<lambda>(out, e) s'. s' = s \<and> out = Blocked) s"
    unfolding must_def
    by (rule wp_remap, rule wp_mono [OF checkTargets_wp]) (use assms(3-5) in auto)
  have "wp (op_seq (must (checkTargets d (doc_st d = DocCommitted))) K) (\<lambda>_ _. False)
      (\<lambda>(out, e) s'. s' = s \<and> out = Blocked) s" for K :: "outcome rj_op"
    by (rule wp_then [OF ch]) auto
  then have "wp (recoverWithHandover False) (\<lambda>_ _. False) (\<lambda>(out, e) s'. s' = s \<and> out = Blocked) s"
    unfolding recoverWithHandover_eq
    by (intro wp_call [OF ld] wp_seq [of "op_check _"] wp_check wp_if wp_return)
      (use assms(2) in auto)
  then have w: "wp Recover (\<lambda>_ _. False) (\<lambda>(out, e) s'. s' = s \<and> out = Blocked) s"
    unfolding Recover_def by (auto intro!: wp_intros)
  obtain x t' s' where m: "Recover (t, s) = (x, t', s')" by (metis prod_cases3)
  from wpD [OF w m] show ?thesis by (auto simp: m op_final_def split: sum.splits)
qed

definition demo_prepared :: document where
  "demo_prepared = prepared_doc demo_scope demo_fresh [\<lparr>rec_target = ''config'',
     rec_before = \<lparr>img_exists = True, img_data = ''old''\<rparr>,
     rec_after = \<lparr>img_exists = True, img_data = ''new''\<rparr>\<rparr>]"

theorem restore_foreign_kept_witness:
  "\<exists>e. fst (Recover ([Go], demo_journal (Journal demo_prepared) ''edited'')) = Inl (Blocked, e) \<and>
     op_final Recover [Go] (demo_journal (Journal demo_prepared) ''edited'') =
     demo_journal (Journal demo_prepared) ''edited''"
  by (rule restore_foreign_kept [of _ demo_prepared
        "\<lparr>rec_target = ''config'', rec_before = \<lparr>img_exists = True, img_data = ''old''\<rparr>,
     rec_after = \<lparr>img_exists = True, img_data = ''new''\<rparr>\<rparr>"])
    (simp_all add: demo_journal_def demo_prepared_def prepared_doc_def view_def demo_file_def
      ft_holds_def MaxImageBytes_def)

text \<open>
  C5: a pending journal blocks every new plan.  While the journal holds a
  prepared or committed plan, or cannot be read, an execution fails as
  \<open>Blocked\<close> before it touches anything.
\<close>

theorem restore_pending_refused:
  assumes "rj_file s = BadJournal \<or> (\<exists>d. rj_file s = Journal d \<and> doc_st d \<noteq> DocIdle)"
  shows "\<exists>e. fst (ExecuteWithHandover fresh changes h (t, s)) = Inl (Blocked, e) \<and>
     op_final (ExecuteWithHandover fresh changes h) t s = s"
proof -
  have ld: "wp (op_remap (\<lambda>e. (Blocked, e)) rj_load) (\<lambda>d s'. s' = s \<and> doc_st d \<noteq> DocIdle)
      (\<lambda>(out, e) s'. s' = s \<and> out = Blocked) s"
    by (rule wp_remap, rule wp_mono [OF rj_load_wp]) (use assms in auto)
  have w: "wp (ExecuteWithHandover fresh changes h) (\<lambda>_ _. False) (\<lambda>(out, e) s'. s' = s \<and> out = Blocked) s"
    unfolding ExecuteWithHandover_def
    by (rule wp_seq, rule wp_check, rule wp_bind, rule wp_get, rule wp_if, rule wp_fail, simp,
        rule wp_call [OF ld]) (auto intro!: wp_fail)
  obtain x t' s' where m: "ExecuteWithHandover fresh changes h (t, s) = (x, t', s')" by (metis prod_cases3)
  from wpD [OF w m] show ?thesis by (auto simp: m op_final_def split: sum.splits)
qed

theorem restore_pending_refused_witness:
  "\<exists>e. fst (ExecuteWithHandover demo_fresh demo_changes False
       ([], demo_journal (Journal demo_prepared) ''old'')) = Inl (Blocked, e) \<and>
     op_final (ExecuteWithHandover demo_fresh demo_changes False) []
       (demo_journal (Journal demo_prepared) ''old'') = demo_journal (Journal demo_prepared) ''old''"
  by (rule restore_pending_refused)
    (simp add: demo_journal_def demo_prepared_def prepared_doc_def)

end
