(* ===== verification/Update_Receipt.thy ===== *)
theory Update_Receipt
  imports Prelude "HOL-Library.Word"
begin

text \<open>
  The receipt of a self update (\<open>internal/selfupdatejournal\<close>): the types of
  \<open>journal.go\<close>, \<open>paired.go\<close> and \<open>stopped.go\<close>, the validity test that fences
  every read, and the canonical JSON of a receipt.  \<open>sha\<close> is SHA-256 in hex,
  a parameter of the definitions that hash.
\<close>

section \<open>Types\<close>

record file_image =
  fi_target :: string
  fi_old_present :: bool
  fi_old_hash :: string
  fi_old_mode :: nat
  fi_new_hash :: string

record stopped_binding =
  sb_installation :: string
  sb_pre_stop :: "64 word"
  sb_stop :: "64 word"
  sb_revision :: "64 word"
  sb_reader :: int

record paired_binding =
  pb_manifest :: string
  pb_prepared :: string
  pb_review :: string
  pb_installation :: string
  pb_sequence :: "64 word"
  pb_revision :: "64 word"

record retirement_binding =
  rt_accepted :: string
  rt_helper :: string

datatype phase =
    Prepared | PairedPrepared | Installing | Restoring | Installed | Restored
  | Accepted | RolledBackLive | RolledBackStopped | Archived
  | CommandStarted | CommandFinished | OtherPhase string

record receipt =
  rc_schema :: int
  rc_id :: string
  rc_phase :: phase
  rc_index :: int
  rc_command :: string
  rc_commands :: "string list"
  rc_rollback :: bool
  rc_before_files :: bool
  rc_files :: "file_image list"
  rc_stopped :: "stopped_binding option"
  rc_paired :: "paired_binding option"
  rc_retired :: "retirement_binding option"

definition Schema :: int where "Schema = 2"
definition StoppedSchema :: int where "StoppedSchema = 3"
definition PairedSchema :: int where "PairedSchema = 4"

lemmas schema_defs = Schema_def StoppedSchema_def PairedSchema_def

definition Pending :: "receipt \<Rightarrow> bool" where
  "Pending r \<longleftrightarrow> rc_phase r \<noteq> Accepted \<and> rc_phase r \<noteq> RolledBackLive \<and>
     rc_phase r \<noteq> RolledBackStopped \<and> rc_phase r \<noteq> Archived"

definition id_pattern :: "string \<Rightarrow> bool" where
  "id_pattern v \<longleftrightarrow> length v = 32 \<and> list_all is_hex v"

definition command_pattern :: "string \<Rightarrow> bool" where
  "command_pattern v \<longleftrightarrow> (case v of [] \<Rightarrow> False | c # cs \<Rightarrow>
     is_lower c \<and> length cs \<le> 63 \<and>
     list_all (\<lambda>d. is_lower d \<or> is_digit d \<or> d = CHR ''-'') cs)"

definition digest :: "string \<Rightarrow> bool" where
  "digest v \<longleftrightarrow> length v = 64 \<and> list_all is_hex v"

definition bin_target :: string where "bin_target = ''bin/razvilka''"
definition init_target :: string where "init_target = ''etc/init.d/S99razvilka''"
definition config_target :: string where "config_target = ''etc/razvilka/config.json''"

definition allowedTarget :: "string \<Rightarrow> bool" where
  "allowedTarget name \<longleftrightarrow> name \<in> {bin_target, init_target, config_target,
     ''etc/razvilka/service-catalog.json'', ''etc/razvilka/community-catalog.json'',
     ''etc/razvilka/sources.json''}"

definition beforeFilesCommand :: "string \<Rightarrow> bool" where
  "beforeFilesCommand c \<longleftrightarrow>
     c = ''stop-old-panel'' \<or> c = ''prepare-private-state'' \<or> c = ''quiesce-old-runtime''"

definition before_commands :: "string list" where
  "before_commands = [''stop-old-panel'', ''prepare-private-state'', ''quiesce-old-runtime'']"

definition finishCommand :: "receipt \<Rightarrow> receipt" where
  "finishCommand r = (if rc_before_files r
     then r\<lparr>rc_phase := Prepared, rc_command := [], rc_before_files := False\<rparr>
     else r\<lparr>rc_phase := CommandFinished\<rparr>)"

section \<open>Canonical JSON\<close>

definition hex_digit :: "nat \<Rightarrow> char" where
  "hex_digit n = char_of (if n < 10 then 48 + n else 87 + n)"

text \<open>
  \<open>encoding/json\<close> escaping of one byte.  Bytes of multi-byte UTF-8 sequences
  pass through; no field of a receipt that the journal accepts holds any.
\<close>

definition json_char :: "char \<Rightarrow> string" where
  \<open>json_char c = (let n = of_char c :: nat in
     if n = 34 then [CHR 0x5C, CHR 0x22]
     else if n = 92 then [CHR 0x5C, CHR 0x5C]
     else if n = 8 then [CHR 0x5C, CHR ''b'']
     else if n = 12 then [CHR 0x5C, CHR ''f'']
     else if n = 10 then [CHR 0x5C, CHR ''n'']
     else if n = 13 then [CHR 0x5C, CHR ''r'']
     else if n = 9 then [CHR 0x5C, CHR ''t'']
     else if n < 32 \<or> n = 38 \<or> n = 60 \<or> n = 62 then
       CHR 0x5C # ''u00'' @ [hex_digit (n div 16), hex_digit (n mod 16)]
     else [c])\<close>

definition json_string :: "string \<Rightarrow> string" where
  \<open>json_string s = CHR 0x22 # concat (map json_char s) @ [CHR 0x22]\<close>

definition json_bool :: "bool \<Rightarrow> string" where
  "json_bool b = (if b then ''true'' else ''false'')"

definition json_field :: "string \<Rightarrow> string \<Rightarrow> string" where
  "json_field name v = json_string name @ '':'' @ v"

fun join_comma :: "string list \<Rightarrow> string" where
  "join_comma [] = []"
| "join_comma [x] = x"
| "join_comma (x # xs) = x @ '','' @ join_comma xs"

definition json_object :: "string list \<Rightarrow> string" where
  "json_object fs = ''{'' @ join_comma fs @ ''}''"

definition json_array :: "string list \<Rightarrow> string" where
  "json_array vs = (if vs = [] then ''null'' else ''['' @ join_comma vs @ '']'')"

text \<open>A field with \<open>omitempty\<close>.\<close>

definition omit_if :: "bool \<Rightarrow> string \<Rightarrow> string list" where
  "omit_if skip v = (if skip then [] else [v])"

fun phase_text :: "phase \<Rightarrow> string" where
  "phase_text Prepared = ''prepared''"
| "phase_text PairedPrepared = ''paired-prepared''"
| "phase_text Installing = ''installing''"
| "phase_text Restoring = ''restoring''"
| "phase_text Installed = ''installed''"
| "phase_text Restored = ''restored''"
| "phase_text Accepted = ''accepted''"
| "phase_text RolledBackLive = ''rolled-back''"
| "phase_text RolledBackStopped = ''rolled-back-stopped''"
| "phase_text Archived = ''archived''"
| "phase_text CommandStarted = ''command-started''"
| "phase_text CommandFinished = ''command-finished''"
| "phase_text (OtherPhase s) = s"

definition file_json :: "file_image \<Rightarrow> string" where
  "file_json f = json_object (
     [json_field ''target'' (json_string (fi_target f)),
      json_field ''old_present'' (json_bool (fi_old_present f))] @
     omit_if (fi_old_hash f = []) (json_field ''old_sha256'' (json_string (fi_old_hash f))) @
     omit_if (fi_old_mode f = 0) (json_field ''old_mode'' (dec (fi_old_mode f))) @
     [json_field ''new_sha256'' (json_string (fi_new_hash f))])"

definition stopped_json :: "stopped_binding \<Rightarrow> string" where
  "stopped_json b = json_object
     [json_field ''installation_id'' (json_string (sb_installation b)),
      json_field ''pre_stop_sequence'' (dec (unat (sb_pre_stop b))),
      json_field ''stop_sequence'' (dec (unat (sb_stop b))),
      json_field ''revision'' (dec (unat (sb_revision b))),
      json_field ''required_reader'' (dec_int (sb_reader b))]"

definition paired_json :: "paired_binding \<Rightarrow> string" where
  "paired_json b = json_object
     [json_field ''manifest_sha256'' (json_string (pb_manifest b)),
      json_field ''prepared_sha256'' (json_string (pb_prepared b)),
      json_field ''review_sha256'' (json_string (pb_review b)),
      json_field ''installation_id'' (json_string (pb_installation b)),
      json_field ''sequence'' (dec (unat (pb_sequence b))),
      json_field ''revision'' (dec (unat (pb_revision b)))]"

definition retirement_json :: "retirement_binding \<Rightarrow> string" where
  "retirement_json b = json_object
     [json_field ''accepted_sha256'' (json_string (rt_accepted b)),
      json_field ''helper_sha256'' (json_string (rt_helper b))]"

definition opt_field :: "string \<Rightarrow> ('a \<Rightarrow> string) \<Rightarrow> 'a option \<Rightarrow> string list" where
  "opt_field name f v = (case v of None \<Rightarrow> [] | Some x \<Rightarrow> [json_field name (f x)])"

definition marshal_receipt :: "receipt \<Rightarrow> string" where
  "marshal_receipt r = json_object (
     [json_field ''schema'' (dec_int (rc_schema r)),
      json_field ''id'' (json_string (rc_id r)),
      json_field ''phase'' (json_string (phase_text (rc_phase r))),
      json_field ''index'' (dec_int (rc_index r))] @
     omit_if (rc_command r = []) (json_field ''command'' (json_string (rc_command r))) @
     omit_if (rc_commands r = []) (json_field ''commands'' (json_array (map json_string (rc_commands r)))) @
     omit_if (\<not> rc_rollback r) (json_field ''rollback'' (json_bool True)) @
     omit_if (\<not> rc_before_files r) (json_field ''before_files'' (json_bool True)) @
     [json_field ''files'' (json_array (map file_json (rc_files r)))] @
     opt_field ''stopped'' stopped_json (rc_stopped r) @
     opt_field ''paired'' paired_json (rc_paired r) @
     opt_field ''retired'' retirement_json (rc_retired r))"

definition receiptSHA :: "(string \<Rightarrow> string) \<Rightarrow> receipt \<Rightarrow> string" where
  "receiptSHA sha r = sha (marshal_receipt r)"

section \<open>Validity\<close>

definition preparedPairReceipt :: "receipt \<Rightarrow> receipt" where
  "preparedPairReceipt r = r\<lparr>rc_schema := Schema, rc_phase := Prepared, rc_index := 0,
     rc_command := [], rc_rollback := False, rc_before_files := False,
     rc_paired := None, rc_retired := None, rc_commands := take 3 (rc_commands r)\<rparr>"

definition mandatory_old :: "file_image \<Rightarrow> bool" where
  "mandatory_old f \<longleftrightarrow>
     \<not> ((fi_target f = bin_target \<or> fi_target f = init_target \<or> fi_target f = config_target) \<and>
        \<not> fi_old_present f)"

fun paired_phase_ok :: "(string \<Rightarrow> string) \<Rightarrow> receipt \<Rightarrow> phase \<Rightarrow> bool" where
  "paired_phase_ok sha r PairedPrepared \<longleftrightarrow>
     rc_index r = 0 \<and> rc_command r = [] \<and> length (rc_commands r) = 3 \<and>
     \<not> rc_before_files r \<and> rc_retired r = None"
| "paired_phase_ok sha r Archived \<longleftrightarrow> (case rc_retired r of None \<Rightarrow> False | Some b \<Rightarrow>
     digest (rt_accepted b) \<and> digest (rt_helper b) \<and>
     rt_accepted b = receiptSHA sha (r\<lparr>rc_phase := Accepted, rc_retired := None\<rparr>))"
| "paired_phase_ok sha r p \<longleftrightarrow> rc_retired r = None \<and>
     (p = Installing \<or> p = Installed \<or> p = CommandStarted \<or> p = CommandFinished \<or> p = Accepted)"

definition validPairedReceipt :: "(string \<Rightarrow> string) \<Rightarrow> receipt \<Rightarrow> bool" where
  "validPairedReceipt sha r \<longleftrightarrow> (case rc_paired r of None \<Rightarrow> False | Some b \<Rightarrow>
     rc_stopped r = None \<and> \<not> rc_rollback r \<and> length (rc_files r) = 6 \<and>
     length (rc_commands r) \<ge> 3 \<and> take 3 (rc_commands r) = before_commands \<and>
     digest (pb_manifest b) \<and> digest (pb_prepared b) \<and> digest (pb_review b) \<and>
     id_pattern (pb_installation b) \<and> pb_sequence b \<noteq> 0 \<and>
     pb_prepared b = receiptSHA sha (preparedPairReceipt r) \<and>
     list_all mandatory_old (rc_files r) \<and> paired_phase_ok sha r (rc_phase r))"

definition validStoppedBinding :: "stopped_binding \<Rightarrow> bool" where
  "validStoppedBinding b \<longleftrightarrow> id_pattern (sb_installation b) \<and> 0 < sb_pre_stop b \<and>
     sb_pre_stop b < - 1 \<and> sb_stop b = sb_pre_stop b + 1 \<and> 0 < sb_revision b \<and>
     sb_reader b = StoppedSchema"

definition schema_ok :: "(string \<Rightarrow> string) \<Rightarrow> receipt \<Rightarrow> bool" where
  "schema_ok sha r \<longleftrightarrow>
     (rc_schema r = 1 \<or> rc_schema r = Schema \<or> rc_schema r = StoppedSchema \<or> rc_schema r = PairedSchema) \<and>
     \<not> (rc_schema r = 1 \<and> rc_before_files r) \<and>
     (if rc_schema r = PairedSchema then validPairedReceipt sha r
      else rc_paired r = None \<and> rc_retired r = None \<and> rc_phase r \<noteq> PairedPrepared \<and> rc_phase r \<noteq> Archived) \<and>
     (if rc_schema r = StoppedSchema then
        rc_phase r = RolledBackStopped \<and> (case rc_stopped r of None \<Rightarrow> False | Some b \<Rightarrow> validStoppedBinding b) \<and>
        length (rc_files r) = 6
      else rc_stopped r = None \<and> rc_phase r \<noteq> RolledBackStopped)"

text \<open>The switch over the phase.\<close>

definition complete :: "receipt \<Rightarrow> bool" where
  "complete r \<longleftrightarrow> rc_index r = int (length (rc_files r))"

definition command_step_ok :: "receipt \<Rightarrow> bool" where
  "command_step_ok r \<longleftrightarrow> command_pattern (rc_command r) \<and>
     (if rc_before_files r
      then rc_index r = 0 \<and> \<not> rc_rollback r \<and> beforeFilesCommand (rc_command r)
      else complete r)"

fun phase_ok :: "receipt \<Rightarrow> phase \<Rightarrow> bool" where
  "phase_ok r Prepared \<longleftrightarrow> rc_index r = 0 \<and> rc_command r = [] \<and> \<not> rc_before_files r \<and>
     \<not> (rc_schema r = 1 \<and> rc_commands r \<noteq> [])"
| "phase_ok r PairedPrepared \<longleftrightarrow> rc_index r = 0 \<and> rc_command r = [] \<and> \<not> rc_before_files r \<and>
     \<not> (rc_schema r = 1 \<and> rc_commands r \<noteq> [])"
| "phase_ok r Installing \<longleftrightarrow> rc_command r = []"
| "phase_ok r Restoring \<longleftrightarrow> rc_command r = []"
| "phase_ok r CommandStarted \<longleftrightarrow> command_step_ok r"
| "phase_ok r CommandFinished \<longleftrightarrow> command_step_ok r"
| "phase_ok r (OtherPhase _) \<longleftrightarrow> False"
| "phase_ok r _ \<longleftrightarrow> complete r \<and> rc_command r = []"

definition commands_ok :: "receipt \<Rightarrow> bool" where
  "commands_ok r \<longleftrightarrow> length (rc_commands r) \<le> 16 \<and>
     list_all command_pattern (rc_commands r) \<and> distinct (rc_commands r) \<and>
     (rc_command r \<noteq> [] \<longrightarrow> rc_command r \<in> set (rc_commands r) \<and> last (rc_commands r) = rc_command r)"

definition direction_ok :: "receipt \<Rightarrow> bool" where
  "direction_ok r \<longleftrightarrow>
     \<not> (rc_phase r \<in> {Restoring, Restored, RolledBackLive, RolledBackStopped} \<and> \<not> rc_rollback r) \<and>
     \<not> (rc_phase r \<in> {Prepared, PairedPrepared, Installing, Installed, Accepted, Archived} \<and> rc_rollback r)"

definition file_ok :: "file_image \<Rightarrow> bool" where
  "file_ok f \<longleftrightarrow> allowedTarget (fi_target f) \<and> digest (fi_new_hash f) \<and>
     (if fi_old_present f then digest (fi_old_hash f) \<and> fi_old_mode f \<le> 511
      else fi_old_hash f = [] \<and> fi_old_mode f = 0)"

definition valid :: "(string \<Rightarrow> string) \<Rightarrow> receipt \<Rightarrow> bool" where
  "valid sha r \<longleftrightarrow>
     schema_ok sha r \<and> id_pattern (rc_id r) \<and>
     rc_files r \<noteq> [] \<and> length (rc_files r) \<le> 6 \<and>
     0 \<le> rc_index r \<and> rc_index r \<le> int (length (rc_files r)) \<and>
     phase_ok r (rc_phase r) \<and>
     (rc_before_files r \<longrightarrow> rc_phase r = CommandStarted) \<and>
     commands_ok r \<and> direction_ok r \<and>
     distinct (map fi_target (rc_files r)) \<and> list_all file_ok (rc_files r)"

end
