(* ===== verification/Update_Journal.thy ===== *)
theory Update_Journal
  imports Update_Receipt
begin

text \<open>
  The store of \<open>internal/selfupdatejournal/journal.go\<close> and its operations.
  The ghost field \<open>st_runs\<close> lists the installer effects that were started.
  The checks \<open>authority\<close>, \<open>quiescence\<close>, \<open>live\<close>, \<open>observe\<close>, the context and
  every system call are interactions with the world: \<open>op_check\<close> when they
  only look, \<open>op_effect\<close> when they write.  Temporary files next to a target
  are created and removed within one step and are not part of the state.
\<close>

section \<open>State\<close>

datatype 'a slot = Missing | Corrupt | Holds 'a
datatype installed = NoFile | Special | FileAt string nat
datatype side = Old | New
datatype su_error = SuPending | SuUnknown | SuMismatch | SuRetired | SuIO

record store =
  st_pointer :: "(int \<times> string) slot"
  st_writer :: "unit slot"
  st_entries :: "(string \<times> bool) list"
  st_receipts :: "string \<Rightarrow> receipt slot"
  st_images :: "string \<times> side \<times> nat \<Rightarrow> string option"
  st_installed :: "string \<Rightarrow> installed"
  st_evidence :: bool
  st_runs :: "(string \<times> string) list"

type_synonym 'a su_op = "(store, su_error, 'a) op"

definition maxFileBytes :: nat where "maxFileBytes = 256 * 2 ^ 20"

text \<open>\<open>info.Mode().Perm()\<close>\<close>

definition perm :: "nat \<Rightarrow> nat" where "perm m = m mod 512"

definition schema_known :: "int \<Rightarrow> bool" where
  "schema_known n \<longleftrightarrow> n = 1 \<or> n = Schema \<or> n = StoppedSchema \<or> n = PairedSchema"

section \<open>Checks, locks and the receipt file\<close>

definition checks :: "unit su_op" where
  "checks = op_seq (op_check SuIO) (op_seq (op_check SuIO) (op_check SuIO))"

text \<open>\<open>openWriter\<close>: create the marker once, or verify it; the kernel lock may be busy.\<close>

definition openWriter :: "bool \<Rightarrow> unit su_op" where
  "openWriter create =
     op_bind (op_get st_writer) (\<lambda>w. case w of
       Missing \<Rightarrow> if \<not> create then op_fail SuIO
         else op_seq (op_effect SuIO (\<lambda>s. s\<lparr>st_writer := Corrupt\<rparr>)) (
              op_seq (op_check SuIO) (
              op_effect SuIO (\<lambda>s. s\<lparr>st_writer := Holds ()\<rparr>)))
     | Corrupt \<Rightarrow> op_fail SuIO
     | Holds _ \<Rightarrow> op_check SuIO)"

definition lockWriter :: "unit su_op" where "lockWriter = openWriter True"
definition lockExistingWriter :: "unit su_op" where "lockExistingWriter = openWriter False"

definition writeReceipt :: "receipt \<Rightarrow> unit su_op" where
  "writeReceipt r = op_effect SuIO (\<lambda>s. s\<lparr>st_receipts := (st_receipts s)(rc_id r := Holds r)\<rparr>)"

definition receiptLimit :: nat where "receiptLimit = 16 * 1024"

definition readReceipt :: "(string \<Rightarrow> string) \<Rightarrow> string \<Rightarrow> receipt su_op" where
  "readReceipt sha rid =
     op_seq (op_check SuIO) (
     op_bind (op_get (\<lambda>s. st_receipts s rid)) (\<lambda>v. case v of
       Missing \<Rightarrow> op_fail SuIO
     | Corrupt \<Rightarrow> op_fail SuMismatch
     | Holds r \<Rightarrow>
         if length (marshal_receipt r) > receiptLimit then op_fail SuIO
         else if \<not> valid sha r \<or> rc_id r \<noteq> rid then op_fail SuMismatch
         else op_return r))"

definition pointer_matches :: "int \<Rightarrow> receipt \<Rightarrow> bool" where
  "pointer_matches n r \<longleftrightarrow> n = rc_schema r \<or>
     n = Schema \<and> (rc_schema r = StoppedSchema \<and> rc_phase r = RolledBackStopped \<or>
                   rc_schema r = PairedSchema \<and> rc_phase r = PairedPrepared)"

definition Current :: "(string \<Rightarrow> string) \<Rightarrow> receipt option su_op" where
  "Current sha =
     op_seq (op_check SuIO) (
     op_bind (op_get st_pointer) (\<lambda>p. case p of
       Missing \<Rightarrow> op_return None
     | Corrupt \<Rightarrow> op_fail SuMismatch
     | Holds (n, rid) \<Rightarrow>
         if \<not> schema_known n \<or> \<not> id_pattern rid then op_fail SuMismatch
         else op_bind (readReceipt sha rid) (\<lambda>r.
           if \<not> pointer_matches n r then op_fail SuMismatch else op_return (Some r))))"

definition matching :: "(string \<Rightarrow> string) \<Rightarrow> string \<Rightarrow> receipt su_op" where
  "matching sha rid = op_bind (Current sha) (\<lambda>c. case c of
       None \<Rightarrow> op_fail SuMismatch
     | Some r \<Rightarrow> if rc_id r \<noteq> rid then op_fail SuMismatch else op_return r)"

section \<open>Hashes of files\<close>

definition image_matches :: "(string \<Rightarrow> string) \<Rightarrow> store \<Rightarrow> string \<Rightarrow> side \<Rightarrow> nat \<Rightarrow> string \<Rightarrow> bool" where
  "image_matches sha s rid v i h = (case st_images s (rid, v, i) of
     None \<Rightarrow> False | Some d \<Rightarrow> length d \<le> maxFileBytes \<and> sha d = h)"

definition verify_image :: "(string \<Rightarrow> string) \<Rightarrow> string \<Rightarrow> side \<Rightarrow> nat \<Rightarrow> string \<Rightarrow> unit su_op" where
  "verify_image sha rid v i h =
     op_seq (op_check SuMismatch) (
     op_bind (op_get (\<lambda>s. image_matches sha s rid v i h)) (\<lambda>b. op_guard b SuMismatch))"

definition verify_entry :: "(string \<Rightarrow> string) \<Rightarrow> receipt \<Rightarrow> nat \<Rightarrow> unit su_op" where
  "verify_entry sha r i = (let f = rc_files r ! i in
     op_seq (verify_image sha (rc_id r) New i (fi_new_hash f))
       (if fi_old_present f then verify_image sha (rc_id r) Old i (fi_old_hash f) else op_return ()))"

definition verifyImages :: "(string \<Rightarrow> string) \<Rightarrow> receipt \<Rightarrow> unit su_op" where
  "verifyImages sha r = op_each (verify_entry sha r) [0..<length (rc_files r)]"

text \<open>\<open>hashFile\<close> of an installed target: the hash and whether the file exists.\<close>

definition hashFile :: "(string \<Rightarrow> string) \<Rightarrow> string \<Rightarrow> (string \<times> bool) su_op" where
  "hashFile sha target =
     op_seq (op_check SuIO) (
     op_bind (op_get (\<lambda>s. st_installed s target)) (\<lambda>f. case f of
       NoFile \<Rightarrow> op_return ([], False)
     | Special \<Rightarrow> op_fail SuMismatch
     | FileAt d m \<Rightarrow> if length d > maxFileBytes then op_fail SuMismatch
         else op_seq (op_check SuMismatch) (op_return (sha d, True))))"

text \<open>
  The evidence reader of a paired store is a callback; without one, or for an
  invalid receipt, a paired receipt is refused.
\<close>

definition verifyPairedEvidence :: "(string \<Rightarrow> string) \<Rightarrow> receipt \<Rightarrow> unit su_op" where
  "verifyPairedEvidence sha r =
     (if rc_schema r \<noteq> PairedSchema then op_return ()
      else op_bind (op_get st_evidence) (\<lambda>e.
        if \<not> e \<or> \<not> valid sha r then op_fail SuMismatch else op_check SuIO))"

section \<open>Prepare\<close>

record candidate =
  cf_target :: string
  cf_absolute :: bool
  cf_content :: installed
  cf_sha :: string

definition snapshot :: "(string \<Rightarrow> string) \<Rightarrow> string \<Rightarrow> string \<times> side \<times> nat \<Rightarrow> string su_op" where
  "snapshot sha d name =
     (if length d > maxFileBytes then op_fail SuMismatch
      else op_bind (op_get (\<lambda>s. st_images s name)) (\<lambda>v.
        if v \<noteq> None then op_fail SuIO
        else op_seq (op_effect SuIO (\<lambda>s. s\<lparr>st_images := (st_images s)(name \<mapsto> d)\<rparr>))
               (op_return (sha d))))"

definition snapshot_old :: "(string \<Rightarrow> string) \<Rightarrow> string \<Rightarrow> nat \<Rightarrow> string \<Rightarrow> (bool \<times> string \<times> nat) su_op" where
  "snapshot_old sha rid i target =
     op_seq (op_check SuIO) (
     op_bind (op_get (\<lambda>s. st_installed s target)) (\<lambda>f. case f of
       NoFile \<Rightarrow> op_return (False, [], 0)
     | Special \<Rightarrow> op_fail SuMismatch
     | FileAt d m \<Rightarrow> op_bind (snapshot sha d (rid, Old, i)) (\<lambda>h. op_return (True, h, perm m))))"

definition snapshot_new :: "(string \<Rightarrow> string) \<Rightarrow> string \<Rightarrow> nat \<Rightarrow> candidate \<Rightarrow> string su_op" where
  "snapshot_new sha rid i f =
     op_seq (op_check SuMismatch) (case cf_content f of
       FileAt d m \<Rightarrow> op_seq (op_check SuIO) (snapshot sha d (rid, New, i))
     | _ \<Rightarrow> op_fail SuMismatch)"

fun prepare_files :: "(string \<Rightarrow> string) \<Rightarrow> string \<Rightarrow> nat \<Rightarrow> candidate list \<Rightarrow> file_image list su_op" where
  "prepare_files sha rid i [] = op_return []"
| "prepare_files sha rid i (f # fs) =
     op_seq checks (
     op_bind (snapshot_old sha rid i (cf_target f)) (\<lambda>(present, h, m).
     op_bind (snapshot_new sha rid i f) (\<lambda>h'.
     if h' \<noteq> cf_sha f then op_fail SuMismatch
     else op_bind (prepare_files sha rid (Suc i) fs) (\<lambda>rest. op_return
       (\<lparr>fi_target = cf_target f, fi_old_present = present, fi_old_hash = h, fi_old_mode = m,
         fi_new_hash = h'\<rparr> # rest)))))"

definition candidates_ok :: "candidate list \<Rightarrow> bool" where
  "candidates_ok files \<longleftrightarrow> distinct (map cf_target files) \<and>
     list_all (\<lambda>f. allowedTarget (cf_target f) \<and> cf_absolute f \<and> digest (cf_sha f)) files"

definition make_directory :: "string \<Rightarrow> unit su_op" where
  "make_directory name =
     op_bind (op_get st_entries) (\<lambda>es.
     if name \<in> fst ` set es then op_fail SuIO
     else op_effect SuIO (\<lambda>s. s\<lparr>st_entries := st_entries s @ [(name, True)]\<rparr>))"

definition writePointer :: "int \<Rightarrow> string \<Rightarrow> unit su_op" where
  "writePointer n rid = op_effect SuIO (\<lambda>s. s\<lparr>st_pointer := Holds (n, rid)\<rparr>)"

definition prepared_receipt :: "string \<Rightarrow> file_image list \<Rightarrow> receipt" where
  "prepared_receipt rid fs = \<lparr>rc_schema = Schema, rc_id = rid, rc_phase = Prepared, rc_index = 0,
     rc_command = [], rc_commands = [], rc_rollback = False, rc_before_files = False, rc_files = fs,
     rc_stopped = None, rc_paired = None, rc_retired = None\<rparr>"

definition Prepare :: "(string \<Rightarrow> string) \<Rightarrow> string \<Rightarrow> candidate list \<Rightarrow> unit su_op" where
  "Prepare sha rid files =
     op_seq lockWriter (
     if \<not> id_pattern rid \<or> files = [] \<or> length files > 6 then op_fail SuMismatch
     else op_bind (Current sha) (\<lambda>c.
     op_seq (case c of None \<Rightarrow> op_return ()
       | Some r \<Rightarrow> if Pending r then op_fail SuPending
           else op_seq (verifyImages sha r) (verifyPairedEvidence sha r)) (
     if \<not> candidates_ok files then op_fail SuMismatch
     else op_seq checks (
          op_seq (make_directory rid) (
          op_bind (prepare_files sha rid 0 files) (\<lambda>fs.
          op_seq (op_check SuIO) (
          op_seq (writeReceipt (prepared_receipt rid fs)) (
          op_seq checks (
          writePointer Schema rid)))))))))"

section \<open>Install and Restore\<close>

definition target_mode :: "string \<Rightarrow> nat" where
  "target_mode t = (if t = bin_target \<or> t = init_target then 493 else 384)"

definition set_installed :: "string \<Rightarrow> installed \<Rightarrow> store \<Rightarrow> store" where
  "set_installed t f s = s\<lparr>st_installed := (st_installed s)(t := f)\<rparr>"

definition copy_image :: "(string \<Rightarrow> string) \<Rightarrow> string \<Rightarrow> string \<times> side \<times> nat \<Rightarrow> string \<Rightarrow> nat \<Rightarrow> unit su_op" where
  "copy_image sha target name expected mode =
     op_seq (op_check SuIO) (
     op_bind (op_get (\<lambda>s. st_images s name)) (\<lambda>v. case v of
       None \<Rightarrow> op_fail SuIO
     | Some d \<Rightarrow>
         if length d > maxFileBytes \<or> sha d \<noteq> expected then op_fail SuMismatch
         else op_seq (op_check SuIO) (
              op_seq checks (
              op_effect SuIO (set_installed target (FileAt d mode))))))"

definition replaceFile :: "(string \<Rightarrow> string) \<Rightarrow> receipt \<Rightarrow> nat \<Rightarrow> bool \<Rightarrow> unit su_op" where
  "replaceFile sha r i rollback = (let f = rc_files r ! i in
     op_bind (hashFile sha (fi_target f)) (\<lambda>(actual, present).
     if \<not> (present = fi_old_present f \<and> actual = fi_old_hash f) \<and>
        \<not> (present \<and> actual = fi_new_hash f)
     then op_fail SuMismatch
     else
       let v = (if rollback then Old else New);
           expected = (if rollback then fi_old_hash f else fi_new_hash f);
           mode = (if rollback then fi_old_mode f else target_mode (fi_target f)) in
       op_seq (if \<not> rollback \<or> fi_old_present f
               then verify_image sha (rc_id r) v i expected else op_return ()) (
       if rollback \<and> \<not> fi_old_present f then
         op_seq checks
           (if present then op_effect SuIO (set_installed (fi_target f) NoFile) else op_check SuIO)
       else copy_image sha (fi_target f) (rc_id r, v, i) expected mode)))"

definition replace_step :: "(string \<Rightarrow> string) \<Rightarrow> receipt \<Rightarrow> bool \<Rightarrow> nat \<Rightarrow> unit su_op" where
  "replace_step sha r rollback i =
     op_seq checks (
     op_seq (writeReceipt (r\<lparr>rc_index := int i\<rparr>)) (
     op_seq (replaceFile sha r i rollback) (
     writeReceipt (r\<lparr>rc_index := int (Suc i)\<rparr>))))"

definition replace_loop :: "(string \<Rightarrow> string) \<Rightarrow> receipt \<Rightarrow> bool \<Rightarrow> unit su_op" where
  "replace_loop sha r rollback =
     op_seq (op_each (replace_step sha r rollback) [nat (rc_index r)..<length (rc_files r)]) (
     writeReceipt (r\<lparr>rc_index := int (length (rc_files r)),
                    rc_phase := (if rollback then Restored else Installed)\<rparr>))"

definition started :: "receipt \<Rightarrow> bool \<Rightarrow> receipt" where
  "started r rollback = r\<lparr>rc_phase := (if rollback then Restoring else Installing), rc_index := 0,
     rc_command := [], rc_rollback := rollback, rc_before_files := False\<rparr>"

definition pairedCurrentReady :: "string \<Rightarrow> unit su_op" where
  "pairedCurrentReady rid =
     op_seq (op_check SuMismatch) (
     op_bind (op_get (\<lambda>s. s)) (\<lambda>s.
     if st_pointer s \<noteq> Holds (PairedSchema, rid) then op_fail SuMismatch
     else op_seq (op_check SuIO) (
       if length (st_entries s) + (if st_writer s = Missing then 0 else 1) + 1 > 257
       then op_fail SuMismatch
       else op_guard (list_all (\<lambda>(name, is_dir). is_dir \<and> id_pattern name) (st_entries s)) SuMismatch)))"

definition replace :: "(string \<Rightarrow> string) \<Rightarrow> string \<Rightarrow> bool \<Rightarrow> unit su_op" where
  "replace sha rid rollback =
     op_seq lockWriter (
     op_bind (matching sha rid) (\<lambda>r.
     if rc_phase r = CommandStarted then op_fail SuUnknown
     else if rc_phase r = Archived \<or> rollback \<and> rc_schema r = PairedSchema then op_fail SuRetired
     else if \<not> Pending r then op_fail SuPending
     else op_seq (verifyImages sha r) (
     op_seq (verifyPairedEvidence sha r) (
     op_seq (if rc_schema r = PairedSchema then pairedCurrentReady (rc_id r) else op_return ()) (
     if \<not> rollback \<and> (rc_phase r \<notin> {Prepared, PairedPrepared, Installing} \<or> rc_rollback r)
     then op_fail SuPending
     else if rc_phase r = (if rollback then Restored else Installed) then op_return ()
     else op_seq checks (
       if rc_phase r \<noteq> (if rollback then Restoring else Installing)
       then op_seq (writeReceipt (started r rollback)) (replace_loop sha (started r rollback) rollback)
       else replace_loop sha r rollback))))))"

definition Install :: "(string \<Rightarrow> string) \<Rightarrow> string \<Rightarrow> unit su_op" where
  "Install sha rid = replace sha rid False"

definition Restore :: "(string \<Rightarrow> string) \<Rightarrow> string \<Rightarrow> unit su_op" where
  "Restore sha rid = replace sha rid True"

section \<open>Commands\<close>

definition before_command :: "receipt \<Rightarrow> string \<Rightarrow> bool" where
  "before_command r c \<longleftrightarrow> rc_phase r = Prepared \<and> rc_schema r = Schema \<and> beforeFilesCommand c"

definition command_ready :: "receipt \<Rightarrow> string \<Rightarrow> bool" where
  "command_ready r c \<longleftrightarrow>
     (before_command r c \<or> rc_phase r = Installed \<or> rc_phase r = Restored \<or> rc_phase r = CommandFinished) \<and>
     command_pattern c \<and> length (rc_commands r) < 16"

definition started_command :: "receipt \<Rightarrow> string \<Rightarrow> receipt" where
  "started_command r c = r\<lparr>rc_phase := CommandStarted, rc_command := c,
     rc_before_files := before_command r c, rc_commands := rc_commands r @ [c]\<rparr>"

definition run_command :: "string \<Rightarrow> string \<Rightarrow> unit su_op" where
  "run_command rid c = op_effect SuIO (\<lambda>s. s\<lparr>st_runs := st_runs s @ [(rid, c)]\<rparr>)"

definition Execute :: "(string \<Rightarrow> string) \<Rightarrow> string \<Rightarrow> string \<Rightarrow> unit su_op" where
  "Execute sha rid c =
     op_seq lockWriter (
     op_bind (matching sha rid) (\<lambda>r.
     if rc_phase r = CommandStarted then op_fail SuUnknown
     else if rc_phase r = Archived then op_fail SuRetired
     else op_seq (verifyPairedEvidence sha r) (
     op_seq (verifyImages sha r) (
     if \<not> command_ready r c then op_fail SuPending
     else if c \<in> set (rc_commands r) then op_fail SuPending
     else op_seq (op_check SuIO) (
          op_seq (op_check SuIO) (
          op_seq (writeReceipt (started_command r c)) (
          op_seq (op_check SuIO) (
          op_seq (op_check SuIO) (
          op_seq (run_command rid c) (
          writeReceipt (finishCommand (started_command r c))))))))))))"

definition ResolveUnknown :: "(string \<Rightarrow> string) \<Rightarrow> string \<Rightarrow> unit su_op" where
  "ResolveUnknown sha rid =
     op_seq lockWriter (
     op_bind (matching sha rid) (\<lambda>r.
     if rc_phase r \<noteq> CommandStarted then op_fail SuPending
     else op_seq (verifyPairedEvidence sha r) (
          op_seq (verifyImages sha r) (
          op_seq checks (
          op_seq (op_check SuIO) (
          op_seq checks (
          writeReceipt (finishCommand r))))))))"

section \<open>Acceptance and observation\<close>

definition expected_hash :: "bool \<Rightarrow> file_image \<Rightarrow> string \<times> bool" where
  "expected_hash rollback f =
     (if rollback then (fi_old_hash f, fi_old_present f) else (fi_new_hash f, True))"

definition expected_mode :: "bool \<Rightarrow> file_image \<Rightarrow> nat" where
  "expected_mode rollback f = (if rollback then fi_old_mode f else target_mode (fi_target f))"

definition installed_mode :: "store \<Rightarrow> string \<Rightarrow> nat" where
  "installed_mode s t = (case st_installed s t of FileAt d m \<Rightarrow> perm m | _ \<Rightarrow> 0)"

definition observe_file :: "su_error \<Rightarrow> (string \<Rightarrow> string) \<Rightarrow> bool \<Rightarrow> file_image \<Rightarrow> unit su_op" where
  "observe_file stat_error sha rollback f =
     op_bind (op_remap (\<lambda>_. SuMismatch) (hashFile sha (fi_target f))) (\<lambda>(actual, present).
     if (actual, present) \<noteq> expected_hash rollback f then op_fail SuMismatch
     else if present then
       op_seq (op_check stat_error) (
       op_bind (op_get (\<lambda>s. installed_mode s (fi_target f))) (\<lambda>m.
       op_guard (m = expected_mode rollback f) SuMismatch))
     else op_return ())"

definition accept_phase_ok :: "bool \<Rightarrow> receipt \<Rightarrow> bool" where
  "accept_phase_ok rollback r \<longleftrightarrow>
     (if rollback then rc_phase r = Restored \<or> rc_phase r = CommandFinished
      else rc_phase r = Installed \<or> rc_phase r = CommandFinished)"

definition accepted_receipt :: "bool \<Rightarrow> receipt \<Rightarrow> receipt" where
  "accepted_receipt rollback r =
     r\<lparr>rc_command := [], rc_phase := (if rollback then RolledBackLive else Accepted)\<rparr>"

definition Accept :: "(string \<Rightarrow> string) \<Rightarrow> string \<Rightarrow> bool \<Rightarrow> unit su_op" where
  "Accept sha rid rollback =
     op_seq lockWriter (
     op_bind (matching sha rid) (\<lambda>r.
     if rc_phase r = CommandStarted then op_fail SuUnknown
     else if rc_phase r = Archived \<or> rollback \<and> rc_schema r = PairedSchema then op_fail SuRetired
     else op_seq (verifyPairedEvidence sha r) (
     op_seq (verifyImages sha r) (
     if rollback \<noteq> rc_rollback r then op_fail SuPending
     else if \<not> accept_phase_ok rollback r then op_fail SuPending
     else op_seq (op_check SuIO) (
          op_seq (op_check SuIO) (
          op_seq (op_check SuIO) (
          op_seq (op_check SuIO) (
          op_seq (op_each (observe_file SuIO sha rollback) (rc_files r)) (
          op_seq (op_check SuIO) (
          op_seq (op_check SuIO) (
          writeReceipt (accepted_receipt rollback r))))))))))))"

definition verifyInstallation :: "(string \<Rightarrow> string) \<Rightarrow> string \<Rightarrow> bool \<Rightarrow> bool \<Rightarrow> unit su_op" where
  "verifyInstallation sha rid rollback final =
     op_bind (matching sha rid) (\<lambda>r.
     if rc_rollback r \<noteq> rollback \<or> \<not> complete r then op_fail SuPending
     else if rollback \<and> rc_schema r = PairedSchema then op_fail SuRetired
     else op_seq (verifyPairedEvidence sha r) (
     if final \<and> Pending r then op_fail SuPending
     else op_seq (verifyImages sha r) (
          op_seq (op_each (\<lambda>f. op_seq (op_check SuIO)
                    (if final \<and> fi_target f = config_target then op_return ()
                     else observe_file SuMismatch sha rollback f)) (rc_files r)) (
          op_check SuIO))))"

definition VerifyInstallation :: "(string \<Rightarrow> string) \<Rightarrow> string \<Rightarrow> bool \<Rightarrow> unit su_op" where
  "VerifyInstallation sha rid rollback = verifyInstallation sha rid rollback False"

definition VerifyTerminalArtifacts :: "(string \<Rightarrow> string) \<Rightarrow> string \<Rightarrow> bool \<Rightarrow> unit su_op" where
  "VerifyTerminalArtifacts sha rid rollback = verifyInstallation sha rid rollback True"

definition RetainedReceipt :: "(string \<Rightarrow> string) \<Rightarrow> string \<Rightarrow> receipt su_op" where
  "RetainedReceipt sha rid =
     (if \<not> id_pattern rid then op_fail SuMismatch
      else op_seq (op_check SuIO) (
        op_bind (readReceipt sha rid) (\<lambda>r.
        op_seq (verifyImages sha r) (
        op_seq (verifyPairedEvidence sha r) (
        op_seq (op_check SuIO) (op_return r))))))"

text \<open>The reviewed files are pairs of target and digest.\<close>

definition reviewed_entry_ok :: "string \<Rightarrow> string \<Rightarrow> string \<Rightarrow> file_image \<Rightarrow> string \<times> string \<Rightarrow> bool" where
  "reviewed_entry_ok oldBinary oldInit oldConfig entry f \<longleftrightarrow>
     (let wanted = (if fst f = bin_target then Some oldBinary
                    else if fst f = init_target then Some oldInit
                    else if fst f = config_target then Some oldConfig else None) in
     fi_target entry = fst f \<and> fi_new_hash entry = snd f \<and>
     (case wanted of None \<Rightarrow> True | Some h \<Rightarrow>
        fi_old_present entry \<and> fi_old_hash entry = h \<and> digest h))"

definition VerifyReviewedImages ::
  "(string \<Rightarrow> string) \<Rightarrow> string \<Rightarrow> (string \<times> string) list \<Rightarrow> string \<Rightarrow> string \<Rightarrow> string \<Rightarrow> unit su_op" where
  "VerifyReviewedImages sha rid files oldBinary oldInit oldConfig =
     op_bind (RetainedReceipt sha rid) (\<lambda>r.
     if length files \<noteq> 6 \<or> length (rc_files r) \<noteq> length files then op_fail SuMismatch
     else if \<not> list_all2 (reviewed_entry_ok oldBinary oldInit oldConfig) (rc_files r) files
     then op_fail SuMismatch
     else op_check SuIO)"

definition configLimit :: nat where "configLimit = 4 * 2 ^ 20"

definition read_image :: "string \<times> side \<times> nat \<Rightarrow> string su_op" where
  "read_image name =
     op_seq (op_check SuIO) (
     op_bind (op_get (\<lambda>s. st_images s name)) (\<lambda>v. case v of
       None \<Rightarrow> op_fail SuIO
     | Some d \<Rightarrow> if length d > configLimit then op_fail SuIO else op_return d))"

text \<open>The last reviewed file that is the configuration.\<close>

fun config_index :: "nat \<Rightarrow> (string \<times> string) list \<Rightarrow> nat option" where
  "config_index i [] = None"
| "config_index i (f # fs) = (case config_index (Suc i) fs of
     Some k \<Rightarrow> Some k | None \<Rightarrow> if fst f = config_target then Some i else None)"

definition ReviewedConfigImages ::
  "(string \<Rightarrow> string) \<Rightarrow> string \<Rightarrow> (string \<times> string) list \<Rightarrow> string \<Rightarrow> string \<Rightarrow> string \<Rightarrow>
   (string \<times> string) su_op" where
  "ReviewedConfigImages sha rid files oldBinary oldInit oldConfig =
     op_seq (VerifyReviewedImages sha rid files oldBinary oldInit oldConfig) (
     case config_index 0 files of
       None \<Rightarrow> op_fail SuMismatch
     | Some i \<Rightarrow>
         op_bind (read_image (rid, Old, i)) (\<lambda>old.
         op_bind (read_image (rid, New, i)) (\<lambda>new.
         if sha old \<noteq> oldConfig \<or> sha new \<noteq> snd (files ! i) then op_fail SuMismatch
         else op_seq (VerifyReviewedImages sha rid files oldBinary oldInit oldConfig)
                (op_return (old, new)))))"

end
