(* ===== verification/Update_Paired.thy ===== *)
theory Update_Paired
  imports Update_Journal
begin

text \<open>
  \<open>stopped.go\<close>, \<open>prior_state.go\<close>, \<open>paired.go\<close> and \<open>binary_images.go\<close> of
  \<open>internal/selfupdatejournal\<close>: settlement of a stopped rollback, the copy of
  the prepared prior state, sealing and retirement of a paired prior state,
  and the inventory of retained binaries.  The trusted callbacks that only
  look or copy elsewhere are interactions; \<open>capture\<close> is the trusted copier
  whose binding is an argument.
\<close>

section \<open>Stopped rollback\<close>

definition stopped_receipt :: "stopped_binding \<Rightarrow> receipt \<Rightarrow> receipt" where
  "stopped_receipt b r = r\<lparr>rc_schema := StoppedSchema, rc_phase := RolledBackStopped,
     rc_command := [], rc_before_files := False, rc_stopped := Some b\<rparr>"

definition stopped_check :: "(string \<Rightarrow> string) \<Rightarrow> string \<Rightarrow> unit su_op" where
  "stopped_check sha rid =
     op_seq checks (
     op_seq (op_check SuIO) (
     op_seq (VerifyInstallation sha rid True) (op_check SuIO)))"

definition SettleStoppedRollback :: "(string \<Rightarrow> string) \<Rightarrow> string \<Rightarrow> stopped_binding \<Rightarrow> unit su_op" where
  "SettleStoppedRollback sha rid b =
     op_seq lockWriter (
     op_bind (matching sha rid) (\<lambda>r.
     if rc_phase r = CommandStarted then op_fail SuUnknown
     else if \<not> validStoppedBinding b \<or> length (rc_files r) \<noteq> 6 \<or> \<not> rc_rollback r \<or> \<not> complete r
     then op_fail SuPending
     else if rc_phase r = RolledBackStopped \<and> rc_stopped r \<noteq> Some b then op_fail SuMismatch
     else if rc_phase r \<noteq> RolledBackStopped \<and>
       (rc_schema r \<noteq> Schema \<or> rc_phase r \<noteq> Restored \<and> rc_phase r \<noteq> CommandFinished)
     then op_fail SuPending
     else op_seq (stopped_check sha rid) (
       op_seq (if rc_phase r \<noteq> RolledBackStopped then writeReceipt (stopped_receipt b r) else op_return ()) (
       op_seq (stopped_check sha rid) (
       op_seq (writePointer StoppedSchema rid) (
       stopped_check sha rid))))))"

section \<open>The prepared prior state\<close>

definition prior_file :: "(string \<Rightarrow> string) \<Rightarrow> file_image \<Rightarrow> unit su_op" where
  "prior_file sha f =
     op_bind (op_remap (\<lambda>_. SuMismatch) (hashFile sha (fi_target f))) (\<lambda>(hash, present).
     if present \<noteq> fi_old_present f \<or> present \<and> hash \<noteq> fi_old_hash f then op_fail SuMismatch
     else if present then
       op_seq (op_check SuMismatch) (
       op_bind (op_get (\<lambda>s. installed_mode s (fi_target f))) (\<lambda>m.
       op_guard (m = fi_old_mode f) SuMismatch))
     else op_return ())"

definition prior_ready :: "receipt \<Rightarrow> bool" where
  "prior_ready r \<longleftrightarrow> rc_schema r = Schema \<and> rc_phase r = Prepared \<and> \<not> rc_rollback r \<and>
     \<not> rc_before_files r \<and> rc_index r = 0 \<and> rc_command r = [] \<and> length (rc_files r) = 6 \<and>
     rc_commands r = before_commands"

definition preparedPriorState :: "(string \<Rightarrow> string) \<Rightarrow> string \<Rightarrow> unit su_op \<Rightarrow> receipt su_op" where
  "preparedPriorState sha rid owner =
     op_bind (matching sha rid) (\<lambda>r.
     if \<not> prior_ready r then op_fail SuMismatch
     else op_seq (verifyImages sha r) (
          op_seq (op_each (prior_file sha) (rc_files r)) (
          op_seq (op_check SuMismatch) (
          op_seq (op_check SuMismatch) (
          op_seq owner (op_return r))))))"

definition WithPreparedPriorState :: "(string \<Rightarrow> string) \<Rightarrow> string \<Rightarrow> unit su_op" where
  "WithPreparedPriorState sha rid =
     (let owner = op_seq (op_check SuIO) (op_seq (op_check SuMismatch) (op_seq (op_check SuIO) (op_check SuIO))) in
     if \<not> id_pattern rid then op_fail SuMismatch
     else op_seq (op_check SuMismatch) (
          op_seq checks (
          op_seq lockExistingWriter (
          op_bind (preparedPriorState sha rid owner) (\<lambda>r.
          op_seq (op_check SuIO) (
          op_bind (preparedPriorState sha rid owner) (\<lambda>fresh.
          if marshal_receipt r \<noteq> marshal_receipt fresh then op_fail SuMismatch
          else op_check SuIO)))))))"

section \<open>Paired prior state\<close>

definition writePairedReceipt :: "(string \<Rightarrow> string) \<Rightarrow> receipt \<Rightarrow> unit su_op \<Rightarrow> unit su_op" where
  "writePairedReceipt sha r prepared =
     (if \<not> valid sha r then op_fail SuMismatch
      else op_seq (op_check SuIO) (op_seq prepared (op_seq (op_check SuIO) (writeReceipt r))))"

definition held_check :: "unit su_op" where
  "held_check = op_seq (op_check SuMismatch) checks"

definition sealed_receipt :: "paired_binding \<Rightarrow> receipt \<Rightarrow> receipt" where
  "sealed_receipt b r = r\<lparr>rc_schema := PairedSchema, rc_phase := PairedPrepared, rc_paired := Some b\<rparr>"

definition SealPairedPriorState ::
  "(string \<Rightarrow> string) \<Rightarrow> string \<Rightarrow> (receipt \<Rightarrow> paired_binding) \<Rightarrow> unit su_op" where
  "SealPairedPriorState sha rid capture =
     (let owner = op_seq (op_check SuIO) (op_seq held_check held_check) in
     op_bind (op_get st_evidence) (\<lambda>e.
     if \<not> e \<or> \<not> id_pattern rid then op_fail SuMismatch
     else op_seq (op_check SuMismatch) (
          op_seq lockExistingWriter (
          op_bind (preparedPriorState sha rid owner) (\<lambda>r.
          op_seq (op_check SuIO) (
          op_bind (op_remap (\<lambda>_. SuMismatch) (preparedPriorState sha rid owner)) (\<lambda>fresh.
          if receiptSHA sha fresh \<noteq> receiptSHA sha r \<or> pb_prepared (capture r) \<noteq> receiptSHA sha r
          then op_fail SuMismatch
          else let r' = sealed_receipt (capture r) r;
                   prepared = op_seq held_check (verifyPairedEvidence sha r') in
          if \<not> valid sha r' then op_fail SuMismatch
          else op_seq (writePairedReceipt sha r' prepared) (
               op_seq (op_check SuIO) (
               op_seq prepared (
               op_seq (op_check SuIO) (
               op_seq (writePointer PairedSchema rid) prepared)))))))))))"

definition archived_receipt :: "(string \<Rightarrow> string) \<Rightarrow> string \<Rightarrow> receipt \<Rightarrow> receipt" where
  "archived_receipt sha helper r =
     r\<lparr>rc_retired := Some \<lparr>rt_accepted = receiptSHA sha r, rt_helper = helper\<rparr>, rc_phase := Archived\<rparr>"

definition retire_check :: "(string \<Rightarrow> string) \<Rightarrow> string \<Rightarrow> receipt \<Rightarrow> unit su_op" where
  "retire_check sha rid r =
     op_seq held_check (op_seq (VerifyInstallation sha rid False) (verifyPairedEvidence sha r))"

definition RetirePairedPriorState :: "(string \<Rightarrow> string) \<Rightarrow> string \<Rightarrow> string \<Rightarrow> unit su_op" where
  "RetirePairedPriorState sha rid helper =
     (if \<not> digest helper \<or> \<not> id_pattern rid then op_fail SuMismatch
      else op_seq (op_check SuMismatch) (
           op_seq lockExistingWriter (
           op_bind (op_remap (\<lambda>_. SuPending) (matching sha rid)) (\<lambda>r.
           if rc_schema r \<noteq> PairedSchema \<or> rc_phase r \<noteq> Accepted \<and> rc_phase r \<noteq> Archived \<or> rc_rollback r
           then op_fail SuPending
           else if rc_phase r = Archived \<and>
             (case rc_retired r of None \<Rightarrow> True | Some b \<Rightarrow> rt_helper b \<noteq> helper)
           then op_fail SuMismatch
           else op_seq (retire_check sha rid r) (
             if rc_phase r = Accepted then
               let r' = archived_receipt sha helper r in
               op_seq (writePairedReceipt sha r' (retire_check sha rid r')) (retire_check sha rid r')
             else retire_check sha rid r)))))"

definition offline_check :: "(string \<Rightarrow> string) \<Rightarrow> string \<Rightarrow> receipt \<Rightarrow> unit su_op" where
  "offline_check sha rid r =
     op_seq (op_check SuMismatch) (
     op_bind (op_remap (\<lambda>_. SuMismatch) (matching sha rid)) (\<lambda>fresh.
     if receiptSHA sha fresh \<noteq> receiptSHA sha r then op_fail SuMismatch
     else op_seq (op_remap (\<lambda>_. SuMismatch) (pairedCurrentReady rid)) (
          op_seq (verifyImages sha fresh) checks)))"

text \<open>\<open>restore\<close> copies the offline pair; it may change installed files, nothing of the journal.\<close>

definition WithPairedOfflineRestore ::
  "(string \<Rightarrow> string) \<Rightarrow> string \<Rightarrow> (receipt \<Rightarrow> (string \<Rightarrow> installed) \<Rightarrow> string \<Rightarrow> installed) \<Rightarrow> unit su_op" where
  "WithPairedOfflineRestore sha rid restore =
     op_bind (op_get st_evidence) (\<lambda>e.
     if \<not> e \<or> \<not> id_pattern rid then op_fail SuMismatch
     else op_seq (op_check SuMismatch) (
          op_seq checks (
          op_seq lockExistingWriter (
          op_bind (op_remap (\<lambda>_. SuMismatch) (matching sha rid)) (\<lambda>r.
          if rc_schema r \<noteq> PairedSchema \<or> rc_phase r = CommandStarted then op_fail SuMismatch
          else op_seq (op_remap (\<lambda>_. SuMismatch) (pairedCurrentReady rid)) (
               op_seq (offline_check sha rid r) (
               op_seq (verifyPairedEvidence sha r) (
               op_seq (op_effect SuIO (\<lambda>s. s\<lparr>st_installed := restore r (st_installed s)\<rparr>)) (
               offline_check sha rid r)))))))))"

section \<open>The inventory of retained binaries\<close>

text \<open>
  The scan of the journal directory.  The file system chooses the order of
  the entries; the model visits the writer marker and the pointer first.
\<close>

definition binary_entries :: "receipt \<Rightarrow> (nat \<times> file_image) list" where
  "binary_entries r = filter (\<lambda>(i, f). fi_target f = bin_target)
     (zip [0..<length (rc_files r)] (rc_files r))"

definition binary_images :: "receipt \<Rightarrow> (string \<times> string) list" where
  "binary_images r =
     (if rc_phase r = Archived then []
      else concat (map (\<lambda>(i, f).
        (if fi_old_present f then [(rc_id r @ ''/old-'' @ dec i, fi_old_hash f)] else []) @
        [(rc_id r @ ''/new-'' @ dec i, fi_new_hash f)]) (binary_entries r)))"

definition scan_entry ::
  "(string \<Rightarrow> string) \<Rightarrow> receipt option \<Rightarrow> string \<Rightarrow> bool \<Rightarrow> string \<times> bool \<Rightarrow> receipt su_op" where
  "scan_entry sha current pendingID scan e =
     op_seq (op_check SuIO) (
     if \<not> snd e \<or> \<not> id_pattern (fst e) then op_fail SuMismatch
     else op_bind (readReceipt sha (fst e)) (\<lambda>r.
       if Pending r \<and> \<not> scan \<and>
          \<not> (rc_id r = pendingID \<and> (case current of None \<Rightarrow> False | Some c \<Rightarrow> rc_id c = rc_id r))
       then op_fail SuPending
       else op_seq (verifyImages sha r) (
            op_seq (verifyPairedEvidence sha r) (
            if length (binary_entries r) \<noteq> 1 then op_fail SuMismatch else op_return r))))"

fun scan_entries ::
  "(string \<Rightarrow> string) \<Rightarrow> receipt option \<Rightarrow> string \<Rightarrow> bool \<Rightarrow> (string \<times> bool) list \<Rightarrow> receipt list su_op" where
  "scan_entries sha current pendingID scan [] = op_return []"
| "scan_entries sha current pendingID scan (e # es) =
     op_bind (scan_entry sha current pendingID scan e) (\<lambda>r.
     op_bind (scan_entries sha current pendingID scan es) (\<lambda>rs. op_return (r # rs)))"

definition max_schema :: "receipt list \<Rightarrow> int" where
  "max_schema rs = fold (\<lambda>r m. if rc_schema r > m then rc_schema r else m) rs 1"

definition retainedBinaryImages ::
  "(string \<Rightarrow> string) \<Rightarrow> string \<Rightarrow> bool \<Rightarrow> ((string \<times> string) list \<times> int) su_op" where
  "retainedBinaryImages sha pendingID scan =
     op_bind (Current sha) (\<lambda>current.
     op_seq (op_check SuIO) (
     op_bind (op_get (\<lambda>s. s)) (\<lambda>s.
     if length (st_entries s) + (if st_writer s = Missing then 0 else 1) +
        (if st_pointer s = Missing then 0 else 1) > 257
     then op_fail SuMismatch
     else if st_writer s = Corrupt then op_fail SuMismatch
     else op_seq (op_check SuMismatch) (
          op_bind (scan_entries sha current pendingID scan (st_entries s)) (\<lambda>rs.
          if (case current of None \<Rightarrow> False | Some c \<Rightarrow>
                rc_id c \<notin> rc_id ` set rs \<or> Pending c \<and> \<not> scan \<and> rc_id c \<noteq> pendingID) \<or>
             rs \<noteq> [] \<and> (current = None \<or> st_writer s \<noteq> Holds ())
          then op_fail SuPending
          else op_seq (op_check SuIO) (op_return (concat (map binary_images rs), max_schema rs)))))))"

definition RetainedBinaryImages :: "(string \<Rightarrow> string) \<Rightarrow> (string \<times> string) list su_op" where
  "RetainedBinaryImages sha =
     op_bind (retainedBinaryImages sha [] False) (\<lambda>(images, _). op_return images)"

definition RetainedBinaryImagesForSettlement ::
  "(string \<Rightarrow> string) \<Rightarrow> string \<Rightarrow> (string \<times> string) list su_op" where
  "RetainedBinaryImagesForSettlement sha rid =
     (if \<not> id_pattern rid then op_fail SuMismatch
      else op_bind (retainedBinaryImages sha rid False) (\<lambda>(images, _). op_return images))"

definition RequiredReadVersion :: "(string \<Rightarrow> string) \<Rightarrow> int su_op" where
  "RequiredReadVersion sha =
     op_bind (retainedBinaryImages sha [] True) (\<lambda>(_, required). op_return required)"

end
