(* ===== verification/Update_Invariant.thy ===== *)
theory Update_Invariant
  imports Update_Paired
begin

text \<open>
  The invariant of the self-update journal and the relation between the store
  before and after an operation: receipts stay valid and grow only by
  commands, images and receipts are never lost or replaced, and every started
  command is recorded in its receipt before it runs.
\<close>

section \<open>Receipts after a step\<close>

definition receipt_ok :: "(string \<Rightarrow> string) \<Rightarrow> receipt \<Rightarrow> bool" where
  "receipt_ok sha r \<longleftrightarrow> valid sha r \<and> (rc_before_files r \<longrightarrow> rc_schema r = Schema)"

lemmas valid_defs = valid_def schema_ok_def commands_ok_def direction_ok_def validPairedReceipt_def
  command_step_ok_def complete_def preparedPairReceipt_def

definition later_receipt :: "receipt \<Rightarrow> receipt \<Rightarrow> bool" where
  "later_receipt r r' \<longleftrightarrow> rc_id r' = rc_id r \<and> rc_files r' = rc_files r \<and>
     (\<exists>cs. rc_commands r' = rc_commands r @ cs)"

lemma later_refl [simp]: "later_receipt r r"
  by (simp add: later_receipt_def)

lemma later_trans: "later_receipt r r' \<Longrightarrow> later_receipt r' r'' \<Longrightarrow> later_receipt r r''"
  by (auto simp: later_receipt_def)

lemma paired_phases:
  "paired_phase_ok sha r p \<Longrightarrow> p \<in> {PairedPrepared, Installing, Installed, CommandStarted, CommandFinished, Accepted, Archived}"
  by (cases p) auto

lemma prepared_ok:
  assumes "id_pattern rid" "fs \<noteq> []" "length fs \<le> 6" "distinct (map fi_target fs)" "list_all file_ok fs"
  shows "receipt_ok sha (prepared_receipt rid fs)"
  using assms by (simp add: receipt_ok_def prepared_receipt_def valid_defs schema_defs)

lemma paired_retired: "paired_phase_ok sha r p \<Longrightarrow> p \<noteq> Archived \<Longrightarrow> rc_retired r = None"
  by (cases p) auto

text \<open>What every receipt of a paired schema carries whatever its phase.\<close>

definition paired_core :: "(string \<Rightarrow> string) \<Rightarrow> receipt \<Rightarrow> bool" where
  "paired_core sha r \<longleftrightarrow> validPairedReceipt sha (r\<lparr>rc_phase := Installing, rc_retired := None\<rparr>)"

lemma validPaired_core:
  "validPairedReceipt sha r \<longleftrightarrow> paired_core sha r \<and> paired_phase_ok sha r (rc_phase r)"
  by (auto simp: paired_core_def validPairedReceipt_def preparedPairReceipt_def split: option.splits)

lemma paired_core_more:
  assumes "paired_core sha r"
  shows "paired_core sha (r\<lparr>rc_index := i\<rparr>)" "paired_core sha (r\<lparr>rc_phase := p\<rparr>)"
    "paired_core sha (r\<lparr>rc_command := c\<rparr>)" "paired_core sha (r\<lparr>rc_before_files := bf\<rparr>)"
    "paired_core sha (r\<lparr>rc_rollback := False\<rparr>)" "paired_core sha (r\<lparr>rc_retired := x\<rparr>)"
    "rc_commands r = xs \<Longrightarrow> paired_core sha (r\<lparr>rc_commands := xs @ cs\<rparr>)"
  using assms
  by (auto simp: paired_core_def validPairedReceipt_def preparedPairReceipt_def split: option.splits)

lemma paired_core_facts:
  "paired_core sha r \<Longrightarrow> \<not> rc_rollback r \<and> rc_stopped r = None \<and> take 3 (rc_commands r) = before_commands"
  by (auto simp: paired_core_def validPairedReceipt_def split: option.splits)

lemmas shape_defs = valid_def schema_ok_def commands_ok_def direction_ok_def command_step_ok_def
  complete_def schema_defs receipt_ok_def

lemma not_paired_schema: "valid sha r \<Longrightarrow> rc_schema r \<noteq> PairedSchema \<Longrightarrow>
    rc_paired r = None \<and> rc_retired r = None \<and> rc_phase r \<noteq> PairedPrepared \<and> rc_phase r \<noteq> Archived"
  by (simp add: valid_def schema_ok_def)

lemma started_ok:
  assumes "receipt_ok sha r" "Pending r" "\<not> (rollback \<and> rc_schema r = PairedSchema)"
  shows "receipt_ok sha (started r rollback)"
proof (cases "rc_schema r = PairedSchema")
  case True
  with assms have v: "valid sha r" "paired_core sha r" "paired_phase_ok sha r (rc_phase r)" "\<not> rollback"
    by (auto simp: receipt_ok_def valid_def schema_ok_def validPaired_core)
  then have "rc_retired r = None" "\<not> rc_rollback r"
    using assms(2) paired_core_facts by (auto simp: Pending_def dest: paired_retired)
  moreover have "paired_core sha (started r False)"
    unfolding started_def using v(2) by (simp add: paired_core_more)
  ultimately show ?thesis
    using v True by (auto simp: shape_defs started_def validPaired_core)
next
  case False
  with assms show ?thesis
    by (cases rollback) (auto simp: shape_defs started_def Pending_def split: if_splits)
qed

lemma paired_facts:
  assumes "valid sha r" "rc_schema r = PairedSchema"
  shows "paired_core sha r" "paired_phase_ok sha r (rc_phase r)"
  using assms by (auto simp: valid_def schema_ok_def validPaired_core)

lemma replacing_ok:
  assumes "receipt_ok sha r" "rc_phase r = Installing \<or> rc_phase r = Restoring" "i \<le> length (rc_files r)"
  shows "receipt_ok sha (r\<lparr>rc_index := int i\<rparr>)"
proof (cases "rc_schema r = PairedSchema")
  case True
  with assms paired_facts [of sha r] have "paired_core sha r" "paired_phase_ok sha r (rc_phase r)"
    by (auto simp: receipt_ok_def)
  then have "paired_core sha (r\<lparr>rc_index := int i\<rparr>)" "rc_retired r = None" "rc_phase r = Installing"
    using assms(2) by (auto simp: paired_core_more dest: paired_retired paired_phases)
  then show ?thesis using True assms by (auto simp: shape_defs validPaired_core)
next
  case False
  with assms show ?thesis by (auto simp: shape_defs split: if_splits)
qed

lemma replaced_ok:
  assumes "receipt_ok sha r" "rc_phase r = (if rollback then Restoring else Installing)"
  shows "receipt_ok sha (r\<lparr>rc_index := int (length (rc_files r)),
     rc_phase := (if rollback then Restored else Installed)\<rparr>)"
proof (cases "rc_schema r = PairedSchema")
  case True
  with assms paired_facts [of sha r] have c: "paired_core sha r" "paired_phase_ok sha r (rc_phase r)"
    by (auto simp: receipt_ok_def)
  then have "rc_phase r = Installing" "rc_retired r = None"
    using assms(2) by (auto simp: dest: paired_retired paired_phases split: if_splits)
  with c True assms show ?thesis
    by (auto simp: shape_defs validPaired_core paired_core_more split: if_splits)
next
  case False
  with assms show ?thesis by (auto simp: shape_defs split: if_splits)
qed

lemma started_command_ok:
  assumes "receipt_ok sha r" "command_ready r c" "c \<notin> set (rc_commands r)"
  shows "receipt_ok sha (started_command r c)"
proof (cases "rc_schema r = PairedSchema")
  case True
  with assms(1) paired_facts [of sha r] have c: "paired_core sha r" "paired_phase_ok sha r (rc_phase r)"
    by (auto simp: receipt_ok_def)
  then have "rc_retired r = None"
    using assms(2) by (auto simp: command_ready_def before_command_def dest: paired_retired paired_phases)
  moreover have "paired_core sha (started_command r c)"
    unfolding started_command_def using c(1)
    by (simp add: paired_core_more)
  ultimately show ?thesis
    using True assms
    by (auto simp: shape_defs validPaired_core started_command_def command_ready_def before_command_def
        command_pattern_def)
next
  case False
  with assms show ?thesis
    by (auto simp: shape_defs started_command_def command_ready_def before_command_def split: if_splits)
qed

lemma finishCommand_ok:
  assumes "receipt_ok sha r" "rc_phase r = CommandStarted"
  shows "receipt_ok sha (finishCommand r)"
proof (cases "rc_schema r = PairedSchema")
  case True
  with assms(1) paired_facts [of sha r] have c: "paired_core sha r" "paired_phase_ok sha r (rc_phase r)"
    by (auto simp: receipt_ok_def)
  then have "rc_retired r = None" "\<not> rc_before_files r"
    using assms True by (auto simp: receipt_ok_def schema_defs dest: paired_retired)
  with c True assms show ?thesis
    by (auto simp: shape_defs validPaired_core finishCommand_def paired_core_more)
next
  case False
  with assms show ?thesis
    by (auto simp: shape_defs finishCommand_def split: if_splits)
qed

lemma accepted_ok:
  assumes "receipt_ok sha r" "accept_phase_ok rollback r" "rollback = rc_rollback r"
    "\<not> (rollback \<and> rc_schema r = PairedSchema)"
  shows "receipt_ok sha (accepted_receipt rollback r)"
proof (cases "rc_schema r = PairedSchema")
  case True
  with assms paired_facts [of sha r] have c: "paired_core sha r" "paired_phase_ok sha r (rc_phase r)"
    by (auto simp: receipt_ok_def)
  then have "rc_retired r = None"
    using assms by (auto simp: accept_phase_ok_def dest: paired_retired split: if_splits)
  with c True assms show ?thesis
    by (auto simp: shape_defs validPaired_core accepted_receipt_def accept_phase_ok_def paired_core_more split: if_splits)
next
  case False
  with assms show ?thesis
    by (auto simp: shape_defs accepted_receipt_def accept_phase_ok_def split: if_splits)
qed

lemma stopped_ok:
  assumes "receipt_ok sha r" "validStoppedBinding b" "length (rc_files r) = 6" "rc_rollback r" "complete r"
    "rc_schema r = Schema" "rc_phase r = Restored \<or> rc_phase r = CommandFinished"
  shows "receipt_ok sha (stopped_receipt b r)"
  using assms by (auto simp: shape_defs stopped_receipt_def split: if_splits)

lemma valid_receipt_ok:
  "valid sha r \<Longrightarrow> \<not> rc_before_files r \<Longrightarrow> receipt_ok sha r"
  by (simp add: receipt_ok_def)

lemma later_steps [simp]:
  "later_receipt r (started r b)" "later_receipt r (r\<lparr>rc_index := i\<rparr>)"
  "later_receipt r (r\<lparr>rc_index := i, rc_phase := p\<rparr>)" "later_receipt r (started_command r c)"
  "later_receipt r (finishCommand r)" "later_receipt r (accepted_receipt b r)"
  "later_receipt r (stopped_receipt sb r)" "later_receipt r (sealed_receipt pb r)"
  "later_receipt r (archived_receipt sha h r)"
  by (simp_all add: later_receipt_def started_def started_command_def finishCommand_def
      accepted_receipt_def stopped_receipt_def sealed_receipt_def archived_receipt_def)

section \<open>The store\<close>

definition receipts_ok :: "(string \<Rightarrow> string) \<Rightarrow> store \<Rightarrow> bool" where
  "receipts_ok sha s \<longleftrightarrow> (\<forall>rid r. st_receipts s rid = Holds r \<longrightarrow> receipt_ok sha r \<and> rc_id r = rid)"

definition runs_recorded :: "store \<Rightarrow> bool" where
  "runs_recorded s \<longleftrightarrow> distinct (st_runs s) \<and>
     (\<forall>(rid, c) \<in> set (st_runs s). \<exists>r. st_receipts s rid = Holds r \<and> c \<in> set (rc_commands r))"

definition directories_ok :: "store \<Rightarrow> bool" where
  "directories_ok s \<longleftrightarrow> (\<forall>rid. st_receipts s rid \<noteq> Missing \<longrightarrow> rid \<in> fst ` set (st_entries s)) \<and>
     (\<forall>rid v i. st_images s (rid, v, i) \<noteq> None \<longrightarrow> rid \<in> fst ` set (st_entries s))"

definition su_inv :: "(string \<Rightarrow> string) \<Rightarrow> store \<Rightarrow> bool" where
  "su_inv sha s \<longleftrightarrow> receipts_ok sha s \<and> runs_recorded s \<and> directories_ok s"

definition retains :: "store \<Rightarrow> store \<Rightarrow> bool" where
  "retains s s' \<longleftrightarrow> (\<forall>n d. st_images s n = Some d \<longrightarrow> st_images s' n = Some d) \<and>
     (\<forall>rid r. st_receipts s rid = Holds r \<longrightarrow> (\<exists>r'. st_receipts s' rid = Holds r' \<and> later_receipt r r'))"

definition evolves :: "(string \<Rightarrow> string) \<Rightarrow> store \<Rightarrow> store \<Rightarrow> bool" where
  "evolves sha s s' \<longleftrightarrow> (su_inv sha s \<longrightarrow> su_inv sha s' \<and> retains s s')"

lemma retains_refl [simp]: "retains s s"
  by (simp add: retains_def)

lemma retains_trans: "retains s s' \<Longrightarrow> retains s' s'' \<Longrightarrow> retains s s''"
  unfolding retains_def by (blast intro: later_trans)

interpretation ev: kept_relation "evolves sha" for sha
  by unfold_locales (auto simp: evolves_def intro: retains_trans)

text \<open>Steps that touch neither receipts nor images nor the log.\<close>

definition same_journal :: "store \<Rightarrow> store \<Rightarrow> bool" where
  "same_journal s s' \<longleftrightarrow> st_receipts s' = st_receipts s \<and> st_images s' = st_images s \<and>
     st_runs s' = st_runs s \<and> st_entries s' = st_entries s"

lemma same_evolves: "same_journal s s' \<Longrightarrow> evolves sha s s'"
  by (simp add: same_journal_def evolves_def su_inv_def receipts_ok_def runs_recorded_def
      directories_ok_def retains_def)

interpretation sj: kept_relation same_journal
  by unfold_locales (auto simp: same_journal_def)

lemma keeps_same_evolves: "keeps same_journal m \<Longrightarrow> keeps (evolves sha) m"
  unfolding keeps_def by (blast intro: wp_mono same_evolves)

lemma sj_lock: "keeps same_journal lockWriter" "keeps same_journal lockExistingWriter"
  unfolding lockWriter_def lockExistingWriter_def openWriter_def
  by (intro sj.rules, auto split: slot.split intro!: sj.rules sj.effect simp: same_journal_def)+

lemma sj_pointer: "keeps same_journal (writePointer n rid)"
  unfolding writePointer_def by (intro sj.effect) (simp add: same_journal_def)

lemma sj_checks: "keeps same_journal checks" "keeps same_journal held_check"
  unfolding checks_def held_check_def by (intro sj.rules)+

text \<open>Operations that only read.\<close>

interpretation eq: kept_relation "(=) :: store \<Rightarrow> store \<Rightarrow> bool"
  by unfold_locales auto

lemma keeps_eq: "keeps (=) m \<Longrightarrow> wp m (\<lambda>_ s'. s' = s) (\<lambda>_ s'. s' = s) s"
  unfolding keeps_def by (metis (mono_tags, lifting) wp_mono)

lemma keeps_eq_R: "keeps (=) m \<Longrightarrow> (\<And>s. R s s) \<Longrightarrow> keeps R m"
  unfolding keeps_def by (metis (mono_tags, lifting) wp_mono)

lemma eq_checks: "keeps (=) checks" "keeps (=) held_check"
  unfolding checks_def held_check_def by (intro eq.rules)+

lemma eq_readReceipt: "keeps (=) (readReceipt sha rid)"
  unfolding readReceipt_def by (intro eq.rules) (auto split: slot.split intro!: eq.rules)

lemma eq_Current: "keeps (=) (Current sha)"
  unfolding Current_def by (intro eq.rules) (auto split: slot.split prod.split intro!: eq.rules eq_readReceipt)

lemma eq_matching: "keeps (=) (matching sha rid)"
  unfolding matching_def by (intro eq.rules eq_Current) (auto split: option.split intro!: eq.rules)

lemma eq_verifyImages: "keeps (=) (verifyImages sha r)"
  unfolding verifyImages_def verify_entry_def verify_image_def Let_def by (intro eq.rules eq.each)

lemma eq_evidence: "keeps (=) (verifyPairedEvidence sha r)"
  unfolding verifyPairedEvidence_def by (intro eq.rules)

lemma eq_hashFile: "keeps (=) (hashFile sha t)"
  unfolding hashFile_def by (intro eq.rules) (auto split: installed.split intro!: eq.rules)

lemma eq_observe: "keeps (=) (observe_file e sha rollback f)"
  unfolding observe_file_def by (intro eq.rules eq_hashFile) (auto split: prod.split intro!: eq.rules)

lemma eq_ready: "keeps (=) (pairedCurrentReady rid)"
  unfolding pairedCurrentReady_def by (intro eq.rules)

lemmas eq_reads = eq_checks eq_readReceipt eq_Current eq_matching eq_verifyImages eq_evidence
  eq_hashFile eq_observe eq_ready

lemma eq_verifyInstallation: "keeps (=) (verifyInstallation sha rid rollback final)"
  unfolding verifyInstallation_def by (intro eq.rules eq.each eq_reads)

lemma eq_Retained: "keeps (=) (RetainedReceipt sha rid)"
  unfolding RetainedReceipt_def by (intro eq.rules eq_reads)

lemma eq_Reviewed: "keeps (=) (VerifyReviewedImages sha rid files ob oi oc)"
  unfolding VerifyReviewedImages_def by (intro eq.rules eq_Retained)

lemma eq_ReviewedConfig: "keeps (=) (ReviewedConfigImages sha rid files ob oi oc)"
  unfolding ReviewedConfigImages_def read_image_def
  by (intro eq.rules eq_Reviewed) (auto split: option.split intro!: eq.rules eq_Reviewed)

lemma eq_preparedPriorState: "keeps (=) owner \<Longrightarrow> keeps (=) (preparedPriorState sha rid owner)"
  unfolding preparedPriorState_def prior_file_def
  by (intro eq.rules eq.each eq_reads) (auto split: prod.split intro!: eq.rules)

lemma eq_scan_entries: "keeps (=) (scan_entries sha cur pend scan es)"
  by (induction es) (auto simp: scan_entry_def intro!: eq.rules eq_reads)

lemma eq_inventory: "keeps (=) (retainedBinaryImages sha pend scan)"
  unfolding retainedBinaryImages_def by (intro eq.rules eq_reads eq_scan_entries)

lemma readReceipt_wp:
  "wp (readReceipt sha rid)
     (\<lambda>r s'. s' = s \<and> st_receipts s rid = Holds r \<and> valid sha r \<and> rc_id r = rid) (\<lambda>_ s'. s' = s) s"
  unfolding readReceipt_def
  by (rule wp_seq, rule wp_check, rule wp_bind, rule wp_get)
    (auto split: slot.split intro: wp_fail wp_return)

lemma Current_wp:
  "wp (Current sha)
     (\<lambda>c s'. s' = s \<and> (case c of None \<Rightarrow> st_pointer s = Missing
        | Some r \<Rightarrow> st_receipts s (rc_id r) = Holds r \<and> valid sha r \<and>
            (\<exists>n. st_pointer s = Holds (n, rc_id r) \<and> pointer_matches n r)))
     (\<lambda>_ s'. s' = s) s"
  unfolding Current_def
  by (rule wp_seq, rule wp_check, rule wp_bind, rule wp_get)
    (auto split: slot.split prod.split intro!: wp_fail wp_return wp_call [OF readReceipt_wp])

lemma matching_wp:
  "wp (matching sha rid)
     (\<lambda>r s'. s' = s \<and> st_receipts s rid = Holds r \<and> valid sha r \<and> rc_id r = rid \<and>
        (\<exists>n. st_pointer s = Holds (n, rid) \<and> pointer_matches n r))
     (\<lambda>_ s'. s' = s) s"
  unfolding matching_def
  by (rule wp_call [OF Current_wp]) (auto split: option.splits intro: wp_fail wp_return)

section \<open>Every operation keeps the invariant\<close>

text \<open>\<open>holding s0 r s\<close>: since \<open>s0\<close> the store evolved to \<open>s\<close>, whose receipt is \<open>r\<close>.\<close>

definition holding :: "(string \<Rightarrow> string) \<Rightarrow> store \<Rightarrow> receipt \<Rightarrow> store \<Rightarrow> bool" where
  "holding sha s0 r s \<longleftrightarrow> evolves sha s0 s \<and> su_inv sha s \<and> st_receipts s (rc_id r) = Holds r"

lemma holding_ok: "holding sha s0 r s \<Longrightarrow> receipt_ok sha r"
  by (auto simp: holding_def su_inv_def receipts_ok_def)

lemma evolves_write:
  assumes "su_inv sha s" "st_receipts s (rc_id r) = Holds r" "later_receipt r r'" "receipt_ok sha r'"
  shows "su_inv sha (s\<lparr>st_receipts := (st_receipts s)(rc_id r' := Holds r')\<rparr>)"
    "retains s (s\<lparr>st_receipts := (st_receipts s)(rc_id r' := Holds r')\<rparr>)"
proof -
  have rid: "rc_id r' = rc_id r" and cs: "set (rc_commands r) \<subseteq> set (rc_commands r')"
    using assms(3) by (auto simp: later_receipt_def)
  let ?s' = "s\<lparr>st_receipts := (st_receipts s)(rc_id r' := Holds r')\<rparr>"
  have "receipts_ok sha ?s'"
    using assms(1,4) by (simp add: su_inv_def receipts_ok_def)
  moreover have "directories_ok ?s'"
  proof -
    have "rc_id r' \<in> fst ` set (st_entries s)"
      using assms(1,2) rid unfolding su_inv_def directories_ok_def by (metis slot.distinct(3))
    then show ?thesis using assms(1) by (simp add: su_inv_def directories_ok_def)
  qed
  moreover have "runs_recorded ?s'"
    unfolding runs_recorded_def
  proof (intro conjI ballI, goal_cases)
    case 1
    then show ?case using assms(1) by (simp add: su_inv_def runs_recorded_def)
  next
    case (2 p)
    then obtain q where "st_receipts s (fst p) = Holds q" "snd p \<in> set (rc_commands q)"
      using assms(1) by (auto simp: su_inv_def runs_recorded_def)
    then show ?case using assms(2) rid cs by (cases "fst p = rc_id r") (auto split: prod.splits)
  qed
  ultimately show "su_inv sha ?s'" by (simp add: su_inv_def)
  show "retains s ?s'"
    using assms(2,3) rid by (auto simp: retains_def)
qed

lemma writeReceipt_wp:
  assumes "holding sha s0 r s" "later_receipt r r'" "receipt_ok sha r'"
  shows "wp (writeReceipt r') (\<lambda>_. holding sha s0 r') (\<lambda>_. evolves sha s0) s"
proof -
  let ?s' = "s\<lparr>st_receipts := (st_receipts s)(rc_id r' := Holds r')\<rparr>"
  have "evolves sha s ?s'"
    using evolves_write assms by (auto simp: holding_def evolves_def)
  then have "evolves sha s0 ?s'" using assms(1) ev.R_trans by (auto simp: holding_def)
  moreover have "su_inv sha ?s'" using evolves_write assms by (auto simp: holding_def)
  ultimately show ?thesis
    unfolding writeReceipt_def using assms(1)
    by (intro wp_effect) (auto simp: holding_def)
qed

lemma read_only_wp: "keeps (=) m \<Longrightarrow> holding sha s0 r s \<Longrightarrow>
    wp m (\<lambda>_. holding sha s0 r) (\<lambda>_. evolves sha s0) s"
  by (rule wp_mono [OF keeps_eq]) (auto simp: holding_def)

lemma same_journal_wp: "keeps same_journal m \<Longrightarrow> holding sha s0 r s \<Longrightarrow>
    wp m (\<lambda>_. holding sha s0 r) (\<lambda>_. evolves sha s0) s"
proof -
  assume m: "keeps same_journal m" and h: "holding sha s0 r s"
  have "wp m (\<lambda>_. same_journal s) (\<lambda>_. same_journal s) s" using m by (simp add: keeps_def)
  then show ?thesis
  proof (rule wp_mono)
    fix s' assume "same_journal s s'"
    moreover from this have "evolves sha s s'" by (rule same_evolves)
    ultimately show "holding sha s0 r s'"
      using h ev.R_trans by (auto simp: holding_def evolves_def same_journal_def)
    then show "evolves sha s0 s'" by (simp add: holding_def)
  qed
qed

lemma holding_evolves: "holding sha s0 r s \<Longrightarrow> evolves sha s0 s"
  by (simp add: holding_def)

abbreviation evw :: "(string \<Rightarrow> string) \<Rightarrow> store \<Rightarrow> 'a su_op \<Rightarrow> store \<Rightarrow> bool" where
  "evw sha s0 m s \<equiv> wp m (\<lambda>_. evolves sha s0) (\<lambda>_. evolves sha s0) s"

lemma ev_fail: "holding sha s0 r s \<Longrightarrow> evw sha s0 (op_fail e) s"
  by (rule wp_fail) (rule holding_evolves)

lemma ev_return: "holding sha s0 r s \<Longrightarrow> evw sha s0 (op_return x) s"
  by (rule wp_return) (rule holding_evolves)

lemma ev_read:
  assumes "keeps (=) m" "holding sha s0 r s" "evw sha s0 k s"
  shows "evw sha s0 (op_seq m k) s"
  by (rule wp_then [OF keeps_eq [OF assms(1)]]) (use assms holding_evolves in auto)

lemma ev_read_bind:
  assumes "keeps (=) m" "holding sha s0 r s" "\<And>x. evw sha s0 (f x) s"
  shows "evw sha s0 (op_bind m f) s"
  by (rule wp_call [OF keeps_eq [OF assms(1)]]) (use assms holding_evolves in auto)

lemma ev_read_last:
  assumes "keeps (=) m" "holding sha s0 r s"
  shows "evw sha s0 m s"
  by (rule wp_mono [OF keeps_eq [OF assms(1)]]) (use assms holding_evolves in auto)

lemma ev_write:
  assumes "holding sha s0 r s" "later_receipt r r'" "receipt_ok sha r'"
    "\<And>s'. holding sha s0 r' s' \<Longrightarrow> evw sha s0 k s'"
  shows "evw sha s0 (op_seq (writeReceipt r') k) s"
  by (rule wp_then [OF writeReceipt_wp [OF assms(1-3)]]) (use assms(4) in auto)

lemma ev_write_last:
  assumes "holding sha s0 r s" "later_receipt r r'" "receipt_ok sha r'"
  shows "evw sha s0 (writeReceipt r') s"
  by (rule wp_mono [OF writeReceipt_wp [OF assms]]) (auto intro: holding_evolves)

lemma ev_same:
  assumes "keeps same_journal m" "holding sha s0 r s" "\<And>s'. holding sha s0 r s' \<Longrightarrow> evw sha s0 k s'"
  shows "evw sha s0 (op_seq m k) s"
  by (rule wp_then [OF same_journal_wp [OF assms(1,2)]]) (use assms(3) in auto)

lemma ev_same_last:
  assumes "keeps same_journal m" "holding sha s0 r s"
  shows "evw sha s0 m s"
  by (rule wp_mono [OF same_journal_wp [OF assms]]) (auto intro: holding_evolves)

lemma keeps_evolvesI:
  assumes "\<And>s. su_inv sha s \<Longrightarrow> evw sha s m s"
  shows "keeps (evolves sha) m"
  unfolding keeps_def
proof
  fix s
  show "evw sha s m s"
  proof (cases "su_inv sha s")
    case False
    then show ?thesis by (intro wpI) (auto simp: evolves_def)
  qed (rule assms)
qed

lemma ev_matching:
  assumes "\<And>s r. holding sha s r s \<Longrightarrow> rc_id r = rid \<Longrightarrow> evw sha s (f r) s"
  shows "keeps (evolves sha) (op_bind (matching sha rid) f)"
proof (rule keeps_evolvesI)
  fix s assume "su_inv sha s"
  then show "evw sha s (op_bind (matching sha rid) f) s"
    by (intro wp_call [OF matching_wp]) (auto intro!: assms simp: holding_def ev.R_refl)
qed

lemma eq_check: "keeps (=) (op_check e :: unit su_op)"
  by (rule eq.check)

lemmas ev_reads = eq_check eq_reads eq_verifyInstallation

lemma ev_locked:
  "keeps (evolves sha) m \<Longrightarrow> keeps (evolves sha) (op_seq lockWriter m)"
  "keeps (evolves sha) m \<Longrightarrow> keeps (evolves sha) (op_seq lockExistingWriter m)"
  using ev.seq [OF keeps_same_evolves [OF sj_lock(1)]] ev.seq [OF keeps_same_evolves [OF sj_lock(2)]]
  by blast+

lemma Execute_evolves: "keeps (evolves sha) (Execute sha rid c)"
proof -
  have run: "evw sha s0 (op_seq (run_command rid c) (writeReceipt (finishCommand (started_command r c)))) s"
    if h: "holding sha s0 (started_command r c) s" and rid: "rc_id r = rid"
      and new: "(rid, c) \<notin> set (st_runs s)" for s0 s r
  proof -
    let ?s' = "s\<lparr>st_runs := st_runs s @ [(rid, c)]\<rparr>"
    have held: "st_receipts s rid = Holds (started_command r c)" "su_inv sha s"
      using h rid by (auto simp: holding_def started_command_def)
    then have "su_inv sha ?s'"
      using new by (auto simp: su_inv_def receipts_ok_def runs_recorded_def directories_ok_def started_command_def)
    moreover from this have "evolves sha s ?s'" by (simp add: evolves_def retains_def)
    ultimately have h': "holding sha s0 (started_command r c) ?s'"
      using h ev.R_trans by (auto simp: holding_def)
    have ok: "receipt_ok sha (finishCommand (started_command r c))"
      by (rule finishCommand_ok [OF holding_ok [OF h]]) (simp add: started_command_def)
    show ?thesis
      unfolding run_command_def
      by (rule wp_seq, rule wp_effect)
        (use h h' ok holding_evolves in \<open>auto intro: ev_write_last\<close>)
  qed
  have wr: "evw sha s0 (op_seq (writeReceipt (started_command r c)) (
          op_seq (op_check SuIO) (
          op_seq (op_check SuIO) (
          op_seq (run_command rid c) (
          writeReceipt (finishCommand (started_command r c))))))) s"
    if h: "holding sha s0 r s" and rid: "rc_id r = rid" and ready: "command_ready r c" and
      new: "c \<notin> set (rc_commands r)" for s0 s r
  proof -
    have fresh: "(rid, c) \<notin> set (st_runs s)"
      using h rid new by (auto simp: holding_def su_inv_def runs_recorded_def)
    have w: "wp (writeReceipt (started_command r c))
        (\<lambda>_ s'. holding sha s0 (started_command r c) s' \<and> st_runs s' = st_runs s)
        (\<lambda>_. evolves sha s0) s"
    proof (rule wp_mono [OF wp_conj [OF writeReceipt_wp [OF h]]])
      show "receipt_ok sha (started_command r c)"
        by (rule started_command_ok [OF holding_ok [OF h] ready new])
      show "wp (writeReceipt (started_command r c)) (\<lambda>_ s'. st_runs s' = st_runs s) (\<lambda>_ _. True) s"
        by (auto simp: writeReceipt_def intro: wp_effect)
    qed auto
    show ?thesis
    proof (rule wp_then [OF w])
      fix s' assume h': "holding sha s0 (started_command r c) s' \<and> st_runs s' = st_runs s"
      with fresh have "(rid, c) \<notin> set (st_runs s')" by simp
      with h' run [OF _ rid] show "evw sha s0 (op_seq (op_check SuIO) (op_seq (op_check SuIO)
          (op_seq (run_command rid c) (writeReceipt (finishCommand (started_command r c)))))) s'"
        by (blast intro: ev_read eq_check)
    qed
  qed
  show ?thesis
    unfolding Execute_def
    by (intro ev_locked ev_matching wp_if)
      (assumption | erule notnotD | rule ev_fail wr ev_reads wp_if | rule ev_read)+
qed


lemma ResolveUnknown_evolves: "keeps (evolves sha) (ResolveUnknown sha rid)"
  unfolding ResolveUnknown_def
  by (intro ev_locked ev_matching wp_if)
    (assumption | erule notnotD | rule ev_fail ev_write_last later_steps finishCommand_ok holding_ok ev_reads wp_if
      | rule ev_read)+

lemma eq_observe_all: "keeps (=) (op_each (observe_file e sha rollback) fs)"
  by (intro eq.each eq_observe)

lemma Accept_evolves: "keeps (evolves sha) (Accept sha rid rollback)"
proof -
  have w: "evw sha s0 (writeReceipt (accepted_receipt rollback r)) s"
    if "holding sha s0 r s" "\<not> rollback \<noteq> rc_rollback r" "\<not> \<not> accept_phase_ok rollback r"
      "\<not> (rc_phase r = Archived \<or> rollback \<and> rc_schema r = PairedSchema)" for s0 s r
    using that by (intro ev_write_last accepted_ok holding_ok [of sha s0 r s]) auto
  show ?thesis
    unfolding Accept_def
    by (intro ev_locked ev_matching wp_if)
      (assumption | rule ev_fail w ev_reads eq_observe_all wp_if | rule ev_read)+
qed

lemma eq_replaceFile_reads: "keeps (=) (verify_image sha rid v i h)"
  unfolding verify_image_def by (intro eq.rules)

lemma sj_replaceFile: "keeps same_journal (replaceFile sha r i rollback)"
proof -
  have e: "keeps same_journal (op_effect e (set_installed t f) :: unit su_op)" for e t f
    by (rule sj.effect) (simp add: same_journal_def set_installed_def)
  have r: "keeps (=) m \<Longrightarrow> keeps same_journal m" for m :: "'a su_op"
    by (rule keeps_eq_R) (auto simp: sj.R_refl)
  show ?thesis
    unfolding replaceFile_def copy_image_def Let_def
    by (intro sj.rules r [OF eq_hashFile] r [OF eq_replaceFile_reads] sj_checks e
        | (split prod.split, intro allI impI) | (split option.split, intro conjI allI impI))+
qed

lemma replace_loop_evolves:
  assumes h: "holding sha s0 r s" and p: "rc_phase r = (if rollback then Restoring else Installing)"
  shows "evw sha s0 (replace_loop sha r rollback) s"
proof -
  let ?k = "length (rc_files r)"
  have ok: "receipt_ok sha (r\<lparr>rc_index := int i\<rparr>)" if "i \<le> ?k" for i
    by (rule replacing_ok [OF holding_ok [OF h]]) (use p that in auto)
  have step: "wp (replace_step sha r rollback i) (\<lambda>_ s'. \<exists>j \<le> ?k. holding sha s0 (r\<lparr>rc_index := int j\<rparr>) s')
      (\<lambda>_. evolves sha s0) s'"
    if i: "i < ?k" and j: "j \<le> ?k" "holding sha s0 (r\<lparr>rc_index := int j\<rparr>) s'" for i j s'
  proof -
    have l: "later_receipt (r\<lparr>rc_index := int a\<rparr>) (r\<lparr>rc_index := int b\<rparr>)" for a b
      by (simp add: later_receipt_def)
    have "wp (writeReceipt (r\<lparr>rc_index := int (Suc i)\<rparr>))
        (\<lambda>_ s'. \<exists>j \<le> ?k. holding sha s0 (r\<lparr>rc_index := int j\<rparr>) s') (\<lambda>_. evolves sha s0) s1"
      if "holding sha s0 (r\<lparr>rc_index := int i\<rparr>) s1" for s1
      by (rule wp_mono [OF writeReceipt_wp [OF that l ok]]) (use i in \<open>auto intro: exI [of _ "Suc i"]\<close>)
    then have "wp (op_seq (replaceFile sha r i rollback) (writeReceipt (r\<lparr>rc_index := int (Suc i)\<rparr>)))
        (\<lambda>_ s'. \<exists>j \<le> ?k. holding sha s0 (r\<lparr>rc_index := int j\<rparr>) s') (\<lambda>_. evolves sha s0) s1"
      if "holding sha s0 (r\<lparr>rc_index := int i\<rparr>) s1" for s1
      by (rule wp_then [OF same_journal_wp [OF sj_replaceFile that]]) auto
    then have "wp (op_seq (writeReceipt (r\<lparr>rc_index := int i\<rparr>)) (op_seq (replaceFile sha r i rollback)
          (writeReceipt (r\<lparr>rc_index := int (Suc i)\<rparr>))))
        (\<lambda>_ s'. \<exists>j \<le> ?k. holding sha s0 (r\<lparr>rc_index := int j\<rparr>) s') (\<lambda>_. evolves sha s0) s'"
      by (intro wp_then [OF writeReceipt_wp [OF j(2) l ok]]) (use i in auto)
    note tail = this
    show ?thesis
      unfolding replace_step_def
      by (rule wp_then [OF keeps_eq [OF eq_checks(1)]])
        (use j tail in \<open>auto simp: holding_evolves simp del: of_nat_Suc\<close>)
  qed
  have fin: "evw sha s0 (writeReceipt (r\<lparr>rc_index := int ?k,
      rc_phase := (if rollback then Restored else Installed)\<rparr>)) s'"
    if "holding sha s0 (r\<lparr>rc_index := int j\<rparr>) s'" for j s'
    by (rule ev_write_last [OF that _ replaced_ok [OF holding_ok [OF h] p]])
      (simp add: later_receipt_def)
  have "0 \<le> rc_index r" "rc_index r \<le> int ?k"
    using holding_ok [OF h] by (auto simp: receipt_ok_def valid_def)
  then have "\<exists>j \<le> ?k. holding sha s0 (r\<lparr>rc_index := int j\<rparr>) s"
    using h by (intro exI [of _ "nat (rc_index r)"]) simp
  then have "wp (op_each (replace_step sha r rollback) [nat (rc_index r)..<?k])
      (\<lambda>_ s'. \<exists>j \<le> ?k. holding sha s0 (r\<lparr>rc_index := int j\<rparr>) s') (\<lambda>_. evolves sha s0) s"
    by (intro wp_each_inv [where I = "\<lambda>s'. \<exists>j \<le> ?k. holding sha s0 (r\<lparr>rc_index := int j\<rparr>) s'"])
      (use step in auto)
  then show ?thesis
    unfolding replace_loop_def by (rule wp_then) (use fin in auto)
qed

lemma replace_evolves: "keeps (evolves sha) (replace sha rid rollback)"
proof -
  have start: "evw sha s0 (op_seq (writeReceipt (started r rollback))
      (replace_loop sha (started r rollback) rollback)) s"
    if "holding sha s0 r s" "\<not> \<not> Pending r" "\<not> (rc_phase r = Archived \<or> rollback \<and> rc_schema r = PairedSchema)"
    for s0 s r
  proof (rule ev_write [OF that(1) later_steps(1)])
    show "receipt_ok sha (started r rollback)"
      using that by (intro started_ok holding_ok [OF that(1)]) auto
    show "evw sha s0 (replace_loop sha (started r rollback) rollback) s'"
      if "holding sha s0 (started r rollback) s'" for s'
      by (rule replace_loop_evolves [OF that]) (simp add: started_def)
  qed
  have resume: "evw sha s0 (replace_loop sha r rollback) s"
    if "holding sha s0 r s" "\<not> rc_phase r \<noteq> (if rollback then Restoring else Installing)" for s0 s r
    using that by (intro replace_loop_evolves) auto
  have ready: "keeps (=) (if b then pairedCurrentReady x else op_return ())" for b x
    by (auto intro: eq_ready eq.return)
  show ?thesis
    unfolding replace_def
    by (intro ev_locked ev_matching wp_if)
      (assumption | rule ev_fail ev_return start resume ev_reads ready wp_if | rule ev_read)+
qed

lemma Install_evolves: "keeps (evolves sha) (Install sha rid)"
  and Restore_evolves: "keeps (evolves sha) (Restore sha rid)"
  by (simp_all add: Install_def Restore_def replace_evolves)

section \<open>Prepare\<close>

text \<open>What the development assumes of SHA-256 in hex: 64 lower-case hex digits.\<close>

definition sha_ok :: "(string \<Rightarrow> string) \<Rightarrow> bool" where
  "sha_ok sha \<longleftrightarrow> (\<forall>d. digest (sha d))"

definition preparing :: "(string \<Rightarrow> string) \<Rightarrow> store \<Rightarrow> string \<Rightarrow> store \<Rightarrow> bool" where
  "preparing sha s0 rid s \<longleftrightarrow> evolves sha s0 s \<and> su_inv sha s \<and> rid \<in> fst ` set (st_entries s) \<and>
     st_receipts s rid = Missing"

lemma preparing_evolves: "preparing sha s0 rid s \<Longrightarrow> evolves sha s0 s"
  by (simp add: preparing_def)

lemma make_directory_wp:
  assumes "su_inv sha s"
  shows "wp (make_directory rid) (\<lambda>_. preparing sha s rid) (\<lambda>_. evolves sha s) s"
proof -
  let ?s' = "s\<lparr>st_entries := st_entries s @ [(rid, True)]\<rparr>"
  have "su_inv sha ?s'"
    using assms by (auto simp: su_inv_def receipts_ok_def runs_recorded_def directories_ok_def)
  then have e: "evolves sha s ?s'" "su_inv sha ?s'" by (auto simp: evolves_def retains_def)
  moreover have "rid \<notin> fst ` set (st_entries s) \<Longrightarrow> st_receipts s rid = Missing"
    using assms by (auto simp: su_inv_def directories_ok_def)
  ultimately show ?thesis
    unfolding make_directory_def
    by (intro wp_bind wp_get wp_if wp_fail wp_effect) (auto simp: preparing_def ev.R_refl)
qed

lemma snapshot_wp:
  assumes "preparing sha s0 rid s"
  shows "wp (snapshot sha d (rid, v, i)) (\<lambda>h s'. preparing sha s0 rid s' \<and> h = sha d) (\<lambda>_. evolves sha s0) s"
proof -
  let ?s' = "s\<lparr>st_images := (st_images s)((rid, v, i) \<mapsto> d)\<rparr>"
  have "directories_ok ?s'"
    using assms unfolding preparing_def su_inv_def directories_ok_def by (simp, metis option.distinct(1))
  then have "su_inv sha ?s'"
    using assms by (simp add: preparing_def su_inv_def receipts_ok_def runs_recorded_def)
  moreover have "st_images s (rid, v, i) = None \<Longrightarrow> retains s ?s'"
    by (auto simp: retains_def)
  ultimately have "st_images s (rid, v, i) = None \<Longrightarrow> evolves sha s ?s' \<and> su_inv sha ?s'"
    by (simp add: evolves_def)
  then have "st_images s (rid, v, i) = None \<Longrightarrow> preparing sha s0 rid ?s'"
    using assms ev.R_trans by (auto simp: preparing_def)
  then show ?thesis
    unfolding snapshot_def
    by (intro wp_if wp_fail wp_bind wp_get wp_seq wp_effect wp_return)
      (use assms in \<open>auto intro: preparing_evolves\<close>)
qed

definition old_ok :: "bool \<times> string \<times> nat \<Rightarrow> bool" where
  "old_ok x \<longleftrightarrow> (case x of (present, h, m) \<Rightarrow> if present then digest h \<and> m \<le> 511 else h = [] \<and> m = 0)"

lemma snapshot_old_wp:
  assumes "preparing sha s0 rid s" "sha_ok sha"
  shows "wp (snapshot_old sha rid i t) (\<lambda>x s'. preparing sha s0 rid s' \<and> old_ok x) (\<lambda>_. evolves sha s0) s"
proof -
  have p: "perm m \<le> 511" for m
    using mod_less_divisor [of 512 m] by (simp add: perm_def)
  have "wp (op_bind (snapshot sha d (rid, Old, i)) (\<lambda>h. op_return (True, h, perm m)))
      (\<lambda>x s'. preparing sha s0 rid s' \<and> old_ok x) (\<lambda>_. evolves sha s0) s" for d m
    by (rule wp_call [OF snapshot_wp [OF assms(1)]])
      (use assms(2) p in \<open>auto intro!: wp_return simp: sha_ok_def old_ok_def\<close>)
  then show ?thesis
    unfolding snapshot_old_def
    by (intro wp_seq wp_check wp_bind wp_get)
      (use assms(1) in \<open>auto intro: preparing_evolves split: installed.split intro!: wp_return wp_fail, auto simp: old_ok_def\<close>)
qed

lemma snapshot_new_wp:
  assumes "preparing sha s0 rid s"
  shows "wp (snapshot_new sha rid i f) (\<lambda>_. preparing sha s0 rid) (\<lambda>_. evolves sha s0) s"
  unfolding snapshot_new_def
  by (rule wp_seq, rule wp_check)
    (use assms in \<open>auto intro: preparing_evolves wp_mono [OF snapshot_wp]
      split: installed.split intro!: wp_fail wp_seq wp_check\<close>)

lemma prepare_files_wp:
  assumes "preparing sha s0 rid s" "sha_ok sha"
    "list_all (\<lambda>f. allowedTarget (cf_target f) \<and> cf_absolute f \<and> digest (cf_sha f)) files"
  shows "wp (prepare_files sha rid i files) (\<lambda>fs s'. preparing sha s0 rid s' \<and>
      map fi_target fs = map cf_target files \<and> list_all file_ok fs) (\<lambda>_. evolves sha s0) s"
  using assms
proof (induction files arbitrary: i s)
  case Nil
  then show ?case by (auto intro: wp_return)
next
  case (Cons f fs)
  have rest: "wp (if h' \<noteq> cf_sha f then op_fail SuMismatch
     else op_bind (prepare_files sha rid (Suc i) fs) (\<lambda>rest. op_return
       (\<lparr>fi_target = cf_target f, fi_old_present = present, fi_old_hash = h, fi_old_mode = m,
         fi_new_hash = h'\<rparr> # rest)))
      (\<lambda>fs' s'. preparing sha s0 rid s' \<and>
      map fi_target fs' = map cf_target (f # fs) \<and> list_all file_ok fs') (\<lambda>_. evolves sha s0) s'"
    if "preparing sha s0 rid s'" "old_ok (present, h, m)"
    for s' h' h m present
  proof -
    have "wp (prepare_files sha rid (Suc i) fs) (\<lambda>fs' s'. preparing sha s0 rid s' \<and>
      map fi_target fs' = map cf_target fs \<and> list_all file_ok fs') (\<lambda>_. evolves sha s0) s'"
      by (rule Cons.IH [OF that(1)]) (use Cons.prems in auto)
    then show ?thesis
      using Cons.prems that
      by (intro wp_if wp_fail, auto intro: preparing_evolves)
        (auto elim!: wp_call intro!: wp_return simp: file_ok_def old_ok_def split: if_splits)
  qed
  show ?case
    unfolding prepare_files.simps
  proof (rule wp_then [OF keeps_eq [OF eq_checks(1)]])
    fix s1 assume s1: "s1 = s"
    show "wp (op_bind (snapshot_old sha rid i (cf_target f)) (\<lambda>(present, h, m).
       op_bind (snapshot_new sha rid i f) (\<lambda>h'.
       if h' \<noteq> cf_sha f then op_fail SuMismatch
       else op_bind (prepare_files sha rid (Suc i) fs) (\<lambda>rest. op_return
       (\<lparr>fi_target = cf_target f, fi_old_present = present, fi_old_hash = h, fi_old_mode = m,
         fi_new_hash = h'\<rparr> # rest)))))
      (\<lambda>fs' s'. preparing sha s0 rid s' \<and>
      map fi_target fs' = map cf_target (f # fs) \<and> list_all file_ok fs') (\<lambda>_. evolves sha s0) s1"
      unfolding s1
      by (rule wp_call [OF snapshot_old_wp [OF Cons.prems(1,2)]], clarify)
        (auto intro!: wp_call [OF snapshot_new_wp] rest simp del: list.map)
  qed (use Cons.prems in \<open>auto intro: preparing_evolves\<close>)
qed

lemma eq_case_current: "keeps (=) (case c of None \<Rightarrow> op_return ()
       | Some r \<Rightarrow> if Pending r then op_fail SuPending
           else op_seq (verifyImages sha r) (verifyPairedEvidence sha r))"
  by (auto split: option.split intro!: eq.rules eq_reads)

lemma Prepare_evolves:
  assumes "sha_ok sha"
  shows "keeps (evolves sha) (Prepare sha rid files)"
proof -
  have fin: "wp (op_seq (writeReceipt (prepared_receipt rid fs)) (op_seq checks (writePointer Schema rid)))
      (\<lambda>_. evolves sha s0) (\<lambda>_. evolves sha s0) s"
    if p: "preparing sha s0 rid s" and ok: "receipt_ok sha (prepared_receipt rid fs)" for s0 s fs
  proof -
    let ?r = "prepared_receipt rid fs"
    let ?s' = "s\<lparr>st_receipts := (st_receipts s)(rc_id ?r := Holds ?r)\<rparr>"
    have rid: "rc_id ?r = rid" by (simp add: prepared_receipt_def)
    have "runs_recorded ?s'"
      unfolding runs_recorded_def
    proof (intro conjI ballI, goal_cases)
      case 1
      then show ?case using p by (simp add: preparing_def su_inv_def runs_recorded_def)
    next
      case (2 x)
      then obtain q where "st_receipts s (fst x) = Holds q" "snd x \<in> set (rc_commands q)"
        using p by (auto simp: preparing_def su_inv_def runs_recorded_def)
      then show ?case using p by (cases "fst x = rid") (auto simp: rid preparing_def split: prod.splits)
    qed
    then have "su_inv sha ?s'"
      using p ok by (simp add: rid preparing_def su_inv_def receipts_ok_def directories_ok_def)
    moreover have "retains s ?s'"
      using p by (auto simp: rid preparing_def retains_def)
    ultimately have h: "holding sha s0 ?r ?s'"
      using p ev.R_trans by (auto simp: holding_def evolves_def preparing_def)
    have "evw sha s0 (op_seq checks (writePointer Schema rid)) ?s'"
      by (intro ev_read [OF eq_checks(1) h] ev_same_last [OF sj_pointer h])
    then show ?thesis
      using p h unfolding writeReceipt_def
      by (intro wp_seq [of "op_effect _ _"] wp_effect) (auto intro: preparing_evolves holding_evolves)
  qed
  have main: "keeps (evolves sha) (op_seq (make_directory rid) (
          op_bind (prepare_files sha rid 0 files) (\<lambda>fs.
          op_seq (op_check SuIO) (
          op_seq (writeReceipt (prepared_receipt rid fs)) (
          op_seq checks (writePointer Schema rid))))))"
    if c: "candidates_ok files" and f: "files \<noteq> []" "length files \<le> 6" "id_pattern rid"
  proof (rule keeps_evolvesI)
    fix s assume "su_inv sha s"
    show "evw sha s (op_seq (make_directory rid) (
          op_bind (prepare_files sha rid 0 files) (\<lambda>fs.
          op_seq (op_check SuIO) (
          op_seq (writeReceipt (prepared_receipt rid fs)) (
          op_seq checks (writePointer Schema rid)))))) s"
    proof (rule wp_then [OF make_directory_wp [OF \<open>su_inv sha s\<close>]], rule wp_call)
      fix s1 assume s1: "preparing sha s rid s1"
      show "wp (prepare_files sha rid 0 files) (\<lambda>fs s'. preparing sha s rid s' \<and>
        map fi_target fs = map cf_target files \<and> list_all file_ok fs) (\<lambda>_. evolves sha s) s1"
        by (rule prepare_files_wp [OF s1 assms]) (use c in \<open>simp add: candidates_ok_def\<close>)
    next
      fix fs s2
      assume a: "preparing sha s rid s2 \<and> map fi_target fs = map cf_target files \<and> list_all file_ok fs"
      then have "length fs = length files" using map_eq_imp_length_eq by blast
      with a c f have "receipt_ok sha (prepared_receipt rid fs)"
        by (intro prepared_ok) (auto simp: candidates_ok_def)
      with a show "evw sha s (op_seq (op_check SuIO) (
          op_seq (writeReceipt (prepared_receipt rid fs)) (
          op_seq checks (writePointer Schema rid)))) s2"
        by (auto intro!: wp_seq [of "op_check _"] wp_check fin intro: preparing_evolves)
    qed auto
  qed
  have ck: "keeps (evolves sha) checks" "keeps (evolves sha) (Current sha)"
    by (rule keeps_eq_R [OF eq_checks(1)], rule ev.R_refl, rule keeps_eq_R [OF eq_Current], rule ev.R_refl)
  have cc: "keeps (evolves sha) (case c of None \<Rightarrow> op_return ()
       | Some r \<Rightarrow> if Pending r then op_fail SuPending
           else op_seq (verifyImages sha r) (verifyPairedEvidence sha r))" for c
    by (rule keeps_eq_R [OF eq_case_current]) (rule ev.R_refl)
  show ?thesis
    unfolding Prepare_def
    by (intro ev_locked ev.branch ev.fail ev.bind ck ev.seq [OF cc] ev.seq [OF ck(1)] main) auto
qed

section \<open>Stopped and paired transitions\<close>

lemma eq_stopped_check: "keeps (=) (stopped_check sha rid)"
  unfolding stopped_check_def VerifyInstallation_def by (intro eq.rules eq_checks eq_verifyInstallation)

lemma Settle_evolves: "keeps (evolves sha) (SettleStoppedRollback sha rid b)"
proof -
  have tail: "evw sha s0 (op_seq (stopped_check sha rid) (
       op_seq (writePointer StoppedSchema rid) (stopped_check sha rid))) s"
    if "holding sha s0 r s" for s0 s r
    by (rule ev_read [OF eq_stopped_check that], rule ev_same [OF sj_pointer that],
        rule ev_read_last [OF eq_stopped_check])
  have w: "evw sha s0 (op_seq (if rc_phase r \<noteq> RolledBackStopped
         then writeReceipt (stopped_receipt b r) else op_return ()) (
       op_seq (stopped_check sha rid) (
       op_seq (writePointer StoppedSchema rid) (
       stopped_check sha rid)))) s"
    if h: "holding sha s0 r s" and c: "\<not> (\<not> validStoppedBinding b \<or> length (rc_files r) \<noteq> 6 \<or>
        \<not> rc_rollback r \<or> \<not> complete r)" and
      d: "\<not> (rc_phase r \<noteq> RolledBackStopped \<and>
       (rc_schema r \<noteq> Schema \<or> rc_phase r \<noteq> Restored \<and> rc_phase r \<noteq> CommandFinished))" for s0 s r
  proof (cases "rc_phase r = RolledBackStopped")
    case True
    have "keeps (=) (op_return () :: unit su_op)" by (rule eq.return)
    from ev_read [OF this h tail [OF h]] True show ?thesis by simp
  next
    case False
    have "receipt_ok sha (stopped_receipt b r)"
      using False c d by (intro stopped_ok holding_ok [OF h]) auto
    from ev_write [OF h later_steps(7) this tail] False show ?thesis by simp
  qed
  show ?thesis
    unfolding SettleStoppedRollback_def
    by (intro ev_locked ev_matching wp_if)
      (assumption | rule ev_fail w eq_stopped_check wp_if | rule ev_read)+
qed

lemma preparedPriorState_wp:
  "keeps (=) owner \<Longrightarrow> wp (preparedPriorState sha rid owner)
     (\<lambda>r s'. s' = s \<and> st_receipts s rid = Holds r \<and> rc_id r = rid \<and> prior_ready r \<and> valid sha r)
     (\<lambda>_ s'. s' = s) s"
proof -
  assume o: "keeps (=) owner"
  have e: "keeps (=) (op_each (prior_file sha) fs)" for fs
    unfolding prior_file_def
    by (intro eq.each eq.rules eq_reads) (auto split: prod.split intro!: eq.rules eq_reads)
  have "wp (op_seq (verifyImages sha r) (
          op_seq (op_each (prior_file sha) (rc_files r)) (
          op_seq (op_check SuMismatch) (
          op_seq (op_check SuMismatch) (
          op_seq owner (op_return r)))))) (\<lambda>r' s'. s' = s \<and> r' = r) (\<lambda>_ s'. s' = s) s" for r
    by (rule wp_then [OF keeps_eq [OF eq_verifyImages]], simp, rule wp_then [OF keeps_eq [OF e]], simp,
        intro wp_seq [of "op_check _"] wp_check, rule wp_then [OF keeps_eq [OF o]])
      (auto intro: wp_return)
  note tail = this
  show ?thesis
    unfolding preparedPriorState_def
    by (rule wp_call [OF matching_wp])
      (auto intro!: wp_fail wp_mono [OF tail])
qed

lemma eq_prepared: "keeps (=) (op_seq held_check (verifyPairedEvidence sha r))"
  by (intro eq.rules eq_reads)

lemma writePaired_wp:
  assumes "keeps (=) prepared" "holding sha s0 r s" "later_receipt r r'" "\<not> rc_before_files r'"
  shows "wp (writePairedReceipt sha r' prepared) (\<lambda>_. holding sha s0 r') (\<lambda>_. evolves sha s0) s"
  unfolding writePairedReceipt_def
  by (intro wp_if wp_fail wp_seq [of "op_check _"] wp_check wp_then [OF keeps_eq [OF assms(1)]])
    (use assms valid_receipt_ok in \<open>auto intro!: wp_seq [of "op_check _"] wp_check writeReceipt_wp simp: holding_evolves\<close>)

lemma Seal_evolves: "keeps (evolves sha) (SealPairedPriorState sha rid capture)"
proof -
  let ?owner = "op_seq (op_check SuIO) (op_seq held_check held_check) :: unit su_op"
  have ow: "keeps (=) ?owner" by (intro eq.rules eq_checks)
  define tail where "tail r' = op_seq (writePairedReceipt sha r' (op_seq held_check (verifyPairedEvidence sha r'))) (
               op_seq (op_check SuIO) (
               op_seq (op_seq held_check (verifyPairedEvidence sha r')) (
               op_seq (op_check SuIO) (
               op_seq (writePointer PairedSchema rid) (op_seq held_check (verifyPairedEvidence sha r'))))))" for r'
  have t: "evw sha s0 (tail (sealed_receipt (capture r) r)) s"
    if h: "holding sha s0 r s" and pr: "prior_ready r" for s0 s r
    unfolding tail_def
    by (rule wp_then [OF writePaired_wp [OF eq_prepared h later_steps(8)]])
      (use pr in \<open>auto simp: sealed_receipt_def prior_ready_def holding_evolves
        intro!: ev_read [OF eq_check] ev_read [OF eq_prepared] ev_same [OF sj_pointer] ev_read_last [OF eq_prepared]\<close>)
  have second: "evw sha s0 (op_bind (op_remap (\<lambda>_. SuMismatch) (preparedPriorState sha rid ?owner)) (\<lambda>fresh.
          if receiptSHA sha fresh \<noteq> receiptSHA sha r \<or> pb_prepared (capture r) \<noteq> receiptSHA sha r
          then op_fail SuMismatch
          else if \<not> valid sha (sealed_receipt (capture r) r) then op_fail SuMismatch
          else tail (sealed_receipt (capture r) r))) s"
    if h: "holding sha s0 r s" and pr: "prior_ready r" for s0 s r
    by (rule ev_read_bind [OF eq.remap [OF eq_preparedPriorState [OF ow]] h])
      (auto intro!: ev_fail [OF h] t [OF h pr])
  have first: "keeps (evolves sha) (op_bind (preparedPriorState sha rid ?owner) (\<lambda>r.
          op_seq (op_check SuIO) (
          op_bind (op_remap (\<lambda>_. SuMismatch) (preparedPriorState sha rid ?owner)) (\<lambda>fresh.
          if receiptSHA sha fresh \<noteq> receiptSHA sha r \<or> pb_prepared (capture r) \<noteq> receiptSHA sha r
          then op_fail SuMismatch
          else if \<not> valid sha (sealed_receipt (capture r) r) then op_fail SuMismatch
          else tail (sealed_receipt (capture r) r)))))"
  proof (rule keeps_evolvesI, rule wp_call [OF preparedPriorState_wp [OF ow]])
    fix s r s' assume "su_inv sha s" and
      a: "s' = s \<and> st_receipts s rid = Holds r \<and> rc_id r = rid \<and> prior_ready r \<and> valid sha r"
    then have h: "holding sha s r s'" by (simp add: holding_def ev.R_refl)
    show "evw sha s (op_seq (op_check SuIO) (
          op_bind (op_remap (\<lambda>_. SuMismatch) (preparedPriorState sha rid ?owner)) (\<lambda>fresh.
          if receiptSHA sha fresh \<noteq> receiptSHA sha r \<or> pb_prepared (capture r) \<noteq> receiptSHA sha r
          then op_fail SuMismatch
          else if \<not> valid sha (sealed_receipt (capture r) r) then op_fail SuMismatch
          else tail (sealed_receipt (capture r) r)))) s'"
      by (rule ev_read [OF eq_check h], rule second [OF h]) (use a in simp)
  qed (auto simp: ev.R_refl)
  show ?thesis
    unfolding SealPairedPriorState_def Let_def tail_def [symmetric]
    by (intro ev.bind ev.get ev.branch ev.fail ev.seq ev.check ev_locked first)
qed

lemma eq_retire_check: "keeps (=) (retire_check sha rid r)"
  unfolding retire_check_def VerifyInstallation_def by (intro eq.rules eq_checks eq_verifyInstallation eq_evidence)

lemma ev_matching_remap:
  assumes "\<And>s r. holding sha s r s \<Longrightarrow> rc_id r = rid \<Longrightarrow> valid sha r \<Longrightarrow> evw sha s (f r) s"
  shows "keeps (evolves sha) (op_bind (op_remap g (matching sha rid)) f)"
proof (rule keeps_evolvesI)
  fix s assume "su_inv sha s"
  then show "evw sha s (op_bind (op_remap g (matching sha rid)) f) s"
    by (intro wp_call [OF wp_remap [OF wp_mono [OF matching_wp]]])
      (auto intro!: assms simp: holding_def ev.R_refl)
qed

lemma Retire_evolves: "keeps (evolves sha) (RetirePairedPriorState sha rid helper)"
proof -
  have w: "evw sha s0 (let r' = archived_receipt sha helper r in
       op_seq (writePairedReceipt sha r' (retire_check sha rid r')) (retire_check sha rid r')) s"
    if h: "holding sha s0 r s" and v: "valid sha r" "rc_phase r = Accepted" for s0 s r
    unfolding Let_def
    by (rule wp_then [OF writePaired_wp [OF eq_retire_check h later_steps(9)]])
      (use v in \<open>auto simp: archived_receipt_def valid_def intro!: ev_read_last [OF eq_retire_check]\<close>)
  show ?thesis
    unfolding RetirePairedPriorState_def
    by (intro ev.branch ev.fail ev.seq ev.check ev_locked ev_matching_remap wp_if)
      (assumption | rule ev_fail w wp_if ev_read_last [OF eq_retire_check] | rule ev_read [OF eq_retire_check])+
qed

lemma eq_offline_check: "keeps (=) (offline_check sha rid r)"
  unfolding offline_check_def by (intro eq.rules eq_reads)

lemma Offline_evolves: "keeps (evolves sha) (WithPairedOfflineRestore sha rid restore)"
proof -
  have e: "keeps (evolves sha) (op_effect SuIO (\<lambda>s. s\<lparr>st_installed := f s\<rparr>) :: unit su_op)" for f
    by (rule keeps_same_evolves, rule sj.effect) (simp add: same_journal_def)
  have r: "keeps (=) m \<Longrightarrow> keeps (evolves sha) m" for m :: "'a su_op"
    by (rule keeps_eq_R) (auto simp: ev.R_refl)
  show ?thesis
    unfolding WithPairedOfflineRestore_def
    by (intro ev.rules ev_locked e r [OF eq_offline_check] r [OF eq_ready] r [OF eq_matching]
        r [OF eq_evidence] r [OF eq_checks(1)])
qed

section \<open>Histories of a journal\<close>

datatype su_request =
    RqPrepare string "candidate list"
  | RqInstall string
  | RqRestore string
  | RqExecute string string
  | RqResolve string
  | RqAccept string bool
  | RqSettle string stopped_binding
  | RqSeal string "receipt \<Rightarrow> paired_binding"
  | RqRetire string string

fun serve :: "(string \<Rightarrow> string) \<Rightarrow> su_request \<Rightarrow> unit su_op" where
  "serve sha (RqPrepare rid files) = Prepare sha rid files"
| "serve sha (RqInstall rid) = Install sha rid"
| "serve sha (RqRestore rid) = Restore sha rid"
| "serve sha (RqExecute rid c) = Execute sha rid c"
| "serve sha (RqResolve rid) = ResolveUnknown sha rid"
| "serve sha (RqAccept rid rollback) = Accept sha rid rollback"
| "serve sha (RqSettle rid b) = SettleStoppedRollback sha rid b"
| "serve sha (RqSeal rid capture) = SealPairedPriorState sha rid capture"
| "serve sha (RqRetire rid helper) = RetirePairedPriorState sha rid helper"

lemma serve_evolves: "sha_ok sha \<Longrightarrow> keeps (evolves sha) (serve sha rq)"
  by (cases rq) (simp_all add: Prepare_evolves Install_evolves Restore_evolves Execute_evolves
      ResolveUnknown_evolves Accept_evolves Settle_evolves Seal_evolves Retire_evolves)

text \<open>
  A history starts from an empty journal; each step serves a request in a
  world that refuses what it likes, or lets anyone edit installed files.
\<close>

definition empty_journal :: "store \<Rightarrow> bool" where
  "empty_journal s \<longleftrightarrow> st_pointer s = Missing \<and> st_receipts s = (\<lambda>_. Missing) \<and>
     st_images s = (\<lambda>_. None) \<and> st_runs s = []"

inductive su_step :: "(string \<Rightarrow> string) \<Rightarrow> store \<Rightarrow> store \<Rightarrow> bool" for sha where
  served: "su_step sha s (op_final (serve sha rq) t s)"
| edited: "su_step sha s (s\<lparr>st_installed := f\<rparr>)"

inductive su_history :: "(string \<Rightarrow> string) \<Rightarrow> store \<Rightarrow> store \<Rightarrow> bool" for sha where
  history_start: "su_history sha s s"
| history_step: "su_history sha s s' \<Longrightarrow> su_step sha s' s'' \<Longrightarrow> su_history sha s s''"

inductive_cases su_stepE: "su_step sha s s'"

lemma su_step_evolves: "sha_ok sha \<Longrightarrow> su_step sha s s' \<Longrightarrow> evolves sha s s'"
  by (erule su_stepE)
    (auto intro: ev.final serve_evolves same_evolves simp: same_journal_def)

lemma su_history_evolves: "su_history sha s s' \<Longrightarrow> sha_ok sha \<Longrightarrow> evolves sha s s'"
  by (induction rule: su_history.induct) (auto simp: ev.R_refl intro: ev.R_trans su_step_evolves)

lemma empty_journal_inv: "empty_journal s \<Longrightarrow> su_inv sha s"
  by (simp add: empty_journal_def su_inv_def receipts_ok_def runs_recorded_def directories_ok_def)

end
