(* ===== verification/Update_Bounds.thy ===== *)
theory Update_Bounds
  imports Update_Receipt
begin

text \<open>
  The canonical JSON of every valid receipt fits the 16 KiB that a reader of
  the self-update journal accepts.
\<close>

section \<open>Lengths of JSON values\<close>

definition plain :: "char \<Rightarrow> bool" where
  "plain c \<longleftrightarrow> length (json_char c) = 1"

lemma plain_class:
  "is_lower c \<Longrightarrow> plain c" "is_digit c \<Longrightarrow> plain c" "is_hex c \<Longrightarrow> plain c" "plain CHR ''-''"
  by (auto simp: plain_def json_char_def Let_def char_class_defs)

lemma json_string_plain: "list_all plain s \<Longrightarrow> length (json_string s) = length s + 2"
  by (induction s) (auto simp: json_string_def plain_def)

lemma dec_length: "n < 10 ^ k \<Longrightarrow> 0 < k \<Longrightarrow> length (dec n) \<le> k"
proof (induction n arbitrary: k rule: dec.induct)
  case (1 n)
  show ?case
  proof (cases "n < 10")
    case True
    with 1 show ?thesis by (subst dec.simps) simp
  next
    case False
    with "1.prems" obtain j where j: "k = Suc j" "0 < j" by (cases k; cases "k = 1") auto
    have "n div 10 < 10 ^ j" using "1.prems"(1) by (simp add: j div_less_dividend less_mult_imp_div_less mult.commute)
    from "1.IH" [OF False this j(2)] False show ?thesis by (subst dec.simps) (simp add: j)
  qed
qed

lemma word_dec_length: "length (dec (unat (w :: 64 word))) \<le> 20"
proof -
  have "unat w < 2 ^ 64" using unsigned_less [of w, where ?'a = nat] by simp
  also have "(2 :: nat) ^ 64 < 10 ^ 20" by simp
  finally show ?thesis by (intro dec_length) auto
qed

lemma join_length: "length (join_comma xs) \<le> sum_list (map length xs) + length xs"
  by (induction xs rule: join_comma.induct) auto

lemma join_bound:
  "(\<And>x. x \<in> set xs \<Longrightarrow> length x \<le> b) \<Longrightarrow> length (join_comma xs) \<le> (b + 1) * length xs"
proof (induction xs rule: join_comma.induct)
  case (3 x y ys)
  then have "length (join_comma (y # ys)) \<le> (b + 1) * length (y # ys)" "length x \<le> b" by auto
  then show ?case by simp
qed auto

lemma object_length: "length (json_object xs) \<le> sum_list (map length xs) + length xs + 2"
  using join_length [of xs] by (simp add: json_object_def)

lemma array_bound:
  "(\<And>x. x \<in> set xs \<Longrightarrow> length x \<le> b) \<Longrightarrow> length (json_array xs) \<le> (b + 1) * length xs + 4"
  using join_bound [of xs b] by (simp add: json_array_def)

lemma field_length: "length (json_field n v) = length (json_string n) + 1 + length v"
  by (simp add: json_field_def)

lemma omit_sum [simp]: "sum_list (map length (omit_if b v)) \<le> length v" "length (omit_if b v) \<le> 1"
  by (simp_all add: omit_if_def)

section \<open>The parts of a receipt\<close>

lemma hex_json: "list_all is_hex s \<Longrightarrow> length (json_string s) = length s + 2"
  by (rule json_string_plain) (simp add: list.pred_mono_strong plain_class)

lemma digest_json: "digest s \<Longrightarrow> length (json_string s) = 66"
  by (simp add: digest_def hex_json)

lemma id_json: "id_pattern s \<Longrightarrow> length (json_string s) = 34"
  by (simp add: id_pattern_def hex_json)

lemma command_json:
  assumes "command_pattern c"
  shows "length (json_string c) \<le> 66"
proof -
  from assms have "list_all plain c" "length c \<le> 64"
    by (auto simp: command_pattern_def list_all_iff plain_class split: list.splits)
  then show ?thesis by (simp add: json_string_plain)
qed

lemma name_json:
  "length (json_string ''target'') = 8" "length (json_string ''old_present'') = 13"
  "length (json_string ''old_sha256'') = 12" "length (json_string ''old_mode'') = 10"
  "length (json_string ''new_sha256'') = 12" "length (json_string ''installation_id'') = 17"
  "length (json_string ''pre_stop_sequence'') = 19" "length (json_string ''stop_sequence'') = 15"
  "length (json_string ''revision'') = 10" "length (json_string ''required_reader'') = 17"
  "length (json_string ''manifest_sha256'') = 17" "length (json_string ''prepared_sha256'') = 17"
  "length (json_string ''review_sha256'') = 15" "length (json_string ''sequence'') = 10"
  "length (json_string ''accepted_sha256'') = 17" "length (json_string ''helper_sha256'') = 15"
  "length (json_string ''schema'') = 8" "length (json_string ''id'') = 4"
  "length (json_string ''phase'') = 7" "length (json_string ''index'') = 7"
  "length (json_string ''command'') = 9" "length (json_string ''commands'') = 10"
  "length (json_string ''rollback'') = 10" "length (json_string ''before_files'') = 14"
  "length (json_string ''files'') = 7" "length (json_string ''stopped'') = 9"
  "length (json_string ''paired'') = 8" "length (json_string ''retired'') = 9"
  by (simp_all add: json_string_def json_char_def)

lemma target_json: "allowedTarget t \<Longrightarrow> length (json_string t) \<le> 41"
  by (auto simp: allowedTarget_def bin_target_def init_target_def config_target_def json_string_def json_char_def)

lemma phase_json: "phase_ok r p \<Longrightarrow> length (json_string (phase_text p)) \<le> 21"
  by (cases p) (simp_all add: json_string_def json_char_def)

lemma bool_json: "length (json_bool b) \<le> 5"
  by (simp add: json_bool_def)

lemma empty_json: "length (json_string []) = 2"
  by (simp add: json_string_def)

lemma file_json_bound:
  assumes "file_ok f"
  shows "length (file_json f) \<le> 300"
proof -
  have h: "length (json_string (fi_old_hash f)) \<le> 66" "length (json_string (fi_new_hash f)) = 66"
    using assms by (auto simp: file_ok_def digest_json empty_json split: if_splits)
  have m: "length (dec (fi_old_mode f)) \<le> 3"
    by (rule dec_length) (use assms in \<open>auto simp: file_ok_def split: if_splits\<close>)
  have t: "length (json_string (fi_target f)) \<le> 41"
    using assms by (simp add: file_ok_def target_json)
  show ?thesis
    unfolding file_json_def
    by (rule order_trans [OF object_length])
      (use h m t bool_json [of "fi_old_present f"] in \<open>simp add: field_length name_json omit_if_def\<close>)
qed

lemma small_dec: "0 \<le> i \<Longrightarrow> i < 10 \<Longrightarrow> length (dec_int i) = 1"
  by (simp add: dec_int_def dec.simps)

lemma stopped_json_bound:
  assumes "validStoppedBinding b"
  shows "length (stopped_json b) \<le> 250"
  unfolding stopped_json_def
  by (rule order_trans [OF object_length])
    (use assms word_dec_length [of "sb_pre_stop b"] word_dec_length [of "sb_stop b"]
      word_dec_length [of "sb_revision b"] in
      \<open>simp add: field_length name_json validStoppedBinding_def id_json small_dec schema_defs\<close>)

lemma paired_json_bound:
  assumes "digest (pb_manifest b)" "digest (pb_prepared b)" "digest (pb_review b)" "id_pattern (pb_installation b)"
  shows "length (paired_json b) \<le> 400"
  unfolding paired_json_def
  by (rule order_trans [OF object_length])
    (use assms word_dec_length [of "pb_sequence b"] word_dec_length [of "pb_revision b"] in
      \<open>simp add: field_length name_json id_json digest_json\<close>)

lemma retirement_json_bound:
  "digest (rt_accepted b) \<Longrightarrow> digest (rt_helper b) \<Longrightarrow> length (retirement_json b) \<le> 180"
  unfolding retirement_json_def
  by (rule order_trans [OF object_length]) (simp add: field_length name_json digest_json)

definition opt_len :: "string list \<Rightarrow> nat" where
  "opt_len xs = sum_list (map length xs) + length xs"

lemma opt_stopped: "valid sha r \<Longrightarrow> opt_len (opt_field ''stopped'' stopped_json (rc_stopped r)) \<le> 261"
  by (auto simp: opt_len_def opt_field_def field_length name_json valid_def schema_ok_def
      split: option.splits if_splits dest: stopped_json_bound)

lemma opt_paired: "valid sha r \<Longrightarrow> opt_len (opt_field ''paired'' paired_json (rc_paired r)) \<le> 410"
  by (auto simp: opt_len_def opt_field_def field_length name_json valid_def schema_ok_def
      validPairedReceipt_def intro: paired_json_bound split: option.splits if_splits)

lemma paired_retired_digests:
  "paired_phase_ok sha r p \<Longrightarrow> rc_retired r = Some b \<Longrightarrow> digest (rt_accepted b) \<and> digest (rt_helper b)"
  by (cases p) auto

lemma opt_retired: "valid sha r \<Longrightarrow> opt_len (opt_field ''retired'' retirement_json (rc_retired r)) \<le> 191"
  by (auto simp: opt_len_def opt_field_def field_length name_json valid_def schema_ok_def
      validPairedReceipt_def intro: retirement_json_bound split: option.splits if_splits
      dest: paired_retired_digests)

lemma command_json_valid: "valid sha r \<Longrightarrow> length (json_string (rc_command r)) \<le> 66"
  by (cases "rc_command r = []")
    (auto simp: empty_json valid_def commands_ok_def list_all_iff intro: command_json)

text \<open>Every valid receipt is readable.\<close>

lemma marshal_receipt_bound:
  assumes v: "valid sha r"
  shows "length (marshal_receipt r) \<le> 16 * 1024"
proof -
  have n: "length (rc_commands r) \<le> 16" "length (rc_files r) \<le> 6"
    and c: "list_all command_pattern (rc_commands r)" and f: "list_all file_ok (rc_files r)"
    and i: "id_pattern (rc_id r)" and s: "0 \<le> rc_schema r" "rc_schema r < 10"
    and x: "0 \<le> rc_index r" "rc_index r < 10" and p: "phase_ok r (rc_phase r)"
    using v by (auto simp: valid_def commands_ok_def schema_ok_def schema_defs)
  have cs: "length (json_array (map json_string (rc_commands r))) \<le> 67 * 16 + 4"
    using array_bound [of "map json_string (rc_commands r)" 66] n c command_json
    by (fastforce simp: list_all_iff)
  have fs: "length (json_array (map file_json (rc_files r))) \<le> 301 * 6 + 4"
    using array_bound [of "map file_json (rc_files r)" 300] n f file_json_bound
    by (fastforce simp: list_all_iff)
  note o = opt_stopped [OF v] opt_paired [OF v] opt_retired [OF v]
  show ?thesis
    unfolding marshal_receipt_def
    by (rule order_trans [OF object_length])
      (use cs fs o command_json_valid [OF v] phase_json [OF p] in
        \<open>simp add: field_length name_json id_json [OF i] small_dec s x omit_if_def opt_len_def json_bool_def\<close>)
qed

end
