(* ===== verification/Update_Rollback.thy ===== *)
theory Update_Rollback
  imports Update_Invariant Update_Bounds
begin

text \<open>
  Crash safety of file replacement: from a prepared transaction, however often
  installation and rollback are interrupted, a rollback that is not disturbed
  completes and puts every file back, and an undisturbed installation
  completes when no rollback was begun.
\<close>

section \<open>Old and new files\<close>

definition at_old :: "store \<Rightarrow> receipt \<Rightarrow> nat \<Rightarrow> bool" where
  "at_old s r i \<longleftrightarrow> (let f = rc_files r ! i in case st_installed s (fi_target f) of
     NoFile \<Rightarrow> \<not> fi_old_present f
   | Special \<Rightarrow> False
   | FileAt d m \<Rightarrow> fi_old_present f \<and> st_images s (rc_id r, Old, i) = Some d \<and> perm m = fi_old_mode f)"

definition at_new :: "store \<Rightarrow> receipt \<Rightarrow> nat \<Rightarrow> bool" where
  "at_new s r i \<longleftrightarrow> (let f = rc_files r ! i in case st_installed s (fi_target f) of
     FileAt d m \<Rightarrow> st_images s (rc_id r, New, i) = Some d \<and> perm m = target_mode (fi_target f)
   | _ \<Rightarrow> False)"

definition images_intact :: "(string \<Rightarrow> string) \<Rightarrow> store \<Rightarrow> receipt \<Rightarrow> bool" where
  "images_intact sha s r \<longleftrightarrow> (\<forall>i < length (rc_files r).
     image_matches sha s (rc_id r) New i (fi_new_hash (rc_files r ! i)) \<and>
     (fi_old_present (rc_files r ! i) \<longrightarrow>
      image_matches sha s (rc_id r) Old i (fi_old_hash (rc_files r ! i))))"

definition all_old :: "store \<Rightarrow> receipt \<Rightarrow> bool" where
  "all_old s r \<longleftrightarrow> (\<forall>i < length (rc_files r). at_old s r i)"

definition all_new :: "store \<Rightarrow> receipt \<Rightarrow> bool" where
  "all_new s r \<longleftrightarrow> (\<forall>i < length (rc_files r). at_new s r i)"

definition between :: "store \<Rightarrow> receipt \<Rightarrow> bool" where
  "between s r \<longleftrightarrow> (\<forall>i < length (rc_files r). at_old s r i \<or> at_new s r i)"

definition at_side :: "bool \<Rightarrow> store \<Rightarrow> receipt \<Rightarrow> nat \<Rightarrow> bool" where
  "at_side rollback s r i \<longleftrightarrow> (if rollback then at_old s r i else at_new s r i)"

lemma at_receipt [simp]:
  "at_old s (r\<lparr>rc_index := k\<rparr>) i = at_old s r i" "at_new s (r\<lparr>rc_index := k\<rparr>) i = at_new s r i"
  "at_old s (r\<lparr>rc_phase := p\<rparr>) i = at_old s r i" "at_new s (r\<lparr>rc_phase := p\<rparr>) i = at_new s r i"
  "at_old s (started r b) i = at_old s r i" "at_new s (started r b) i = at_new s r i"
  "images_intact sha s (r\<lparr>rc_index := k\<rparr>) = images_intact sha s r"
  "images_intact sha s (r\<lparr>rc_phase := p\<rparr>) = images_intact sha s r"
  "images_intact sha s (started r b) = images_intact sha s r"
  by (simp_all add: at_old_def at_new_def images_intact_def started_def Let_def split: installed.split)

lemma at_store [simp]:
  "at_old (s\<lparr>st_receipts := f\<rparr>) r i = at_old s r i" "at_new (s\<lparr>st_receipts := f\<rparr>) r i = at_new s r i"
  "images_intact sha (s\<lparr>st_receipts := f\<rparr>) r = images_intact sha s r"
  by (simp_all add: at_old_def at_new_def images_intact_def image_matches_def Let_def split: installed.split)

lemma set_installed_simps [simp]:
  "st_images (set_installed t f s) = st_images s" "st_receipts (set_installed t f s) = st_receipts s"
  "st_pointer (set_installed t f s) = st_pointer s" "st_writer (set_installed t f s) = st_writer s"
  "st_installed (set_installed t f s) = (st_installed s)(t := f)"
  "images_intact sha (set_installed t f s) r = images_intact sha s r"
  by (simp_all add: set_installed_def images_intact_def image_matches_def)

lemma at_other:
  assumes "distinct (map fi_target (rc_files r))" "i < length (rc_files r)" "j < length (rc_files r)" "j \<noteq> i"
  shows "at_old (set_installed (fi_target (rc_files r ! i)) f s) r j = at_old s r j"
    "at_new (set_installed (fi_target (rc_files r ! i)) f s) r j = at_new s r j"
proof -
  have "fi_target (rc_files r ! j) \<noteq> fi_target (rc_files r ! i)"
    using assms by (metis length_map nth_eq_iff_index_eq nth_map)
  then show "at_old (set_installed (fi_target (rc_files r ! i)) f s) r j = at_old s r j"
    "at_new (set_installed (fi_target (rc_files r ! i)) f s) r j = at_new s r j"
    by (simp_all add: at_old_def at_new_def Let_def split: installed.split)
qed

lemma perm_small: "m \<le> 511 \<Longrightarrow> perm m = m"
  by (simp add: perm_def)

lemma perm_target [simp]: "perm (target_mode t) = target_mode t"
  by (simp add: perm_def target_mode_def)

section \<open>One file\<close>

text \<open>\<open>placed rollback s r i s'\<close>: file \<open>i\<close> of \<open>s\<close> was put in place, nothing else changed.\<close>

definition placed :: "bool \<Rightarrow> store \<Rightarrow> receipt \<Rightarrow> nat \<Rightarrow> store \<Rightarrow> bool" where
  "placed rollback s r i s' \<longleftrightarrow>
     (s' = s \<or> (\<exists>f. s' = set_installed (fi_target (rc_files r ! i)) f s)) \<and> at_side rollback s' r i"

lemma copy_image_wp:
  assumes "v = (if rollback then Old else New)" "rollback \<longrightarrow> fi_old_present (rc_files r ! i)"
    "file_ok (rc_files r ! i)"
  shows "wp (copy_image sha (fi_target (rc_files r ! i)) (rc_id r, v, i) expected
       (if rollback then fi_old_mode (rc_files r ! i) else target_mode (fi_target (rc_files r ! i))))
     (\<lambda>_. placed rollback s r i) (\<lambda>_ s'. s' = s \<or> placed rollback s r i s') s"
proof -
  let ?t = "fi_target (rc_files r ! i)"
  let ?m = "if rollback then fi_old_mode (rc_files r ! i) else target_mode ?t"
  have "at_side rollback (set_installed ?t (FileAt d ?m) s) r i"
    if "st_images s (rc_id r, v, i) = Some d" for d
    using that assms by (auto simp: at_side_def at_old_def at_new_def file_ok_def perm_small Let_def)
  then have p: "placed rollback s r i (set_installed ?t (FileAt d ?m) s)"
    if "st_images s (rc_id r, v, i) = Some d" for d
    using that by (auto simp: placed_def)
  show ?thesis
    unfolding copy_image_def
  proof (rule wp_seq, rule wp_check, rule wp_bind, rule wp_get, rule wp_option)
    fix d assume d: "st_images s (rc_id r, v, i) = Some d"
    show "wp (if length d > maxFileBytes \<or> sha d \<noteq> expected then op_fail SuMismatch
         else op_seq (op_check SuIO) (op_seq checks (op_effect SuIO (set_installed ?t (FileAt d ?m)))))
      (\<lambda>_. placed rollback s r i) (\<lambda>_ s'. s' = s \<or> placed rollback s r i s') s"
      by (rule wp_if, rule wp_fail, simp, rule wp_seq, rule wp_check, rule wp_then [OF keeps_eq [OF eq_checks(1)]])
        (use p [OF d] in \<open>auto intro!: wp_effect\<close>)
  qed (auto intro: wp_fail)
qed

lemma replaceFile_wp:
  assumes "file_ok (rc_files r ! i)"
  shows "wp (replaceFile sha r i rollback) (\<lambda>_. placed rollback s r i)
     (\<lambda>_ s'. s' = s \<or> placed rollback s r i s') s"
proof -
  let ?f = "rc_files r ! i"
  let ?m = "if rollback then fi_old_mode ?f else target_mode (fi_target ?f)"
  let ?v = "if rollback then Old else New"
  have hash: "wp (hashFile sha (fi_target ?f))
      (\<lambda>(h, present) s'. s' = s \<and> present = (st_installed s (fi_target ?f) \<noteq> NoFile)) (\<lambda>_ s'. s' = s) s"
    unfolding hashFile_def
    by (intro wp_seq wp_check wp_bind wp_get)
      (auto split: installed.split intro!: wp_return wp_fail wp_seq wp_check wp_if)
  have ver: "keeps (=) (if b then verify_image sha rid v i h else op_return ())" for b rid v h
    by (auto intro: eq_replaceFile_reads eq.return)
  have gone: "wp (op_seq checks (if present then op_effect SuIO (set_installed (fi_target ?f) NoFile) else op_check SuIO))
      (\<lambda>_. placed rollback s r i) (\<lambda>_ s'. s' = s \<or> placed rollback s r i s') s"
    if "rollback" "\<not> fi_old_present ?f" "present = (st_installed s (fi_target ?f) \<noteq> NoFile)" for present
  proof -
    have "placed rollback s r i (set_installed (fi_target ?f) NoFile s)"
      using that by (auto simp: placed_def at_side_def at_old_def)
    moreover have "\<not> present \<Longrightarrow> placed rollback s r i s"
      using that by (auto simp: placed_def at_side_def at_old_def)
    ultimately show ?thesis
      by (intro wp_then [OF keeps_eq [OF eq_checks(1)]]) (auto intro!: wp_effect wp_check)
  qed
  have body: "wp (op_seq (if \<not> rollback \<or> fi_old_present ?f
               then verify_image sha (rc_id r) ?v i expected else op_return ()) (
       if rollback \<and> \<not> fi_old_present ?f then
         op_seq checks
           (if present then op_effect SuIO (set_installed (fi_target ?f) NoFile) else op_check SuIO)
       else copy_image sha (fi_target ?f) (rc_id r, ?v, i) expected ?m))
      (\<lambda>_. placed rollback s r i) (\<lambda>_ s'. s' = s \<or> placed rollback s r i s') s"
    if "present = (st_installed s (fi_target ?f) \<noteq> NoFile)" for present expected
  proof (rule wp_then [OF keeps_eq [OF ver]])
    fix s1 assume "s1 = s"
    then show "wp (if rollback \<and> \<not> fi_old_present ?f then
         op_seq checks
           (if present then op_effect SuIO (set_installed (fi_target ?f) NoFile) else op_check SuIO)
       else copy_image sha (fi_target ?f) (rc_id r, ?v, i) expected ?m)
      (\<lambda>_. placed rollback s r i) (\<lambda>_ s'. s' = s \<or> placed rollback s r i s') s1"
      by (intro wp_if) (use gone that copy_image_wp [OF refl _ assms] in auto)
  qed auto
  show ?thesis
    unfolding replaceFile_def Let_def
    by (rule wp_call [OF hash]) (use body in \<open>auto intro!: wp_fail split del: if_split intro: wp_if\<close>)
qed

section \<open>A transaction under way\<close>

definition progress :: "store \<Rightarrow> receipt \<Rightarrow> bool" where
  "progress s r \<longleftrightarrow> between s r \<and> (case rc_phase r of
     Prepared \<Rightarrow> all_old s r
   | Installing \<Rightarrow> \<forall>i < nat (rc_index r). at_new s r i
   | Installed \<Rightarrow> all_new s r
   | Restoring \<Rightarrow> \<forall>i < nat (rc_index r). at_old s r i
   | Restored \<Rightarrow> all_old s r
   | _ \<Rightarrow> False)"

definition swap :: "(string \<Rightarrow> string) \<Rightarrow> store \<Rightarrow> receipt \<Rightarrow> store \<Rightarrow> bool" where
  "swap sha s0 r s \<longleftrightarrow> receipt_ok sha r \<and> rc_schema r = Schema \<and>
     st_receipts s (rc_id r) = Holds r \<and> st_pointer s = Holds (Schema, rc_id r) \<and>
     st_writer s = Holds () \<and> images_intact sha s r \<and> st_images s = st_images s0 \<and>
     (\<forall>t. t \<notin> fi_target ` set (rc_files r) \<longrightarrow> st_installed s t = st_installed s0 t) \<and>
     progress s r"

definition swapping :: "(string \<Rightarrow> string) \<Rightarrow> store \<Rightarrow> receipt \<Rightarrow> store \<Rightarrow> bool" where
  "swapping sha s0 r0 s \<longleftrightarrow> (\<exists>r. later_receipt r0 r \<and> swap sha s0 r s)"

lemma swapI: "later_receipt r0 r \<Longrightarrow> swap sha s0 r s \<Longrightarrow> swapping sha s0 r0 s"
  by (auto simp: swapping_def)

lemma swap_write:
  assumes "swap sha s0 r s" "receipt_ok sha r'" "later_receipt r r'" "rc_schema r' = Schema" "progress s r'"
  shows "wp (writeReceipt r') (\<lambda>_. swap sha s0 r') (\<lambda>_ s'. swap sha s0 r s' \<or> swap sha s0 r' s') s"
proof -
  have l: "rc_id r' = rc_id r" "rc_files r' = rc_files r" using assms(3) by (auto simp: later_receipt_def)
  have "swap sha s0 r' (s\<lparr>st_receipts := (st_receipts s)(rc_id r' := Holds r')\<rparr>)"
    using assms l
    by (simp add: swap_def images_intact_def image_matches_def progress_def between_def all_old_def all_new_def
        split: phase.splits)
  then show ?thesis
    unfolding writeReceipt_def using assms(1) by (intro wp_effect) auto
qed

lemma at_side_phase:
  "progress s r \<Longrightarrow> rc_phase r = (if rollback then Restoring else Installing) \<Longrightarrow>
   i < nat (rc_index r) \<Longrightarrow> at_side rollback s r i"
  by (auto simp: progress_def at_side_def split: if_splits)

lemma placed_swap:
  assumes s: "swap sha s0 r s" and i: "i < length (rc_files r)" "nat (rc_index r) \<le> i"
    and p: "rc_phase r = (if rollback then Restoring else Installing)" and pl: "placed rollback s r i s'"
  shows "swap sha s0 r s'"
proof -
  let ?n = "length (rc_files r)"
  have d: "distinct (map fi_target (rc_files r))"
    using s by (simp add: swap_def receipt_ok_def valid_def)
  from pl obtain f where f: "s' = s \<or> s' = set_installed (fi_target (rc_files r ! i)) f s"
    and side: "at_side rollback s' r i" by (auto simp: placed_def)
  have other: "at_old s' r j = at_old s r j \<and> at_new s' r j = at_new s r j" if "j < ?n" "j \<noteq> i" for j
    using f at_other [OF d i(1) that] by auto
  have "between s' r"
    unfolding between_def
  proof (intro allI impI)
    fix j assume "j < ?n"
    then show "at_old s' r j \<or> at_new s' r j"
      using side other [of j] s by (cases "j = i") (auto simp: at_side_def swap_def progress_def between_def split: if_splits)
  qed
  moreover have "\<forall>j < nat (rc_index r). at_side rollback s' r j"
  proof (intro allI impI)
    fix j assume "j < nat (rc_index r)"
    with i have "j < ?n" "j \<noteq> i" by auto
    with \<open>j < nat (rc_index r)\<close> show "at_side rollback s' r j"
      using at_side_phase [of s r rollback j] p s other [of j] by (auto simp: swap_def at_side_def)
  qed
  ultimately have "progress s' r"
    using p by (auto simp: progress_def at_side_def split: if_splits)
  with s f i(1) show ?thesis by (auto simp: swap_def)
qed

lemma replace_step_wp:
  assumes s: "swap sha s0 (r\<lparr>rc_index := int i\<rparr>) s" and i: "i < length (rc_files r)"
    and p: "rc_phase r = (if rollback then Restoring else Installing)"
  shows "wp (replace_step sha r rollback i) (\<lambda>_. swap sha s0 (r\<lparr>rc_index := int (Suc i)\<rparr>))
     (\<lambda>_. swapping sha s0 r) s"
proof -
  let ?r = "\<lambda>k. r\<lparr>rc_index := int k\<rparr>"
  have l: "later_receipt (?r a) (?r b)" "later_receipt r (?r a)" for a b by (simp_all add: later_receipt_def)
  have ok: "receipt_ok sha (?r k)" if "k \<le> length (rc_files r)" for k
    using replacing_ok [of sha "?r i" k] s p that by (auto simp: swap_def split: if_splits)
  have sw: "swapping sha s0 r s'" if "swap sha s0 (?r k) s'" for k s'
    by (rule swapI [OF l(2) that])
  have "file_ok (rc_files r ! i)"
    using ok [of 0] i by (simp add: receipt_ok_def valid_def list_all_length)
  note rf = replaceFile_wp [OF this, of sha rollback]
  have last: "wp (writeReceipt (?r (Suc i))) (\<lambda>_. swap sha s0 (?r (Suc i))) (\<lambda>_. swapping sha s0 r) s'"
    if s': "swap sha s0 (?r i) s'" and side: "at_side rollback s' r i" for s'
  proof -
    have "progress s' (?r (Suc i))"
      using s' side p
      by (auto simp: swap_def progress_def at_side_def less_Suc_eq between_def simp del: of_nat_Suc split: if_splits)
    moreover have "rc_schema r = Schema" using s' by (simp add: swap_def)
    ultimately have "wp (writeReceipt (?r (Suc i))) (\<lambda>_. swap sha s0 (?r (Suc i)))
        (\<lambda>_ s''. swap sha s0 (?r i) s'' \<or> swap sha s0 (?r (Suc i)) s'') s'"
      using i by (intro swap_write [OF s' ok l(1)]) simp_all
    then show ?thesis by (rule wp_mono) (use sw in blast)+
  qed
  have mid: "wp (op_seq (replaceFile sha r i rollback) (writeReceipt (?r (Suc i))))
      (\<lambda>_. swap sha s0 (?r (Suc i))) (\<lambda>_. swapping sha s0 r) s1"
    if s1: "swap sha s0 (?r i) s1" for s1
  proof (rule wp_then [OF rf])
    have pl: "swap sha s0 (?r i) s'" "at_side rollback s' r i" if "placed rollback s1 r i s'" for s'
      using placed_swap [OF s1, of i rollback s'] i p that
      by (auto simp: placed_def at_side_def)
    show "wp (writeReceipt (?r (Suc i))) (\<lambda>_. swap sha s0 (?r (Suc i))) (\<lambda>_. swapping sha s0 r) s'"
      if "placed rollback s1 r i s'" for s'
      by (rule last) (use pl that in auto)
    show "swapping sha s0 r s'" if "s' = s1 \<or> placed rollback s1 r i s'" for s'
      using that pl s1 sw by auto
  qed
  have first: "wp (writeReceipt (?r i)) (\<lambda>_. swap sha s0 (?r i)) (\<lambda>_. swapping sha s0 r) s"
  proof (rule wp_mono [OF swap_write [OF s ok l(1)]])
    show "rc_schema (?r i) = Schema" "progress s (?r i)" using s by (simp_all add: swap_def)
  qed (use i sw in auto)
  show ?thesis
    unfolding replace_step_def
    by (rule wp_then [OF keeps_eq [OF eq_checks(1)]])
      (use sw [OF s] in \<open>auto intro!: wp_then [OF first] mid simp del: of_nat_Suc\<close>)
qed

lemma replace_loop_wp:
  assumes s: "swap sha s0 r s" and p: "rc_phase r = (if rollback then Restoring else Installing)"
  shows "wp (replace_loop sha r rollback)
     (\<lambda>_ s'. \<exists>r'. later_receipt r r' \<and> swap sha s0 r' s' \<and>
        rc_phase r' = (if rollback then Restored else Installed))
     (\<lambda>_. swapping sha s0 r) s"
proof -
  let ?n = "length (rc_files r)" and ?k = "nat (rc_index r)"
  let ?r = "\<lambda>k. r\<lparr>rc_index := int k\<rparr>"
  let ?done = "r\<lparr>rc_index := int ?n, rc_phase := (if rollback then Restored else Installed)\<rparr>"
  have ix: "0 \<le> rc_index r" "?k \<le> ?n" and rok: "receipt_ok sha r"
    using s by (auto simp: swap_def receipt_ok_def valid_def)
  have each: "wp (op_each (replace_step sha r rollback) [?k..<?n]) (\<lambda>_. swap sha s0 (?r ?n))
      (\<lambda>_. swapping sha s0 r) s"
  proof (rule wp_each [where I = "\<lambda>pre s'. swap sha s0 (?r (?k + length pre)) s'"])
    fix pre x rest s'
    assume e: "[?k..<?n] = pre @ x # rest" and I: "swap sha s0 (?r (?k + length pre)) s'"
    have "x = ([?k..<?n]) ! length pre" using e by simp
    moreover have "length pre < ?n - ?k" using arg_cong [OF e, of length] by simp
    ultimately have "x = ?k + length pre" "x < ?n" by auto
    then show "wp (replace_step sha r rollback x)
        (\<lambda>_ s'. swap sha s0 (?r (?k + length (pre @ [x]))) s') (\<lambda>_. swapping sha s0 r) s'"
      using replace_step_wp [where r = r and i = x and rollback = rollback and s = s'] I p by simp
  qed (use s ix in auto)
  have fin: "wp (writeReceipt ?done) (\<lambda>_ s'. \<exists>r'. later_receipt r r' \<and> swap sha s0 r' s' \<and>
        rc_phase r' = (if rollback then Restored else Installed)) (\<lambda>_. swapping sha s0 r) s'"
    if s': "swap sha s0 (?r ?n) s'" for s'
  proof -
    have l: "later_receipt (?r ?n) ?done" "later_receipt r ?done" "later_receipt r (?r ?n)"
      by (simp_all add: later_receipt_def)
    have "progress s' ?done"
      using s' p by (auto simp: swap_def progress_def between_def all_old_def all_new_def split: if_splits)
    moreover have "rc_schema r = Schema" using s by (simp add: swap_def)
    ultimately have w: "wp (writeReceipt ?done) (\<lambda>_. swap sha s0 ?done)
        (\<lambda>_ s''. swap sha s0 (?r ?n) s'' \<or> swap sha s0 ?done s'') s'"
      by (intro swap_write [OF s' replaced_ok [OF rok p] l(1)]) simp_all
    show ?thesis
    proof (rule wp_mono [OF w])
      show "\<exists>r'. later_receipt r r' \<and> swap sha s0 r' s'' \<and>
          rc_phase r' = (if rollback then Restored else Installed)" if "swap sha s0 ?done s''" for s''
        by (rule exI [of _ ?done]) (use that l in simp)
    qed (use l swapI in blast)
  qed
  show ?thesis
    unfolding replace_loop_def by (rule wp_then [OF each]) (use fin in auto)
qed

section \<open>Whole attempts\<close>

lemma started_simps [simp]:
  "rc_files (started r b) = rc_files r" "rc_id (started r b) = rc_id r" "rc_index (started r b) = 0"
  "rc_schema (started r b) = rc_schema r" "rc_phase (started r b) = (if b then Restoring else Installing)"
  by (simp_all add: started_def)

lemma progress_started: "progress s r \<Longrightarrow> progress s (started r b)"
  by (cases b) (simp_all add: progress_def between_def)

lemma replace_wp:
  assumes "swapping sha s0 r0 s"
  shows "wp (replace sha (rc_id r0) rollback)
     (\<lambda>_ s'. \<exists>r'. later_receipt r0 r' \<and> swap sha s0 r' s' \<and>
        rc_phase r' = (if rollback then Restored else Installed))
     (\<lambda>_. swapping sha s0 r0) s"
proof -
  let ?Q = "\<lambda>(_::unit) s'. \<exists>r'. later_receipt r0 r' \<and> swap sha s0 r' s' \<and>
        rc_phase r' = (if rollback then Restored else Installed)"
  let ?E = "\<lambda>(_::su_error). swapping sha s0 r0"
  from assms obtain r where l: "later_receipt r0 r" and s: "swap sha s0 r s" by (auto simp: swapping_def)
  have rid: "rc_id r = rc_id r0" using l by (simp add: later_receipt_def)
  have lock: "wp lockWriter (\<lambda>_ s'. s' = s) (\<lambda>_ s'. s' = s) s"
    using s unfolding lockWriter_def openWriter_def
    by (intro wp_bind wp_get) (auto simp: swap_def intro!: wp_check)
  have m: "wp (matching sha (rc_id r0)) (\<lambda>r' s'. s' = s \<and> r' = r) (\<lambda>_ s'. s' = s) s"
    by (rule wp_mono [OF matching_wp]) (use s rid in \<open>auto simp: swap_def\<close>)
  have loop: "wp (replace_loop sha r' rollback) ?Q ?E s'"
    if "swap sha s0 r' s'" "later_receipt r0 r'" "rc_phase r' = (if rollback then Restoring else Installing)" for r' s'
    by (rule wp_mono [OF replace_loop_wp [OF that(1,3)]])
      (use that(2) later_trans in \<open>unfold swapping_def, blast+\<close>)
  have start: "wp (op_seq (writeReceipt (started r rollback)) (replace_loop sha (started r rollback) rollback)) ?Q ?E s"
    if "Pending r"
  proof (rule wp_then [OF swap_write [OF s]])
    show "receipt_ok sha (started r rollback)"
      using s that by (intro started_ok) (auto simp: swap_def schema_defs)
    show "progress s (started r rollback)"
      using s by (auto simp: swap_def intro: progress_started)
    show "wp (replace_loop sha (started r rollback) rollback) ?Q ?E s'"
      if "swap sha s0 (started r rollback) s'" for s'
      by (rule loop [OF that later_trans [OF l later_steps(1)]]) simp
    show "swapping sha s0 r0 s'" if "swap sha s0 r s' \<or> swap sha s0 (started r rollback) s'" for s'
      using that swapI [OF l] swapI [OF later_trans [OF l later_steps(1)]] by blast
  qed (use s in \<open>simp_all add: swap_def\<close>)
  have ready: "keeps (=) (if b then pairedCurrentReady x else op_return ())" for b x
    by (auto intro: eq_ready eq.return)
  have ret: "?Q () s" if "rc_phase r = (if rollback then Restored else Installed)"
    using that l s by auto
  show ?thesis
    unfolding replace_def
    by (rule wp_then [OF lock], simp only:, rule wp_call [OF m], clarify)
      (intro wp_if wp_fail wp_return wp_then [OF keeps_eq [OF eq_verifyImages]]
        wp_then [OF keeps_eq [OF eq_evidence]] wp_then [OF keeps_eq [OF ready]]
        wp_then [OF keeps_eq [OF eq_checks(1)]],
       use assms start loop [OF s l] ret in \<open>auto\<close>)
qed

section \<open>Undisturbed attempts\<close>

lemma checks_run [run_simps]: "checks ([], s) = (Inr (), [], s)"
  by (simp add: checks_def run_simps)

lemma writeReceipt_run [run_simps]:
  "writeReceipt r ([], s) = (Inr (), [], s\<lparr>st_receipts := (st_receipts s)(rc_id r := Holds r)\<rparr>)"
  by (simp add: writeReceipt_def run_simps)

lemma verify_image_run:
  "image_matches sha s rid v i h \<Longrightarrow> verify_image sha rid v i h ([], s) = (Inr (), [], s)"
  by (simp add: verify_image_def run_simps)

lemma verifyImages_run:
  assumes "images_intact sha s r"
  shows "verifyImages sha r ([], s) = (Inr (), [], s)"
  unfolding verifyImages_def
  by (rule run_each_same)
    (use assms in \<open>auto simp: verify_entry_def Let_def run_simps verify_image_run images_intact_def\<close>)

lemma matching_run:
  assumes "st_pointer s = Holds (n, rid)" "st_receipts s rid = Holds r" "valid sha r" "rc_id r = rid"
    "pointer_matches n r"
  shows "matching sha rid ([], s) = (Inr r, [], s)"
proof -
  have "schema_known n" "id_pattern rid"
    using assms by (auto simp: pointer_matches_def valid_def schema_ok_def schema_known_def)
  then show ?thesis
    using assms marshal_receipt_bound [OF assms(3)]
    by (simp add: matching_def Current_def readReceipt_def run_simps receiptLimit_def)
qed

lemma hashFile_run:
  assumes "images_intact sha s r" "i < length (rc_files r)" "at_old s r i \<or> at_new s r i"
    "file_ok (rc_files r ! i)"
  shows "\<exists>h p. hashFile sha (fi_target (rc_files r ! i)) ([], s) = (Inr (h, p), [], s) \<and>
     (p = fi_old_present (rc_files r ! i) \<and> h = fi_old_hash (rc_files r ! i) \<or>
      p \<and> h = fi_new_hash (rc_files r ! i))"
proof -
  let ?f = "rc_files r ! i"
  have im: "image_matches sha s (rc_id r) New i (fi_new_hash ?f)"
    "fi_old_present ?f \<Longrightarrow> image_matches sha s (rc_id r) Old i (fi_old_hash ?f)"
    using assms(1,2) by (auto simp: images_intact_def)
  show ?thesis
  proof (cases "st_installed s (fi_target ?f)")
    case NoFile
    with assms(3,4) show ?thesis
      by (auto simp: hashFile_def run_simps at_old_def at_new_def Let_def file_ok_def)
  next
    case Special
    with assms(3) show ?thesis by (auto simp: at_old_def at_new_def Let_def)
  next
    case (FileAt d m)
    then have "length d \<le> maxFileBytes \<and> (fi_old_present ?f \<and> sha d = fi_old_hash ?f \<or> sha d = fi_new_hash ?f)"
      using assms(3) im by (auto simp: at_old_def at_new_def image_matches_def Let_def)
    with FileAt show ?thesis by (auto simp: hashFile_def run_simps)
  qed
qed

lemma copy_image_run:
  "image_matches sha s rid v i expected \<Longrightarrow>
   \<exists>d. copy_image sha t (rid, v, i) expected m ([], s) = (Inr (), [], set_installed t (FileAt d m) s)"
  by (auto simp: copy_image_def run_simps image_matches_def split: option.splits)

lemma replaceFile_run:
  assumes "images_intact sha s r" "i < length (rc_files r)" "at_old s r i \<or> at_new s r i"
    "file_ok (rc_files r ! i)"
  shows "\<exists>s'. replaceFile sha r i rollback ([], s) = (Inr (), [], s')"
proof -
  let ?f = "rc_files r ! i"
  let ?v = "if rollback then Old else New"
  let ?e = "if rollback then fi_old_hash ?f else fi_new_hash ?f"
  let ?m = "if rollback then fi_old_mode ?f else target_mode (fi_target ?f)"
  obtain h p where hp: "hashFile sha (fi_target ?f) ([], s) = (Inr (h, p), [], s)"
    "p = fi_old_present ?f \<and> h = fi_old_hash ?f \<or> p \<and> h = fi_new_hash ?f"
    using hashFile_run [OF assms] by blast
  show ?thesis
  proof (cases "rollback \<and> \<not> fi_old_present ?f")
    case True
    with hp show ?thesis by (auto simp: replaceFile_def Let_def run_simps)
  next
    case False
    then have im: "image_matches sha s (rc_id r) ?v i ?e"
      using assms(1,2) by (auto simp: images_intact_def)
    obtain d where "copy_image sha (fi_target ?f) (rc_id r, ?v, i) ?e ?m ([], s) =
        (Inr (), [], set_installed (fi_target ?f) (FileAt d ?m) s)"
      using copy_image_run [OF im] by blast
    with hp False verify_image_run [OF im] show ?thesis
      by (cases rollback) (auto simp: replaceFile_def Let_def run_simps)
  qed
qed

lemma replace_step_run:
  assumes s: "swap sha s0 (r\<lparr>rc_index := int i\<rparr>) s" and i: "i < length (rc_files r)"
    and p: "rc_phase r = (if rollback then Restoring else Installing)"
  shows "\<exists>s'. replace_step sha r rollback i ([], s) = (Inr (), [], s') \<and>
     swap sha s0 (r\<lparr>rc_index := int (Suc i)\<rparr>) s'"
proof -
  let ?s1 = "s\<lparr>st_receipts := (st_receipts s)(rc_id r := Holds (r\<lparr>rc_index := int i\<rparr>))\<rparr>"
  have f: "images_intact sha ?s1 r" "at_old ?s1 r i \<or> at_new ?s1 r i" "file_ok (rc_files r ! i)"
    using s i by (auto simp: swap_def progress_def between_def receipt_ok_def valid_def list_all_length)
  obtain s' where "replaceFile sha r i rollback ([], ?s1) = (Inr (), [], s')"
    using replaceFile_run [OF f(1) i f(2,3)] by blast
  then have e: "replace_step sha r rollback i ([], s) =
      (Inr (), [], s'\<lparr>st_receipts := (st_receipts s')(rc_id r := Holds (r\<lparr>rc_index := int (Suc i)\<rparr>))\<rparr>)"
    by (simp add: replace_step_def run_simps)
  from wp_Inr [OF replace_step_wp [OF s i p] e] e show ?thesis by blast
qed

lemma replace_loop_run:
  assumes s: "swap sha s0 r s" and p: "rc_phase r = (if rollback then Restoring else Installing)"
  shows "\<exists>s'. replace_loop sha r rollback ([], s) = (Inr (), [], s')"
proof -
  let ?n = "length (rc_files r)" and ?k = "nat (rc_index r)"
  have ix: "0 \<le> rc_index r" "?k \<le> ?n"
    using s by (auto simp: swap_def receipt_ok_def valid_def)
  have "\<exists>s'. op_each (replace_step sha r rollback) [?k..<?n] ([], s) = (Inr (), [], s') \<and>
      swap sha s0 (r\<lparr>rc_index := int (?k + length [?k..<?n])\<rparr>) s'"
  proof (rule run_each_prefix [where I = "\<lambda>pre s'. swap sha s0 (r\<lparr>rc_index := int (?k + length pre)\<rparr>) s'"])
    fix pre x rest s'
    assume e: "[?k..<?n] = pre @ x # rest" and I: "swap sha s0 (r\<lparr>rc_index := int (?k + length pre)\<rparr>) s'"
    have "x = ([?k..<?n]) ! length pre" using e by simp
    moreover have "length pre < ?n - ?k" using arg_cong [OF e, of length] by simp
    ultimately have "x = ?k + length pre" "x < ?n" by auto
    then show "\<exists>s''. replace_step sha r rollback x ([], s') = (Inr (), [], s'') \<and>
        swap sha s0 (r\<lparr>rc_index := int (?k + length (pre @ [x]))\<rparr>) s''"
      using replace_step_run [where r = r and i = x and rollback = rollback and s = s'] I p by simp
  qed (use s ix in auto)
  then show ?thesis by (auto simp: replace_loop_def run_simps)
qed

lemma replace_run:
  assumes sw: "swapping sha s0 r0 s"
    and go: "rollback \<or> (\<exists>r. st_receipts s (rc_id r0) = Holds r \<and> rc_phase r \<in> {Prepared, Installing})"
  shows "\<exists>s'. replace sha (rc_id r0) rollback ([], s) = (Inr (), [], s')"
proof -
  from sw obtain r where l: "later_receipt r0 r" and s: "swap sha s0 r s" by (auto simp: swapping_def)
  have rid: "rc_id r = rc_id r0" using l by (simp add: later_receipt_def)
  have v: "valid sha r" and ph: "rc_phase r \<in> {Prepared, Installing, Installed, Restoring, Restored}"
    using s by (auto simp: swap_def receipt_ok_def progress_def split: phase.splits)
  have lock: "lockWriter ([], s) = (Inr (), [], s)"
    using s by (simp add: lockWriter_def openWriter_def run_simps swap_def)
  have m: "matching sha (rc_id r0) ([], s) = (Inr r, [], s)"
    by (rule matching_run [OF _ _ v rid]) (use s rid in \<open>auto simp: swap_def pointer_matches_def\<close>)
  have im: "verifyImages sha r ([], s) = (Inr (), [], s)"
    using s by (intro verifyImages_run) (simp add: swap_def)
  have sc: "rc_schema r = Schema" "Schema \<noteq> PairedSchema" using s by (simp_all add: swap_def schema_defs)
  have nr: "\<not> rollback \<longrightarrow> rc_phase r \<in> {Prepared, Installing} \<and> \<not> rc_rollback r"
    using go s rid v by (auto simp: swap_def valid_def direction_ok_def)
  let ?s1 = "s\<lparr>st_receipts := (st_receipts s)(rc_id r := Holds (started r rollback))\<rparr>"
  have "wp (writeReceipt (started r rollback)) (\<lambda>_. swap sha s0 (started r rollback))
      (\<lambda>_ s'. swap sha s0 r s' \<or> swap sha s0 (started r rollback) s') s"
    by (rule swap_write [OF s])
      (use s ph in \<open>auto simp: swap_def schema_defs Pending_def intro!: started_ok progress_started\<close>)
  from wp_Inr [OF this, of "[]" "()" "[]" ?s1] have "swap sha s0 (started r rollback) ?s1"
    by (simp add: run_simps)
  then have "\<exists>s'. replace_loop sha (started r rollback) rollback ([], ?s1) = (Inr (), [], s')"
    by (intro replace_loop_run) simp_all
  moreover have "rc_phase r = (if rollback then Restoring else Installing) \<Longrightarrow>
      \<exists>s'. replace_loop sha r rollback ([], s) = (Inr (), [], s')"
    by (rule replace_loop_run [OF s])
  ultimately show ?thesis
    using ph nr sc
    by (auto simp: replace_def run_simps lock m im Pending_def verifyPairedEvidence_def)
qed

section \<open>Preparation\<close>

definition entry_frozen :: "(string \<Rightarrow> string) \<Rightarrow> store \<Rightarrow> string \<Rightarrow> nat \<Rightarrow> file_image \<Rightarrow> bool" where
  "entry_frozen sha s rid j f \<longleftrightarrow> image_matches sha s rid New j (fi_new_hash f) \<and>
     (case st_installed s (fi_target f) of
        NoFile \<Rightarrow> \<not> fi_old_present f
      | Special \<Rightarrow> False
      | FileAt d m \<Rightarrow> fi_old_present f \<and> st_images s (rid, Old, j) = Some d \<and>
          length d \<le> maxFileBytes \<and> sha d = fi_old_hash f \<and> perm m = fi_old_mode f)"

definition images_grow :: "store \<Rightarrow> store \<Rightarrow> bool" where
  "images_grow s s' \<longleftrightarrow> st_installed s' = st_installed s \<and> st_writer s' = st_writer s \<and>
     (\<forall>n d. st_images s n = Some d \<longrightarrow> st_images s' n = Some d)"

interpretation gr: kept_relation images_grow
  by unfold_locales (auto simp: images_grow_def)

lemma entry_frozen_grow: "entry_frozen sha s rid j f \<Longrightarrow> images_grow s s' \<Longrightarrow> entry_frozen sha s' rid j f"
  by (auto simp: entry_frozen_def images_grow_def image_matches_def split: installed.splits option.splits)

lemma snapshot_frozen:
  "wp (snapshot sha d n) (\<lambda>h s'. images_grow s s' \<and> h = sha d \<and> st_images s' n = Some d \<and> length d \<le> maxFileBytes)
     (\<lambda>_ _. True) s"
  unfolding snapshot_def
  by (intro wp_if wp_fail wp_bind wp_get wp_seq wp_effect wp_return) (auto simp: images_grow_def)

definition old_frozen :: "(string \<Rightarrow> string) \<Rightarrow> store \<Rightarrow> store \<Rightarrow> string \<Rightarrow> nat \<Rightarrow> string \<Rightarrow> bool \<times> string \<times> nat \<Rightarrow> bool" where
  "old_frozen sha s s' rid i t x \<longleftrightarrow> (case x of (present, h, m) \<Rightarrow>
     (case st_installed s t of NoFile \<Rightarrow> \<not> present | Special \<Rightarrow> False
      | FileAt d k \<Rightarrow> present \<and> st_images s' (rid, Old, i) = Some d \<and> length d \<le> maxFileBytes \<and>
           sha d = h \<and> perm k = m))"

lemma snapshot_old_frozen:
  "wp (snapshot_old sha rid i t) (\<lambda>x s'. images_grow s s' \<and> old_frozen sha s s' rid i t x) (\<lambda>_ _. True) s"
  unfolding snapshot_old_def
  by (rule wp_seq, rule wp_check, rule wp_bind, rule wp_get)
    (auto split: installed.split intro!: wp_fail wp_return wp_call [OF snapshot_frozen]
      simp: gr.R_refl old_frozen_def)

lemma snapshot_new_frozen:
  "wp (snapshot_new sha rid i f) (\<lambda>h s'. images_grow s s' \<and> image_matches sha s' rid New i h) (\<lambda>_ _. True) s"
  unfolding snapshot_new_def
  by (rule wp_seq, rule wp_check)
    (auto split: installed.split intro!: wp_fail wp_seq wp_check wp_mono [OF snapshot_frozen] simp: image_matches_def)

lemma frozen_entry:
  assumes "images_grow s s1" "old_frozen sha s s1 rid i t (present, h, m)"
    "images_grow s1 s2" "image_matches sha s2 rid New i h'"
  shows "entry_frozen sha s2 rid i \<lparr>fi_target = t, fi_old_present = present, fi_old_hash = h,
      fi_old_mode = m, fi_new_hash = h'\<rparr>"
  using assms by (auto simp: entry_frozen_def old_frozen_def images_grow_def split: installed.splits)

lemma prepare_files_frozen:
  "wp (prepare_files sha rid i files)
     (\<lambda>fs s'. images_grow s s' \<and> (\<forall>k < length fs. entry_frozen sha s' rid (i + k) (fs ! k)))
     (\<lambda>_ _. True) s"
proof (induction files arbitrary: i s)
  case Nil
  then show ?case by (auto intro: wp_return simp: gr.R_refl)
next
  case (Cons f fs)
  let ?P = "\<lambda>fs s'. images_grow s s' \<and> (\<forall>k < length fs. entry_frozen sha s' rid (i + k) (fs ! k))"
  have rest: "wp (op_bind (prepare_files sha rid (Suc i) fs) (\<lambda>rest. op_return (e # rest))) ?P (\<lambda>_ _. True) s1"
    if "images_grow s s1" "entry_frozen sha s1 rid i e" for e s1
  proof (rule wp_call [OF Cons.IH], rule wp_return)
    fix es s2
    assume h: "images_grow s1 s2 \<and> (\<forall>k < length es. entry_frozen sha s2 rid (Suc i + k) (es ! k))"
    then have "entry_frozen sha s2 rid (i + k) ((e # es) ! k)" if "k < length (e # es)" for k
      using that \<open>entry_frozen sha s1 rid i e\<close> entry_frozen_grow by (cases k) auto
    with h that gr.R_trans show "?P (e # es) s2" by blast
  qed auto
  show ?case
    unfolding prepare_files.simps
  proof (rule wp_then [OF keeps_eq [OF eq_checks(1)]])
    fix s1 assume s1: "s1 = s"
    show "wp (op_bind (snapshot_old sha rid i (cf_target f)) (\<lambda>(present, h, m).
       op_bind (snapshot_new sha rid i f) (\<lambda>h'.
       if h' \<noteq> cf_sha f then op_fail SuMismatch
       else op_bind (prepare_files sha rid (Suc i) fs) (\<lambda>rest. op_return
       (\<lparr>fi_target = cf_target f, fi_old_present = present, fi_old_hash = h, fi_old_mode = m,
         fi_new_hash = h'\<rparr> # rest))))) ?P (\<lambda>_ _. True) s1"
      unfolding s1
    proof (rule wp_call [OF snapshot_old_frozen], clarify, rule wp_call [OF snapshot_new_frozen], rule wp_if, rule wp_fail)
      fix present h m s2 h' s3
      assume a: "images_grow s s2" "old_frozen sha s s2 rid i (cf_target f) (present, h, m)"
        and b: "images_grow s2 s3 \<and> image_matches sha s3 rid New i h'"
      then show "wp (op_bind (prepare_files sha rid (Suc i) fs) (\<lambda>rest. op_return
         (\<lparr>fi_target = cf_target f, fi_old_present = present, fi_old_hash = h, fi_old_mode = m,
         fi_new_hash = h'\<rparr> # rest))) ?P (\<lambda>_ _. True) s3"
        by (intro rest frozen_entry) (auto intro: gr.R_trans)
    qed auto
  qed simp
qed

text \<open>A successful preparation starts a transaction that can be rolled back.\<close>

lemma entries_frozen_swap:
  assumes ok: "receipt_ok sha r" "rc_schema r = Schema" "rc_phase r = Prepared"
    and st: "st_receipts s (rc_id r) = Holds r" "st_pointer s = Holds (Schema, rc_id r)" "st_writer s = Holds ()"
    and fr: "\<forall>k < length (rc_files r). entry_frozen sha s (rc_id r) k (rc_files r ! k)"
  shows "swap sha s r s"
proof -
  have "image_matches sha s (rc_id r) New i (fi_new_hash (rc_files r ! i)) \<and>
     (fi_old_present (rc_files r ! i) \<longrightarrow>
      image_matches sha s (rc_id r) Old i (fi_old_hash (rc_files r ! i)))" if "i < length (rc_files r)" for i
  proof -
    have "entry_frozen sha s (rc_id r) i (rc_files r ! i)" using fr that by blast
    then show ?thesis
      by (cases "st_installed s (fi_target (rc_files r ! i))") (auto simp: entry_frozen_def image_matches_def)
  qed
  then have "images_intact sha s r" by (simp add: images_intact_def)
  moreover have "all_old s r"
    using fr by (auto simp: all_old_def at_old_def entry_frozen_def Let_def split: installed.splits)
  ultimately show ?thesis
    using ok st by (simp add: swap_def progress_def between_def all_old_def)
qed

lemma Prepare_starts:
  assumes sha: "sha_ok sha" and inv: "su_inv sha s"
  shows "wp (Prepare sha rid files)
     (\<lambda>_ s'. (\<exists>r. rc_id r = rid \<and> rc_phase r = Prepared \<and> swap sha s' r s' \<and>
        map fi_target (rc_files r) = map cf_target files) \<and> st_installed s' = st_installed s)
     (\<lambda>_ _. True) s"
proof -
  let ?Q = "\<lambda>(_::unit) s'. (\<exists>r. rc_id r = rid \<and> rc_phase r = Prepared \<and> swap sha s' r s' \<and>
        map fi_target (rc_files r) = map cf_target files) \<and> st_installed s' = st_installed s"
  have lock: "wp lockWriter (\<lambda>_ s'. same_journal s s' \<and> st_installed s' = st_installed s \<and> st_writer s' = Holds ())
      (\<lambda>_ _. True) s"
    unfolding lockWriter_def openWriter_def
    by (rule wp_bind, rule wp_get)
      (auto split: slot.split intro!: wp_if wp_fail wp_seq wp_effect wp_check simp: same_journal_def)
  have fin: "wp (op_seq (op_check SuIO) (op_seq (writeReceipt (prepared_receipt rid fs)) (op_seq checks (writePointer Schema rid))))
      ?Q (\<lambda>_ _. True) s1"
    if f: "\<forall>k < length fs. entry_frozen sha s1 rid (0 + k) (fs ! k)" "st_installed s1 = st_installed s"
      "st_writer s1 = Holds ()" "map fi_target fs = map cf_target files" "receipt_ok sha (prepared_receipt rid fs)" for fs s1
  proof -
    let ?r = "prepared_receipt rid fs"
    let ?s2 = "s1\<lparr>st_receipts := (st_receipts s1)(rc_id ?r := Holds ?r), st_pointer := Holds (Schema, rid)\<rparr>"
    have "swap sha ?s2 ?r ?s2"
      by (rule entries_frozen_swap)
        (use f in \<open>auto simp: prepared_receipt_def entry_frozen_def image_matches_def split: installed.splits\<close>)
    moreover have "rc_id ?r = rid" "rc_phase ?r = Prepared" "rc_files ?r = fs"
      by (simp_all add: prepared_receipt_def)
    ultimately have "?Q () ?s2"
      using f by (intro conjI exI [of _ ?r]) simp_all
    then show ?thesis
      unfolding writeReceipt_def writePointer_def
      by (intro wp_seq [of "op_check _"] wp_check wp_seq [of "op_effect _ _"] wp_effect
          wp_then [OF keeps_eq [OF eq_checks(1)]]) auto
  qed
  have dir: "wp (op_seq (make_directory rid) (
          op_bind (prepare_files sha rid 0 files) (\<lambda>fs.
          op_seq (op_check SuIO) (
          op_seq (writeReceipt (prepared_receipt rid fs)) (
          op_seq checks (writePointer Schema rid)))))) ?Q (\<lambda>_ _. True) s1"
    if c: "candidates_ok files" "files \<noteq> []" "length files \<le> 6" "id_pattern rid"
      and s1: "same_journal s s1" "st_installed s1 = st_installed s" "st_writer s1 = Holds ()" for s1
  proof -
    have inv1: "su_inv sha s1" using same_evolves [OF s1(1)] inv by (auto simp: evolves_def)
    have md: "wp (make_directory rid) (\<lambda>_ s'. preparing sha s1 rid s' \<and> images_grow s1 s') (\<lambda>_ _. True) s1"
      by (rule wp_mono [OF wp_conj [OF make_directory_wp [OF inv1], where Q' = "\<lambda>_. images_grow s1" and E' = "\<lambda>_ _. True"]])
        (auto simp: make_directory_def images_grow_def intro!: wp_bind wp_get wp_if wp_fail wp_effect)
    show ?thesis
    proof (rule wp_then [OF md])
      fix s2 assume s2: "preparing sha s1 rid s2 \<and> images_grow s1 s2"
      then have p2: "preparing sha s1 rid s2" by simp
      have pf: "wp (prepare_files sha rid 0 files) (\<lambda>fs s'. (preparing sha s1 rid s' \<and>
        map fi_target fs = map cf_target files \<and> list_all file_ok fs) \<and>
        images_grow s2 s' \<and> (\<forall>k < length fs. entry_frozen sha s' rid (0 + k) (fs ! k))) (\<lambda>_ _. True) s2"
        by (rule wp_mono [OF wp_conj [OF prepare_files_wp [OF p2 sha] prepare_files_frozen]])
          (use c in \<open>auto simp: candidates_ok_def\<close>)
      show "wp (op_bind (prepare_files sha rid 0 files) (\<lambda>fs.
          op_seq (op_check SuIO) (
          op_seq (writeReceipt (prepared_receipt rid fs)) (
          op_seq checks (writePointer Schema rid))))) ?Q (\<lambda>_ _. True) s2"
      proof (rule wp_call [OF pf])
        fix fs s3
        assume a: "(preparing sha s1 rid s3 \<and> map fi_target fs = map cf_target files \<and> list_all file_ok fs) \<and>
          images_grow s2 s3 \<and> (\<forall>k < length fs. entry_frozen sha s3 rid (0 + k) (fs ! k))"
        then have "length fs = length files" using map_eq_imp_length_eq by blast
        with a c have "receipt_ok sha (prepared_receipt rid fs)"
          by (intro prepared_ok) (auto simp: candidates_ok_def)
        with a s1 s2 show "wp (op_seq (op_check SuIO) (op_seq (writeReceipt (prepared_receipt rid fs))
            (op_seq checks (writePointer Schema rid)))) ?Q (\<lambda>_ _. True) s3"
          by (intro fin) (auto simp: images_grow_def)
      qed auto
    qed auto
  qed
  show ?thesis
    unfolding Prepare_def
    by (rule wp_then [OF lock], rule wp_if, rule wp_fail, simp, rule wp_call [OF keeps_eq [OF eq_Current]],
        rule wp_then [OF keeps_eq [OF eq_case_current]], rule wp_if, rule wp_fail, simp,
        rule wp_then [OF keeps_eq [OF eq_checks(1)]])
      (use dir in auto)
qed

end
