(* ===== verification/Update_Properties.thy ===== *)
theory Update_Properties
  imports Update_Rollback
begin

text \<open>
  The properties of the self-update journal (\<open>internal/selfupdatejournal\<close>)
  and the small installation on which the witnesses run.
\<close>

section \<open>A small installation\<close>

definition demo_sha :: "string \<Rightarrow> string" where "demo_sha d = replicate 64 CHR ''0''"
definition demo_rid :: string where "demo_rid = replicate 32 CHR ''a''"

definition demo_store :: store where
  "demo_store = \<lparr>st_pointer = Missing, st_writer = Missing, st_entries = [], st_receipts = (\<lambda>_. Missing),
     st_images = (\<lambda>_. None), st_installed = (\<lambda>_. NoFile)(bin_target := FileAt ''v1'' 493),
     st_evidence = False, st_runs = []\<rparr>"

definition demo_candidates :: "candidate list" where
  "demo_candidates = [\<lparr>cf_target = bin_target, cf_absolute = True, cf_content = FileAt ''v2'' 420,
     cf_sha = demo_sha ''v2''\<rparr>]"

lemma demo_sha_ok: "sha_ok demo_sha"
  by (simp add: sha_ok_def demo_sha_def digest_def list_all_iff char_class_defs)

lemma demo_empty: "empty_journal demo_store"
  by (simp add: empty_journal_def demo_store_def)

lemma demo_prepare: "fst (Prepare demo_sha demo_rid demo_candidates ([], demo_store)) = Inr ()"
proof -
  have d: "digest (demo_sha x)" for x using demo_sha_ok by (simp add: sha_ok_def)
  have i: "id_pattern demo_rid" by (simp add: id_pattern_def demo_rid_def list_all_iff char_class_defs)
  show ?thesis
    by (simp add: Prepare_def lockWriter_def openWriter_def Current_def demo_store_def demo_candidates_def
      run_simps i d candidates_ok_def allowedTarget_def make_directory_def snapshot_old_def snapshot_new_def
      snapshot_def writePointer_def maxFileBytes_def)
qed

lemmas demo_facts = demo_sha_ok demo_empty history_start demo_prepare

section \<open>Shared facts\<close>

text \<open>A sequence of attempts to install or to roll back, each with its own interruptions.\<close>

fun attempts :: "(string \<Rightarrow> string) \<Rightarrow> string \<Rightarrow> (bool \<times> tape) list \<Rightarrow> store \<Rightarrow> store" where
  "attempts sha rid [] s = s"
| "attempts sha rid ((rollback, t) # as) s = attempts sha rid as (op_final (replace sha rid rollback) t s)"

definition same_file :: "installed \<Rightarrow> installed \<Rightarrow> bool" where
  "same_file a b \<longleftrightarrow> (case (a, b) of
     (NoFile, NoFile) \<Rightarrow> True
   | (FileAt d m, FileAt d' m') \<Rightarrow> d = d' \<and> perm m = perm m'
   | _ \<Rightarrow> a = b)"

lemma attempts_swapping: "swapping sha s0 r0 s \<Longrightarrow> swapping sha s0 r0 (attempts sha (rc_id r0) as s)"
proof (induction as arbitrary: s)
  case (Cons a as)
  obtain rollback t where a: "a = (rollback, t)" by fastforce
  have "swapping sha s0 r0 (op_final (replace sha (rc_id r0) rollback) t s)"
    by (rule op_final_wp [OF replace_wp [OF Cons.prems]]) (auto simp: swapping_def)
  then show ?case by (simp add: a Cons.IH)
qed simp

lemma history_inv: "sha_ok sha \<Longrightarrow> empty_journal s0 \<Longrightarrow> su_history sha s0 s \<Longrightarrow> su_inv sha s"
  using su_history_evolves empty_journal_inv by (auto simp: evolves_def)

lemma prepared_swap:
  assumes "sha_ok sha" "su_inv sha s" "fst (Prepare sha rid files (t, s)) = Inr ()"
  obtains r where "rc_id r = rid" "rc_phase r = Prepared"
    "swap sha (op_final (Prepare sha rid files) t s) r (op_final (Prepare sha rid files) t s)"
    "map fi_target (rc_files r) = map cf_target files"
    "st_installed (op_final (Prepare sha rid files) t s) = st_installed s"
proof -
  obtain x t' s' where e: "Prepare sha rid files (t, s) = (x, t', s')" by (metis prod_cases3)
  with assms(3) have "Prepare sha rid files (t, s) = (Inr (), t', s')" by simp
  from wp_Inr [OF Prepare_starts [OF assms(1,2)] this] show thesis
    using e that by (auto simp: op_final_def)
qed

lemma replace_done:
  assumes "swapping sha s0 r s" "rc_id r = rid" "replace sha rid rollback (t, s) = (Inr (), t', s')"
  shows "\<exists>r'. later_receipt r r' \<and> swap sha s0 r' s' \<and> rc_phase r' = (if rollback then Restored else Installed)"
  using wp_Inr [OF replace_wp [OF assms(1), of rollback, unfolded assms(2)] assms(3)] by simp

lemma restored_files:
  assumes s0: "swap sha s0 r s0" "rc_phase r = Prepared" and s: "swap sha s0 r' s" "later_receipt r r'"
    and p: "rc_phase r' = Restored"
  shows "same_file (st_installed s t) (st_installed s0 t)"
proof (cases "t \<in> fi_target ` set (rc_files r)")
  case False
  with s have "st_installed s t = st_installed s0 t" by (auto simp: swap_def later_receipt_def)
  then show ?thesis by (simp add: same_file_def split: installed.split)
next
  case True
  then obtain i where i: "i < length (rc_files r)" "t = fi_target (rc_files r ! i)"
    by (metis imageE in_set_conv_nth)
  have f: "rc_files r' = rc_files r" "rc_id r' = rc_id r" using s(2) by (auto simp: later_receipt_def)
  have "at_old s0 r i" "at_old s r' i" "st_images s = st_images s0"
    using s0 s p i f by (auto simp: swap_def progress_def all_old_def)
  with i f show ?thesis
    by (auto simp: at_old_def same_file_def Let_def split: installed.splits)
qed

section \<open>Properties\<close>

text \<open>
  C6: rollback undoes every interrupted update.  In any history of the journal,
  after a successful preparation and any number of installations and rollbacks
  interrupted anywhere, an undisturbed rollback succeeds, and every file of the
  installation has the bytes and permissions it had before the preparation.
\<close>

theorem update_rollback:
  assumes "sha_ok sha" "empty_journal s0" "su_history sha s0 s1"
    and "fst (Prepare sha rid files (t, s1)) = Inr ()"
  shows "\<exists>s'. Restore sha rid ([], attempts sha rid as (op_final (Prepare sha rid files) t s1)) = (Inr (), [], s') \<and>
     (\<forall>x. same_file (st_installed s' x) (st_installed s1 x))"
proof -
  obtain r where r: "rc_id r = rid" "rc_phase r = Prepared"
    and sw: "swap sha (op_final (Prepare sha rid files) t s1) r (op_final (Prepare sha rid files) t s1)"
    and same: "st_installed (op_final (Prepare sha rid files) t s1) = st_installed s1"
    using prepared_swap [OF assms(1) history_inv [OF assms(1-3)] assms(4)] by metis
  let ?s2 = "op_final (Prepare sha rid files) t s1"
  let ?s3 = "attempts sha rid as ?s2"
  have s3: "swapping sha ?s2 r ?s3"
    using attempts_swapping [OF swapI [OF later_refl sw]] r(1) by blast
  then obtain s' where e: "replace sha rid True ([], ?s3) = (Inr (), [], s')"
    using replace_run [OF s3] r(1) by blast
  from replace_done [OF s3 r(1) e] obtain r' where
    "later_receipt r r'" "swap sha ?s2 r' s'" "rc_phase r' = Restored" by auto
  then have "same_file (st_installed s' x) (st_installed ?s2 x)" for x
    using restored_files [OF sw r(2)] by blast
  with e same show ?thesis by (auto simp: Restore_def)
qed

theorem update_rollback_witness:
  "\<exists>s'. Restore demo_sha demo_rid ([], attempts demo_sha demo_rid
       [(False, replicate 30 Go @ [Torn]), (True, replicate 20 Go @ [Refuse])]
       (op_final (Prepare demo_sha demo_rid demo_candidates) [] demo_store)) = (Inr (), [], s') \<and>
     (\<forall>x. same_file (st_installed s' x) (st_installed demo_store x))"
  by (rule update_rollback [OF demo_facts])

text \<open>
  C7: an installation that reports success is complete.  After a successful
  preparation and any number of interrupted attempts, when an installation
  succeeds every target holds a file with the digest frozen for it in the
  receipt and the mode of its kind.
\<close>

theorem update_install:
  assumes "sha_ok sha" "empty_journal s0" "su_history sha s0 s1"
    and "fst (Prepare sha rid files (t, s1)) = Inr ()"
    and "Install sha rid (t', attempts sha rid as (op_final (Prepare sha rid files) t s1)) = (Inr (), t'', s')"
  shows "\<forall>f \<in> set files. \<exists>d m. st_installed s' (cf_target f) = FileAt d m \<and> perm m = target_mode (cf_target f) \<and>
     (\<exists>r. st_receipts s' rid = Holds r \<and> rc_phase r = Installed \<and>
        (\<exists>e \<in> set (rc_files r). fi_target e = cf_target f \<and> sha d = fi_new_hash e))"
proof -
  obtain r where r: "rc_id r = rid" "rc_phase r = Prepared"
    and sw: "swap sha (op_final (Prepare sha rid files) t s1) r (op_final (Prepare sha rid files) t s1)"
    and tg: "map fi_target (rc_files r) = map cf_target files"
    using prepared_swap [OF assms(1) history_inv [OF assms(1-3)] assms(4)] by metis
  let ?s2 = "op_final (Prepare sha rid files) t s1"
  have s3: "swapping sha ?s2 r (attempts sha rid as ?s2)"
    using attempts_swapping [OF swapI [OF later_refl sw]] r(1) by blast
  from replace_done [OF s3 r(1) assms(5) [unfolded Install_def]]
  obtain r' where r': "later_receipt r r'" "swap sha ?s2 r' s'" "rc_phase r' = Installed" by auto
  show ?thesis
  proof
    fix f assume "f \<in> set files"
    then have "cf_target f \<in> set (map fi_target (rc_files r'))"
      using tg r'(1) by (simp add: later_receipt_def)
    then obtain i where i: "i < length (rc_files r')" "fi_target (rc_files r' ! i) = cf_target f"
      by (metis in_set_conv_nth length_map nth_map)
    then have "at_new s' r' i" "image_matches sha s' (rc_id r') New i (fi_new_hash (rc_files r' ! i))"
      using r' by (auto simp: swap_def progress_def all_new_def images_intact_def)
    then obtain d m where "st_installed s' (cf_target f) = FileAt d m" "perm m = target_mode (cf_target f)"
      "sha d = fi_new_hash (rc_files r' ! i)"
      using i(2) by (auto simp: at_new_def image_matches_def Let_def split: installed.splits)
    moreover have "st_receipts s' rid = Holds r'" "rc_files r' ! i \<in> set (rc_files r')"
      using r' r(1) i(1) by (auto simp: swap_def later_receipt_def)
    ultimately show "\<exists>d m. st_installed s' (cf_target f) = FileAt d m \<and> perm m = target_mode (cf_target f) \<and>
     (\<exists>r. st_receipts s' rid = Holds r \<and> rc_phase r = Installed \<and>
        (\<exists>e \<in> set (rc_files r). fi_target e = cf_target f \<and> sha d = fi_new_hash e))"
      using r'(3) i(2) by blast
  qed
qed

theorem update_install_witness:
  "\<exists>t'' s'. Install demo_sha demo_rid ([], op_final (Prepare demo_sha demo_rid demo_candidates) [] demo_store) =
       (Inr (), t'', s') \<and>
     (\<exists>d m. st_installed s' bin_target = FileAt d m \<and> perm m = 493)"
proof -
  let ?s2 = "op_final (Prepare demo_sha demo_rid demo_candidates) [] demo_store"
  obtain r where r: "rc_id r = demo_rid" "rc_phase r = Prepared" and sw: "swap demo_sha ?s2 r ?s2"
    using prepared_swap [OF demo_sha_ok history_inv [OF demo_sha_ok demo_empty history_start] demo_prepare] by metis
  then have "\<exists>s'. replace demo_sha (rc_id r) False ([], ?s2) = (Inr (), [], s')"
    by (intro replace_run [OF swapI [OF later_refl sw]]) (auto simp: swap_def)
  then obtain s' where e: "Install demo_sha demo_rid ([], ?s2) = (Inr (), [], s')"
    using r(1) by (auto simp: Install_def)
  from update_install [OF demo_facts, where as = "[]", unfolded attempts.simps, OF e] show ?thesis
    using e by (auto simp: demo_candidates_def target_mode_def)
qed

text \<open>
  C8: every command of an update runs at most once.  Whatever is requested,
  refused or interrupted, no installer command of a transaction is started
  twice, and every started command is recorded in the receipt.
\<close>

theorem update_commands_once:
  assumes "sha_ok sha" "empty_journal s0" "su_history sha s0 s"
  shows "distinct (st_runs s) \<and> (\<forall>(rid, c) \<in> set (st_runs s).
     \<exists>r. st_receipts s rid = Holds r \<and> c \<in> set (rc_commands r))"
  using history_inv [OF assms] by (simp add: su_inv_def runs_recorded_def)

theorem update_commands_once_witness:
  "distinct (st_runs (op_final (serve demo_sha (RqPrepare demo_rid demo_candidates)) [] demo_store))"
  using update_commands_once [OF demo_sha_ok demo_empty history_step [OF history_start served]] by blast

text \<open>
  C9: the journal stays readable.  In any history every receipt on disk is
  valid and small enough for the bounded reader, so a read that the system
  does not refuse returns it.
\<close>

theorem update_receipts_readable:
  assumes "sha_ok sha" "empty_journal s0" "su_history sha s0 s" "st_receipts s rid = Holds r"
  shows "valid sha r \<and> length (marshal_receipt r) \<le> receiptLimit \<and>
     readReceipt sha rid ([], s) = (Inr r, [], s)"
proof -
  have v: "valid sha r" "rc_id r = rid"
    using history_inv [OF assms(1-3)] assms(4) by (auto simp: su_inv_def receipts_ok_def receipt_ok_def)
  with marshal_receipt_bound [OF v(1)] assms(4) show ?thesis
    by (simp add: readReceipt_def run_simps receiptLimit_def)
qed

theorem update_receipts_readable_witness:
  "\<exists>r. st_receipts (op_final (serve demo_sha (RqPrepare demo_rid demo_candidates)) [] demo_store) demo_rid = Holds r \<and>
     length (marshal_receipt r) \<le> receiptLimit"
proof -
  obtain r where "rc_id r = demo_rid"
    "swap demo_sha (op_final (Prepare demo_sha demo_rid demo_candidates) [] demo_store) r
       (op_final (Prepare demo_sha demo_rid demo_candidates) [] demo_store)"
    using prepared_swap [OF demo_sha_ok history_inv [OF demo_sha_ok demo_empty history_start] demo_prepare] by metis
  then have "st_receipts (op_final (serve demo_sha (RqPrepare demo_rid demo_candidates)) [] demo_store) demo_rid = Holds r"
    by (simp add: swap_def)
  with update_receipts_readable [OF demo_sha_ok demo_empty history_step [OF history_start served] this]
  show ?thesis by blast
qed

text \<open>
  C10: nothing retained is lost.  From any state of a history, a step keeps
  every frozen image byte for byte and every receipt, whose files stay the
  same and whose command list only grows.
\<close>

theorem update_retains:
  assumes "sha_ok sha" "empty_journal s0" "su_history sha s0 s" "su_step sha s s'"
  shows "(\<forall>n d. st_images s n = Some d \<longrightarrow> st_images s' n = Some d) \<and>
     (\<forall>rid r. st_receipts s rid = Holds r \<longrightarrow> (\<exists>r' cs. st_receipts s' rid = Holds r' \<and>
        rc_id r' = rc_id r \<and> rc_files r' = rc_files r \<and> rc_commands r' = rc_commands r @ cs))"
  using su_step_evolves [OF assms(1,4)] history_inv [OF assms(1-3)]
  by (fastforce simp: evolves_def retains_def later_receipt_def)

lemma demo_prepared_receipt:
  "\<exists>r. st_receipts (op_final (serve demo_sha (RqPrepare demo_rid demo_candidates)) [] demo_store) demo_rid = Holds r"
proof -
  obtain r where "rc_id r = demo_rid"
    "swap demo_sha (op_final (Prepare demo_sha demo_rid demo_candidates) [] demo_store) r
       (op_final (Prepare demo_sha demo_rid demo_candidates) [] demo_store)"
    using prepared_swap [OF demo_sha_ok history_inv [OF demo_sha_ok demo_empty history_start] demo_prepare] by metis
  then show ?thesis by (auto simp: swap_def)
qed

theorem update_retains_witness:
  "\<exists>r r' cs. st_receipts (op_final (serve demo_sha (RqPrepare demo_rid demo_candidates)) [] demo_store) demo_rid = Holds r \<and>
     st_receipts (op_final (serve demo_sha (RqInstall demo_rid)) [Go, Refuse]
       (op_final (serve demo_sha (RqPrepare demo_rid demo_candidates)) [] demo_store)) demo_rid = Holds r' \<and>
     rc_files r' = rc_files r \<and> rc_commands r' = rc_commands r @ cs"
  using update_retains [OF demo_sha_ok demo_empty history_step [OF history_start served] served] demo_prepared_receipt
  by blast

section \<open>Fences\<close>

text \<open>Nothing but the writer marker may differ after a refused request.\<close>

definition untouched :: "store \<Rightarrow> store \<Rightarrow> bool" where
  "untouched s s' \<longleftrightarrow> same_journal s s' \<and> st_installed s' = st_installed s \<and> st_pointer s' = st_pointer s"

interpretation un: kept_relation untouched
  by unfold_locales (auto simp: untouched_def same_journal_def)

definition refuses :: "'a su_op \<Rightarrow> store \<Rightarrow> store \<Rightarrow> bool" where
  "refuses m s0 s \<longleftrightarrow> wp m (\<lambda>_ _. False) (\<lambda>_. untouched s0) s"

lemma refuses_fail: "untouched s0 s \<Longrightarrow> refuses (op_fail e) s0 s"
  by (auto simp: refuses_def intro: wp_fail)

lemma refuses_read: "keeps (=) m \<Longrightarrow> untouched s0 s \<Longrightarrow> refuses k s0 s \<Longrightarrow> refuses (op_seq m k) s0 s"
  unfolding refuses_def by (rule wp_then [OF keeps_eq]) auto

lemma refuses_if: "(b \<Longrightarrow> refuses m s0 s) \<Longrightarrow> (\<not> b \<Longrightarrow> refuses n s0 s) \<Longrightarrow> refuses (if b then m else n) s0 s"
  by simp

lemma refuses_get: "refuses (f (g s)) s0 s \<Longrightarrow> refuses (op_bind (op_get g) f) s0 s"
  unfolding refuses_def by (intro wp_bind wp_get)

lemma un_lock: "keeps untouched lockWriter" "keeps untouched lockExistingWriter"
  unfolding lockWriter_def lockExistingWriter_def openWriter_def
  by (intro un.rules, auto split: slot.split intro!: un.rules un.effect simp: untouched_def same_journal_def)+

lemma refuses_locked:
  assumes "\<And>s'. untouched s s' \<Longrightarrow> refuses m s s'"
  shows "refuses (op_seq lockWriter m) s s" "refuses (op_seq lockExistingWriter m) s s"
proof -
  have "refuses (op_seq l m) s s" if "keeps untouched l" for l :: "unit su_op"
  proof -
    have "wp l (\<lambda>_. untouched s) (\<lambda>_. untouched s) s" using that by (simp add: keeps_def)
    then show ?thesis unfolding refuses_def by (rule wp_then) (use assms in \<open>auto simp: refuses_def\<close>)
  qed
  then show "refuses (op_seq lockWriter m) s s" "refuses (op_seq lockExistingWriter m) s s"
    using un_lock by auto
qed

lemma refuses_result: "refuses m s s \<Longrightarrow> \<exists>e. fst (m (t, s)) = Inl e \<and> untouched s (op_final m t s)"
proof -
  assume r: "refuses m s s"
  obtain x t' s' where m: "m (t, s) = (x, t', s')" by (metis prod_cases3)
  from wpD [OF r [unfolded refuses_def] m] show ?thesis
    by (auto simp: m op_final_def split: sum.splits)
qed

text \<open>\<open>current s r\<close>: the pointer names the receipt \<open>r\<close>.\<close>

definition current :: "store \<Rightarrow> receipt \<Rightarrow> bool" where
  "current s r \<longleftrightarrow> (\<exists>n. st_pointer s = Holds (n, rc_id r)) \<and> st_receipts s (rc_id r) = Holds r"

lemma matching_current:
  assumes "current s r"
  shows "wp (matching sha rid) (\<lambda>r' s'. s' = s \<and> r' = r \<and> rid = rc_id r) (\<lambda>_ s'. s' = s) s"
proof (rule wp_mono [OF matching_wp])
  fix r' s'
  assume m: "s' = s \<and> st_receipts s rid = Holds r' \<and> valid sha r' \<and> rc_id r' = rid \<and>
        (\<exists>n. st_pointer s = Holds (n, rid) \<and> pointer_matches n r')"
  then obtain n where n: "st_pointer s = Holds (n, rid)" "s' = s" "st_receipts s rid = Holds r'" by blast
  from assms obtain n' where "st_pointer s = Holds (n', rc_id r)" and r: "st_receipts s (rc_id r) = Holds r"
    unfolding current_def by blast
  with n(1) have rid: "rid = rc_id r" by simp
  have "Holds r' = Holds r" using n(3) r unfolding rid by simp
  with n(2) rid show "s' = s \<and> r' = r \<and> rid = rc_id r" by simp
qed auto

lemma current_untouched: "current s r \<Longrightarrow> untouched s s' \<Longrightarrow> current s' r"
  by (simp add: current_def untouched_def same_journal_def)

lemma refuses_matching:
  assumes "current s0 r" "untouched s0 s" "rid = rc_id r \<Longrightarrow> refuses (f r) s0 s"
  shows "refuses (op_bind (matching sha rid) f) s0 s" "refuses (op_bind (op_remap g (matching sha rid)) f) s0 s"
proof -
  note m = matching_current [OF current_untouched [OF assms(1,2)], of sha rid]
  show "refuses (op_bind (matching sha rid) f) s0 s"
    unfolding refuses_def by (rule wp_call [OF m]) (use assms in \<open>auto simp: refuses_def\<close>)
  show "refuses (op_bind (op_remap g (matching sha rid)) f) s0 s"
    unfolding refuses_def
    by (rule wp_call [OF wp_remap [OF wp_mono [OF m]]]) (use assms in \<open>auto simp: refuses_def\<close>)
qed

lemma Current_current:
  assumes c0: "current s r" and u: "untouched s s'"
  shows "wp (Current sha) (\<lambda>c s''. s'' = s' \<and> c = Some r) (\<lambda>_ s''. s'' = s') s'"
proof (rule wp_mono [OF Current_wp])
  from current_untouched [OF c0 u] obtain n where
    r: "st_pointer s' = Holds (n, rc_id r)" "st_receipts s' (rc_id r) = Holds r"
    unfolding current_def by blast
  fix c s''
  assume c: "s'' = s' \<and> (case c of None \<Rightarrow> st_pointer s' = Missing
      | Some r \<Rightarrow> st_receipts s' (rc_id r) = Holds r \<and> valid sha r \<and>
          (\<exists>n. st_pointer s' = Holds (n, rc_id r) \<and> pointer_matches n r))"
  show "s'' = s' \<and> c = Some r"
  proof (cases c)
    case (Some q)
    then have "s'' = s'" and q: "st_receipts s' (rc_id q) = Holds q" "\<exists>n. st_pointer s' = Holds (n, rc_id q)"
      using c unfolding Some option.case by blast+
    moreover have "rc_id q = rc_id r" using q(2) r(1) by auto
    with q(1) r(2) have "q = r" by (metis slot.inject)
    ultimately show ?thesis using Some by simp
  qed (use c r in simp)
qed auto

lemma refuses_prepare:
  assumes "current s r" "Pending r"
  shows "refuses (serve sha (RqPrepare rid files)) s s"
proof -
  have "refuses (op_bind (Current sha) (\<lambda>c. op_seq (case c of None \<Rightarrow> op_return ()
       | Some r \<Rightarrow> if Pending r then op_fail SuPending
           else op_seq (verifyImages sha r) (verifyPairedEvidence sha r)) k)) s s'" if "untouched s s'" for k s'
    unfolding refuses_def
    by (rule wp_call [OF Current_current [OF assms(1) that]])
      (use assms(2) that in \<open>auto intro!: wp_seq wp_fail\<close>)
  then show ?thesis
    unfolding serve.simps Prepare_def by (intro refuses_locked refuses_if refuses_fail) auto
qed

lemma refuses_prior:
  assumes "current s r" "\<not> prior_ready r" "untouched s s'"
  shows "refuses (op_bind (preparedPriorState sha rid owner) k) s s'"
proof -
  have "refuses (preparedPriorState sha rid owner) s s'"
    unfolding preparedPriorState_def
    by (rule refuses_matching(1) [OF assms(1,3)]) (use assms in \<open>auto intro: refuses_fail\<close>)
  then show ?thesis unfolding refuses_def by (rule wp_call) auto
qed

lemma refuses_seal:
  assumes "current s r" "\<not> prior_ready r"
  shows "refuses (serve sha (RqSeal rid capture)) s s"
  unfolding serve.simps SealPairedPriorState_def Let_def
  by (rule refuses_get, rule refuses_if, rule refuses_fail, rule un.R_refl, rule refuses_read, rule eq_check,
      rule un.R_refl, rule refuses_locked, rule refuses_prior [OF assms], assumption)

lemma refuses_retire:
  assumes "current s r" "rc_phase r = CommandStarted"
  shows "refuses (serve sha (RqRetire rid helper)) s s"
  unfolding serve.simps RetirePairedPriorState_def
  by (intro refuses_if refuses_fail refuses_read eq_check un.R_refl refuses_locked
      refuses_matching(2) [OF assms(1)]) (use assms(2) in auto)

lemma refuses_fenced:
  assumes "current s r" "rc_phase r = CommandStarted" "rq \<noteq> RqResolve (rc_id r)"
  shows "refuses (serve sha rq) s s"
proof (cases rq)
  case (RqResolve rid)
  then have "rid \<noteq> rc_id r" using assms(3) by auto
  then show ?thesis unfolding RqResolve serve.simps ResolveUnknown_def
    by (intro refuses_locked refuses_matching(1) [OF assms(1)]) auto
qed (use assms(1,2) in \<open>simp_all add: refuses_prepare Pending_def refuses_seal prior_ready_def refuses_retire
       del: serve.simps(1,8,9)\<close>,
     (simp add: Install_def Restore_def replace_def Execute_def Accept_def SettleStoppedRollback_def;
      intro refuses_locked refuses_matching(1) [OF assms(1)]; simp add: refuses_fail)+)

text \<open>
  C11: a command whose outcome is unknown fences the journal.  While the
  current receipt says a command was started, every request but the resolution
  of that transaction is refused, and no receipt, image, installed file,
  pointer or command changes.
\<close>

theorem update_unknown_fence:
  assumes "current s r" "rc_phase r = CommandStarted" "rq \<noteq> RqResolve (rc_id r)"
  shows "\<exists>e. fst (serve sha rq (t, s)) = Inl e \<and> untouched s (op_final (serve sha rq) t s)"
  by (rule refuses_result [OF refuses_fenced [OF assms]])

definition demo_started :: receipt where
  "demo_started = (prepared_receipt demo_rid [])\<lparr>rc_phase := CommandStarted\<rparr>"

definition demo_fenced :: store where
  "demo_fenced = demo_store\<lparr>st_pointer := Holds (2, demo_rid),
     st_receipts := (\<lambda>_. Missing)(demo_rid := Holds demo_started)\<rparr>"

theorem update_unknown_fence_witness:
  "\<exists>e. fst (serve demo_sha (RqExecute demo_rid ''start-panel'') ([], demo_fenced)) = Inl e \<and>
     untouched demo_fenced (op_final (serve demo_sha (RqExecute demo_rid ''start-panel'')) [] demo_fenced)"
  by (rule update_unknown_fence [of _ demo_started])
    (simp_all add: current_def demo_fenced_def demo_started_def prepared_receipt_def)

section \<open>Acceptance, retirement, settlement and inventory\<close>

definition observed :: "(string \<Rightarrow> string) \<Rightarrow> bool \<Rightarrow> store \<Rightarrow> file_image \<Rightarrow> bool" where
  "observed sha rollback s f \<longleftrightarrow> (case st_installed s (fi_target f) of
     NoFile \<Rightarrow> expected_hash rollback f = ([], False)
   | Special \<Rightarrow> False
   | FileAt d m \<Rightarrow> expected_hash rollback f = (sha d, True) \<and> perm m = expected_mode rollback f)"

lemma observe_file_wp:
  "wp (observe_file e sha rollback f) (\<lambda>_ s'. s' = s \<and> observed sha rollback s f) (\<lambda>_ s'. s' = s) s"
proof -
  have h: "wp (op_remap (\<lambda>_. SuMismatch) (hashFile sha (fi_target f)))
      (\<lambda>(h, present) s'. s' = s \<and> (case st_installed s (fi_target f) of NoFile \<Rightarrow> h = [] \<and> \<not> present
         | Special \<Rightarrow> False | FileAt d m \<Rightarrow> h = sha d \<and> present)) (\<lambda>_ s'. s' = s) s"
    unfolding hashFile_def
    by (intro wp_remap wp_seq wp_check wp_bind wp_get)
      (auto split: installed.split intro!: wp_return wp_fail wp_seq wp_check wp_if)
  show ?thesis
    unfolding observe_file_def
    by (rule wp_call [OF h])
      (auto intro!: wp_fail wp_return wp_seq wp_check wp_bind wp_get wp_guard
        simp: observed_def installed_mode_def split: installed.splits)
qed

lemma observe_all_wp:
  "wp (op_each (observe_file e sha rollback) fs) (\<lambda>_ s'. s' = s \<and> (\<forall>f \<in> set fs. observed sha rollback s f))
     (\<lambda>_ s'. s' = s) s"
  by (rule wp_each [where I = "\<lambda>pre s'. s' = s \<and> (\<forall>f \<in> set pre. observed sha rollback s f)"])
    (auto intro!: wp_mono [OF observe_file_wp])

lemma read_then:
  "keeps (=) m \<Longrightarrow> wp k Q E s \<Longrightarrow> (\<And>e. E e s) \<Longrightarrow> wp (op_seq m k) Q E s"
  by (rule wp_then [OF keeps_eq]) auto

text \<open>
  C12: acceptance is verified.  When an acceptance succeeds, every target of
  the transaction holds exactly the expected content and permissions (the new
  file, or for a rollback the old one or its absence), and only the phase and
  the command of the receipt changed.
\<close>

theorem update_accept_verified:
  assumes "Accept sha rid rollback (t, s) = (Inr (), t', s')"
  shows "\<exists>r. st_receipts s rid = Holds r \<and> rc_rollback r = rollback \<and>
     st_receipts s' = (st_receipts s)(rid := Holds (accepted_receipt rollback r)) \<and>
     st_installed s' = st_installed s \<and> (\<forall>f \<in> set (rc_files r). observed sha rollback s' f)"
proof -
  let ?Q = "\<lambda>(_::unit) s'. \<exists>r. st_receipts s rid = Holds r \<and> rc_rollback r = rollback \<and>
     st_receipts s' = (st_receipts s)(rid := Holds (accepted_receipt rollback r)) \<and>
     st_installed s' = st_installed s \<and> (\<forall>f \<in> set (rc_files r). observed sha rollback s' f)"
  let ?E = "\<lambda>(_::su_error) _. True"
  have w: "wp (writeReceipt (accepted_receipt rollback r)) ?Q ?E s1"
    if "untouched s s1" "st_receipts s rid = Holds r" "rc_id r = rid" "rc_rollback r = rollback"
      "\<forall>f \<in> set (rc_files r). observed sha rollback s1 f" for r s1
    unfolding writeReceipt_def
    by (rule wp_effect)
      (use that in \<open>auto simp: untouched_def same_journal_def accepted_receipt_def observed_def\<close>)
  have body: "wp (op_seq (op_check SuIO) (
          op_seq (op_check SuIO) (
          op_seq (op_check SuIO) (
          op_seq (op_check SuIO) (
          op_seq (op_each (observe_file SuIO sha rollback) (rc_files r)) (
          op_seq (op_check SuIO) (
          op_seq (op_check SuIO) (
          writeReceipt (accepted_receipt rollback r)))))))) ) ?Q ?E s1"
    if "untouched s s1" "st_receipts s rid = Holds r" "rc_id r = rid" "rc_rollback r = rollback" for r s1
    by (rule read_then [OF eq_check], rule read_then [OF eq_check], rule read_then [OF eq_check],
        rule read_then [OF eq_check], rule wp_then [OF observe_all_wp], rule read_then [OF eq_check],
        rule read_then [OF eq_check]) (use that w in auto)
  have m: "wp (matching sha rid) (\<lambda>r s'. s' = s1 \<and> st_receipts s rid = Holds r \<and> rc_id r = rid) ?E s1"
    if "untouched s s1" for s1
    by (rule wp_mono [OF matching_wp]) (use that in \<open>auto simp: untouched_def same_journal_def\<close>)
  have l: "wp lockWriter (\<lambda>_. untouched s) ?E s"
    by (rule wp_mono [of _ "\<lambda>_. untouched s" "\<lambda>_. untouched s"]) (use un_lock in \<open>auto simp: keeps_def\<close>)
  have "wp (Accept sha rid rollback) ?Q ?E s"
    unfolding Accept_def
    by (rule wp_then [OF l], rule wp_call [OF m], assumption)
      (intro wp_if wp_fail TrueI read_then [OF eq_evidence] read_then [OF eq_verifyImages] body; simp)+
  from wp_Inr [OF this assms] show ?thesis .
qed

theorem update_accept_verified_witness:
  "\<exists>t' s'. Accept demo_sha demo_rid False ([], demo_store\<lparr>st_pointer := Holds (2, demo_rid),
       st_writer := Holds (), st_installed := (\<lambda>_. NoFile)(bin_target := FileAt ''v2'' 493),
       st_images := [(demo_rid, New, 0) \<mapsto> ''v2''],
       st_receipts := (\<lambda>_. Missing)(demo_rid := Holds (prepared_receipt demo_rid
         [\<lparr>fi_target = bin_target, fi_old_present = False, fi_old_hash = [], fi_old_mode = 0,
           fi_new_hash = demo_sha ''v2''\<rparr>]\<lparr>rc_phase := Installed, rc_index := 1\<rparr>))\<rparr>) = (Inr (), t', s') \<and>
     st_installed s' bin_target = FileAt ''v2'' 493"
proof -
  let ?r = "prepared_receipt demo_rid [\<lparr>fi_target = bin_target, fi_old_present = False, fi_old_hash = [],
      fi_old_mode = 0, fi_new_hash = demo_sha ''v2''\<rparr>]\<lparr>rc_phase := Installed, rc_index := 1\<rparr>"
  let ?s = "demo_store\<lparr>st_pointer := Holds (2, demo_rid),
       st_writer := Holds (), st_installed := (\<lambda>_. NoFile)(bin_target := FileAt ''v2'' 493),
       st_images := [(demo_rid, New, 0) \<mapsto> ''v2''],
       st_receipts := (\<lambda>_. Missing)(demo_rid := Holds ?r)\<rparr>"
  have v: "valid demo_sha ?r"
    using demo_sha_ok
    by (simp add: valid_def schema_ok_def schema_defs prepared_receipt_def id_pattern_def demo_rid_def
        list_all_iff char_class_defs commands_ok_def direction_ok_def complete_def file_ok_def allowedTarget_def
        sha_ok_def)
  have "matching demo_sha demo_rid ([], ?s) = (Inr ?r, [], ?s)"
    by (rule matching_run [OF _ _ v]) (simp_all add: prepared_receipt_def pointer_matches_def schema_defs)
  moreover have "verifyImages demo_sha ?r ([], ?s) = (Inr (), [], ?s)"
    by (rule verifyImages_run) (simp add: images_intact_def image_matches_def prepared_receipt_def maxFileBytes_def)
  ultimately obtain s' where e: "Accept demo_sha demo_rid False ([], ?s) = (Inr (), [], s')"
    by (simp add: Accept_def lockWriter_def openWriter_def run_simps prepared_receipt_def verifyPairedEvidence_def
        schema_defs accept_phase_ok_def observe_file_def hashFile_def maxFileBytes_def expected_hash_def
        installed_mode_def expected_mode_def target_mode_def perm_def writeReceipt_def)
  from update_accept_verified [OF e] e show ?thesis by auto
qed

text \<open>
  C13: a paired prior state is never rolled back live.  While the current
  receipt has the paired schema, a rollback and the acceptance of a rollback
  are refused, and so is an installation once it is archived; nothing changes.
\<close>

theorem update_paired_no_rollback:
  assumes "current s r" "rc_schema r = PairedSchema"
  shows "(\<exists>e. fst (Restore sha rid (t, s)) = Inl e \<and> untouched s (op_final (Restore sha rid) t s)) \<and>
     (\<exists>e. fst (Accept sha rid True (t, s)) = Inl e \<and> untouched s (op_final (Accept sha rid True) t s)) \<and>
     (rc_phase r = Archived \<longrightarrow>
        (\<exists>e. fst (Install sha rid (t, s)) = Inl e \<and> untouched s (op_final (Install sha rid) t s)))"
proof -
  have "refuses (Restore sha rid) s s"
    unfolding Restore_def replace_def
    by (intro refuses_locked refuses_matching(1) [OF assms(1)] refuses_if refuses_fail) (use assms(2) in auto)
  moreover have "refuses (Accept sha rid True) s s"
    unfolding Accept_def
    by (intro refuses_locked refuses_matching(1) [OF assms(1)] refuses_if refuses_fail) (use assms(2) in auto)
  moreover have "refuses (Install sha rid) s s" if "rc_phase r = Archived"
    unfolding Install_def replace_def
    by (intro refuses_locked refuses_matching(1) [OF assms(1)] refuses_if refuses_fail) (use that in auto)
  ultimately show ?thesis using refuses_result by blast
qed

theorem update_paired_no_rollback_witness:
  "\<exists>e. fst (Restore demo_sha demo_rid ([], demo_store\<lparr>st_pointer := Holds (4, demo_rid),
     st_receipts := (\<lambda>_. Missing)(demo_rid := Holds (prepared_receipt demo_rid []\<lparr>rc_schema := 4\<rparr>))\<rparr>)) = Inl e"
  by (rule conjunct1 [OF update_paired_no_rollback
        [of _ "prepared_receipt demo_rid []\<lparr>rc_schema := 4\<rparr>" demo_sha demo_rid "[]"], THEN exE])
    (auto simp: current_def prepared_receipt_def schema_defs)

lemma verifyInstallation_wp:
  assumes "current s r"
  shows "wp (VerifyInstallation sha rid rollback)
     (\<lambda>_ s'. s' = s \<and> rid = rc_id r \<and> (\<forall>f \<in> set (rc_files r). observed sha rollback s f)) (\<lambda>_ s'. s' = s) s"
proof -
  have each: "wp (op_each (\<lambda>f. op_seq (op_check SuIO) (observe_file SuMismatch sha rb f)) fs)
      (\<lambda>_ s'. s' = s \<and> (\<forall>f \<in> set fs. observed sha rb s f)) (\<lambda>_ s'. s' = s) s" for fs rb
    by (rule wp_each [where I = "\<lambda>pre s'. s' = s \<and> (\<forall>f \<in> set pre. observed sha rb s f)"])
      (auto intro!: wp_seq wp_check wp_mono [OF observe_file_wp])
  show ?thesis
    unfolding VerifyInstallation_def verifyInstallation_def
    by (rule wp_call [OF matching_current [OF assms]])
      (auto intro!: wp_fail read_then [OF eq_evidence] read_then [OF eq_verifyImages]
        wp_then [OF each] wp_check)
qed

text \<open>The settled receipt of \<open>rid\<close>, and the state in which it is published.\<close>

definition settling :: "stopped_binding \<Rightarrow> store \<Rightarrow> receipt \<Rightarrow> receipt \<Rightarrow> store \<Rightarrow> bool" where
  "settling b s r r' s1 \<longleftrightarrow> st_receipts s1 (rc_id r) = Holds r' \<and> rc_phase r' = RolledBackStopped \<and>
     rc_stopped r' = Some b \<and> later_receipt r r' \<and> validStoppedBinding b \<and> st_installed s1 = st_installed s"

definition settled_at :: "(string \<Rightarrow> string) \<Rightarrow> stopped_binding \<Rightarrow> store \<Rightarrow> receipt \<Rightarrow> store \<Rightarrow> bool" where
  "settled_at sha b s r s1 \<longleftrightarrow> (\<exists>r'. settling b s r r' s1) \<and>
     st_pointer s1 = Holds (StoppedSchema, rc_id r) \<and> (\<forall>f \<in> set (rc_files r). observed sha True s1 f)"

lemma settle_final:
  assumes "settling b s r r' s1" "st_pointer s1 = Holds (StoppedSchema, rc_id r)"
  shows "wp (stopped_check sha (rc_id r)) (\<lambda>_. settled_at sha b s r) (\<lambda>_ _. True) s1"
proof -
  have c: "current s1 r'" and f: "rc_files r' = rc_files r"
    using assms by (auto simp: settling_def current_def later_receipt_def)
  show ?thesis
    unfolding stopped_check_def
    by (rule read_then [OF eq_checks(1)], rule read_then [OF eq_check], rule wp_then [OF verifyInstallation_wp [OF c]])
      (use assms f in \<open>auto intro!: wp_check simp: settled_at_def\<close>)
qed

lemma settle_tail:
  assumes "settling b s r r' s1"
  shows "wp (op_seq (stopped_check sha (rc_id r)) (op_seq (writePointer StoppedSchema (rc_id r))
     (stopped_check sha (rc_id r)))) (\<lambda>_. settled_at sha b s r) (\<lambda>_ _. True) s1"
proof -
  have "settling b s r r' (s1\<lparr>st_pointer := Holds (StoppedSchema, rc_id r)\<rparr>)"
    using assms by (simp add: settling_def)
  then show ?thesis
    unfolding writePointer_def
    by (intro read_then [OF eq_stopped_check] wp_seq [of "op_effect _ _"] wp_effect settle_final) auto
qed

lemma settle_write:
  assumes "st_receipts s1 (rc_id r) = Holds r" "st_installed s1 = st_installed s" "validStoppedBinding b"
    "rc_phase r = RolledBackStopped \<Longrightarrow> rc_stopped r = Some b"
  shows "wp (op_seq (if rc_phase r \<noteq> RolledBackStopped then writeReceipt (stopped_receipt b r) else op_return ())
     (op_seq (stopped_check sha (rc_id r)) (op_seq (writePointer StoppedSchema (rc_id r))
     (stopped_check sha (rc_id r))))) (\<lambda>_. settled_at sha b s r) (\<lambda>_ _. True) s1"
proof -
  define k where "k = op_seq (stopped_check sha (rc_id r)) (op_seq (writePointer StoppedSchema (rc_id r))
     (stopped_check sha (rc_id r)))"
  note tail = settle_tail [of b s r _ _ sha, folded k_def]
  show ?thesis
    unfolding k_def [symmetric]
  proof (cases "rc_phase r = RolledBackStopped")
    case True
    with assms have "settling b s r r s1" by (simp add: settling_def)
    from tail [OF this] True show "wp (op_seq (if rc_phase r \<noteq> RolledBackStopped then
        writeReceipt (stopped_receipt b r) else op_return ()) k) (\<lambda>_. settled_at sha b s r) (\<lambda>_ _. True) s1"
      by (intro wp_seq) (simp add: wp_return)
  next
    case False
    have "settling b s r (stopped_receipt b r)
        (s1\<lparr>st_receipts := (st_receipts s1)(rc_id r := Holds (stopped_receipt b r))\<rparr>)"
      using assms by (simp add: settling_def stopped_receipt_def later_receipt_def)
    note st = tail [OF this]
    have rid: "rc_id (stopped_receipt b r) = rc_id r" by (simp add: stopped_receipt_def)
    have "wp (writeReceipt (stopped_receipt b r)) (\<lambda>_. wp k (\<lambda>_. settled_at sha b s r) (\<lambda>_ _. True)) (\<lambda>_ _. True) s1"
      unfolding writeReceipt_def rid by (rule wp_effect) (rule st, (rule TrueI)+)
    with False show "wp (op_seq (if rc_phase r \<noteq> RolledBackStopped then
        writeReceipt (stopped_receipt b r) else op_return ()) k) (\<lambda>_. settled_at sha b s r) (\<lambda>_ _. True) s1"
      by (intro wp_seq) simp
  qed
qed

lemma settle_wp:
  assumes "st_receipts s (rc_id r) = Holds r"
  shows "wp (SettleStoppedRollback sha (rc_id r) b) (\<lambda>_. settled_at sha b s r) (\<lambda>_ _. True) s"
proof -
  have lock: "wp lockWriter (\<lambda>_. untouched s) (\<lambda>_ _. True) s"
    by (rule wp_mono [of _ "\<lambda>_. untouched s" "\<lambda>_. untouched s"]) (use un_lock in \<open>auto simp: keeps_def\<close>)
  have m: "wp (matching sha (rc_id r)) (\<lambda>r1 s'. s' = s1 \<and> r1 = r) (\<lambda>_ _. True) s1" if "untouched s s1" for s1
  proof (rule wp_mono [OF matching_wp])
    have "st_receipts s1 = st_receipts s" using that by (simp add: untouched_def same_journal_def)
    then show "s' = s1 \<and> r1 = r" if "s' = s1 \<and> st_receipts s1 (rc_id r) = Holds r1 \<and> valid sha r1 \<and>
        rc_id r1 = rc_id r \<and> (\<exists>n. st_pointer s1 = Holds (n, rc_id r) \<and> pointer_matches n r1)" for r1 s'
      using that assms by (metis slot.inject)
  qed simp
  show ?thesis
    unfolding SettleStoppedRollback_def
  proof (rule wp_then [OF lock], rule wp_call [OF m], assumption)
    fix s1 r1 s2 assume u: "untouched s s1" and "s2 = s1 \<and> r1 = r"
    then have e: "s2 = s1" "r1 = r" by auto
    show "wp (if rc_phase r1 = CommandStarted then op_fail SuUnknown
       else if \<not> validStoppedBinding b \<or> length (rc_files r1) \<noteq> 6 \<or> \<not> rc_rollback r1 \<or> \<not> complete r1
       then op_fail SuPending
       else if rc_phase r1 = RolledBackStopped \<and> rc_stopped r1 \<noteq> Some b then op_fail SuMismatch
       else if rc_phase r1 \<noteq> RolledBackStopped \<and>
         (rc_schema r1 \<noteq> Schema \<or> rc_phase r1 \<noteq> Restored \<and> rc_phase r1 \<noteq> CommandFinished)
       then op_fail SuPending
       else op_seq (stopped_check sha (rc_id r)) (
         op_seq (if rc_phase r1 \<noteq> RolledBackStopped then writeReceipt (stopped_receipt b r1) else op_return ()) (
         op_seq (stopped_check sha (rc_id r)) (
         op_seq (writePointer StoppedSchema (rc_id r)) (
         stopped_check sha (rc_id r)))))) (\<lambda>_. settled_at sha b s r) (\<lambda>_ _. True) s2"
      unfolding e
      by (intro wp_if wp_fail TrueI read_then [OF eq_stopped_check] settle_write)
        (use u assms in \<open>simp_all add: untouched_def same_journal_def\<close>)
  qed auto
qed

text \<open>
  C14: a settled stopped rollback is bound and restored.  When the settlement
  of a stopped rollback succeeds, the current receipt is terminal with exactly
  the reviewed binding, the pointer has the stopped schema, and every target
  holds its old content; the installation itself is never written.
\<close>

theorem update_settled:
  assumes "SettleStoppedRollback sha rid b (t, s) = (Inr (), t', s')" "st_receipts s rid = Holds r" "rc_id r = rid"
  shows "\<exists>r'. st_receipts s' rid = Holds r' \<and> rc_phase r' = RolledBackStopped \<and> rc_stopped r' = Some b \<and>
     later_receipt r r' \<and> validStoppedBinding b \<and> st_pointer s' = Holds (StoppedSchema, rid) \<and>
     st_installed s' = st_installed s \<and> (\<forall>f \<in> set (rc_files r). observed sha True s' f)"
proof -
  have "settled_at sha b s r s'"
    using wp_Inr [OF settle_wp [where r = r and b = b and sha = sha and s = s]] assms by simp
  then show ?thesis unfolding settled_at_def settling_def using assms(3) by blast
qed

lemma observe_run:
  "observed sha rollback s f \<Longrightarrow> (\<And>d m. st_installed s (fi_target f) = FileAt d m \<Longrightarrow> length d \<le> maxFileBytes) \<Longrightarrow>
   observe_file e sha rollback f ([], s) = (Inr (), [], s)"
  by (auto simp: observed_def observe_file_def hashFile_def run_simps installed_mode_def split: installed.splits)

lemma VerifyInstallation_run:
  assumes "matching sha rid ([], s) = (Inr r, [], s)" "rc_rollback r = rollback" "complete r"
    "rc_schema r \<noteq> PairedSchema" "images_intact sha s r"
    "\<forall>f \<in> set (rc_files r). observed sha rollback s f \<and> st_installed s (fi_target f) = NoFile"
  shows "VerifyInstallation sha rid rollback ([], s) = (Inr (), [], s)"
proof -
  have "op_each (\<lambda>f. op_seq (op_check SuIO) (observe_file SuMismatch sha rollback f)) (rc_files r) ([], s) =
      (Inr (), [], s)"
    by (rule run_each_same) (use assms(6) in \<open>auto simp: run_simps intro!: observe_run\<close>)
  then show ?thesis
    using assms(1-4) verifyImages_run [OF assms(5)]
    by (simp add: VerifyInstallation_def verifyInstallation_def run_simps verifyPairedEvidence_def)
qed

definition demo_binding :: stopped_binding where
  "demo_binding = \<lparr>sb_installation = demo_rid, sb_pre_stop = 7, sb_stop = 8, sb_revision = 3, sb_reader = 3\<rparr>"

definition demo_restored :: receipt where
  "demo_restored = (prepared_receipt demo_rid (map (\<lambda>t. \<lparr>fi_target = t, fi_old_present = False,
     fi_old_hash = [], fi_old_mode = 0, fi_new_hash = demo_sha t\<rparr>)
     [bin_target, init_target, config_target, ''etc/razvilka/service-catalog.json'',
      ''etc/razvilka/community-catalog.json'', ''etc/razvilka/sources.json'']))
     \<lparr>rc_phase := Restored, rc_index := 6, rc_rollback := True\<rparr>"

definition demo_settling :: store where
  "demo_settling = demo_store\<lparr>st_pointer := Holds (2, demo_rid), st_writer := Holds (),
     st_installed := (\<lambda>_. NoFile), st_images := (\<lambda>(_, v, _). if v = New then Some [] else None),
     st_receipts := (\<lambda>_. Missing)(demo_rid := Holds demo_restored)\<rparr>"

lemma demo_restored_ok: "receipt_ok demo_sha demo_restored"
  using demo_sha_ok
  by (simp add: demo_restored_def receipt_ok_def valid_def schema_ok_def schema_defs prepared_receipt_def
      id_pattern_def demo_rid_def list_all_iff char_class_defs commands_ok_def direction_ok_def complete_def
      file_ok_def allowedTarget_def sha_ok_def bin_target_def init_target_def config_target_def)

lemma demo_binding_ok: "validStoppedBinding demo_binding"
  by (simp add: demo_binding_def validStoppedBinding_def schema_defs id_pattern_def demo_rid_def
      list_all_iff char_class_defs)

lemma demo_check:
  assumes "st_receipts s demo_rid = Holds r" "st_pointer s = Holds (n, demo_rid)" "pointer_matches n r"
    "r = demo_restored \<or> r = stopped_receipt demo_binding demo_restored"
    "st_installed s = (\<lambda>_. NoFile)" "st_images s = (\<lambda>(_, v, _). if v = New then Some [] else None)"
  shows "stopped_check demo_sha demo_rid ([], s) = (Inr (), [], s)"
proof -
  have "receipt_ok demo_sha (stopped_receipt demo_binding demo_restored)"
    by (rule stopped_ok [OF demo_restored_ok demo_binding_ok])
      (simp_all add: demo_restored_def prepared_receipt_def complete_def)
  then have v: "valid demo_sha r" using assms(4) demo_restored_ok by (auto simp: receipt_ok_def)
  have r: "rc_id r = demo_rid" "rc_rollback r" "complete r" "rc_schema r \<noteq> PairedSchema"
    "\<forall>f \<in> set (rc_files r). \<not> fi_old_present f \<and> fi_old_hash f = [] \<and> fi_new_hash f = demo_sha []"
    using assms(4) by (auto simp: demo_restored_def stopped_receipt_def prepared_receipt_def complete_def
      schema_defs demo_sha_def)
  have "images_intact demo_sha s r"
    using r(5) assms(6) by (auto simp: images_intact_def image_matches_def maxFileBytes_def)
  moreover have "\<forall>f \<in> set (rc_files r). observed demo_sha True s f \<and> st_installed s (fi_target f) = NoFile"
    using r(5) assms(5) by (auto simp: observed_def expected_hash_def)
  ultimately have "VerifyInstallation demo_sha demo_rid True ([], s) = (Inr (), [], s)"
    using r by (intro VerifyInstallation_run [OF matching_run [OF assms(2,1) v r(1) assms(3)]]) auto
  then show ?thesis by (simp add: stopped_check_def run_simps)
qed

theorem update_settled_witness:
  "\<exists>t' s' r'. SettleStoppedRollback demo_sha demo_rid demo_binding ([], demo_settling) = (Inr (), t', s') \<and>
     st_receipts s' demo_rid = Holds r' \<and> rc_stopped r' = Some demo_binding"
proof -
  let ?r = "stopped_receipt demo_binding demo_restored"
  let ?s1 = "demo_settling\<lparr>st_receipts := (st_receipts demo_settling)(rc_id ?r := Holds ?r)\<rparr>"
  let ?s2 = "?s1\<lparr>st_pointer := Holds (StoppedSchema, demo_rid)\<rparr>"
  have id: "rc_id ?r = demo_rid" "rc_id demo_restored = demo_rid"
    by (simp_all add: stopped_receipt_def demo_restored_def prepared_receipt_def)
  have ph: "rc_phase demo_restored = Restored" "length (rc_files demo_restored) = 6" "rc_rollback demo_restored"
      "complete demo_restored" "rc_schema demo_restored = Schema"
    by (simp_all add: demo_restored_def prepared_receipt_def complete_def)
  have pm: "pointer_matches 2 demo_restored" "pointer_matches 2 ?r" "pointer_matches StoppedSchema ?r"
    by (simp_all add: pointer_matches_def stopped_receipt_def demo_restored_def prepared_receipt_def schema_defs)
  have st: "st_receipts demo_settling demo_rid = Holds demo_restored" "st_pointer demo_settling = Holds (2, demo_rid)"
      "st_installed demo_settling = (\<lambda>_. NoFile)" "st_writer demo_settling = Holds ()"
      "st_images demo_settling = (\<lambda>(_, v, _). if v = New then Some [] else None)"
    by (simp_all add: demo_settling_def)
  have m: "matching demo_sha demo_rid ([], demo_settling) = (Inr demo_restored, [], demo_settling)"
    by (rule matching_run [OF st(2,1) _ id(2) pm(1)]) (use demo_restored_ok in \<open>simp add: receipt_ok_def\<close>)
  have c: "stopped_check demo_sha demo_rid ([], demo_settling) = (Inr (), [], demo_settling)"
      "stopped_check demo_sha demo_rid ([], ?s1) = (Inr (), [], ?s1)"
      "stopped_check demo_sha demo_rid ([], ?s2) = (Inr (), [], ?s2)"
    by (rule demo_check [where r = demo_restored and n = 2], use st pm id in simp_all,
        rule demo_check [where r = ?r and n = 2], use st pm id in simp_all,
        rule demo_check [where r = ?r and n = StoppedSchema], use st pm id in simp_all)
  have e: "SettleStoppedRollback demo_sha demo_rid demo_binding ([], demo_settling) = (Inr (), [], ?s2)"
    using c m ph st(4)
    by (simp add: SettleStoppedRollback_def lockWriter_def openWriter_def run_simps demo_binding_ok writePointer_def)
  from update_settled [OF e st(1) id(2)] e show ?thesis by blast
qed

definition covers_schemas :: "store \<Rightarrow> int \<Rightarrow> bool" where
  "covers_schemas s v \<longleftrightarrow>
     (\<forall>(name, d) \<in> set (st_entries s). \<exists>r. st_receipts s name = Holds r \<and> rc_schema r \<le> v) \<and>
     (v = 1 \<or> (\<exists>(name, d) \<in> set (st_entries s). \<exists>r. st_receipts s name = Holds r \<and> rc_schema r = v))"

lemma max_schema_fold:
  "fold (\<lambda>r m. if rc_schema r > m then rc_schema r else m) rs m0 = Max (insert m0 (rc_schema ` set rs))"
proof (induction rs arbitrary: m0)
  case (Cons r rs)
  have "Max (insert (max m0 (rc_schema r)) (rc_schema ` set rs)) = Max (insert m0 (rc_schema ` set (r # rs)))"
    by (cases "rs = []") (simp_all add: max.assoc)
  moreover have "(if rc_schema r > m0 then rc_schema r else m0) = max m0 (rc_schema r)" by (simp add: max_def)
  ultimately show ?case by (simp only: fold.simps o_apply Cons.IH)
qed simp

lemma max_schema_Max: "max_schema rs = Max (insert 1 (rc_schema ` set rs))"
  unfolding max_schema_def by (rule max_schema_fold)

lemma scan_entries_wp:
  "wp (scan_entries sha cur pend scan es)
     (\<lambda>rs s'. s' = s \<and> map (st_receipts s) (map fst es) = map Holds rs) (\<lambda>_ s'. s' = s) s"
proof (induction es)
  case (Cons e es)
  have "wp (scan_entry sha cur pend scan e) (\<lambda>r s'. s' = s \<and> st_receipts s (fst e) = Holds r) (\<lambda>_ s'. s' = s) s"
    unfolding scan_entry_def
    by (rule read_then [OF eq_check], rule wp_if, rule wp_fail, simp, rule wp_call [OF readReceipt_wp])
      (auto intro!: wp_fail wp_return read_then [OF eq_verifyImages] read_then [OF eq_evidence])
  then show ?case
    unfolding scan_entries.simps
  proof (rule wp_call)
    fix r s1 assume "s1 = s \<and> st_receipts s (fst e) = Holds r"
    then have s1: "s1 = s" and r: "st_receipts s (fst e) = Holds r" by auto
    show "wp (op_bind (scan_entries sha cur pend scan es) (\<lambda>rs. op_return (r # rs)))
        (\<lambda>rs s'. s' = s \<and> map (st_receipts s) (map fst (e # es)) = map Holds rs) (\<lambda>_ s'. s' = s) s1"
      unfolding s1 by (rule wp_call [OF Cons.IH], rule wp_return) (use r in auto)
  qed auto
qed (auto intro: wp_return)

lemma scanned_covers:
  assumes rs: "map (st_receipts s) (map fst (st_entries s)) = map Holds rs"
  shows "covers_schemas s (max_schema rs)"
proof -
  have len: "length rs = length (st_entries s)" using rs by (metis length_map)
  have nth: "st_receipts s (fst (st_entries s ! i)) = Holds (rs ! i)" if "i < length rs" for i
    using arg_cong [OF rs, of "\<lambda>xs. xs ! i"] that len by simp
  have "\<exists>r. st_receipts s name = Holds r \<and> rc_schema r \<le> max_schema rs" if e: "(name, d) \<in> set (st_entries s)" for name d
  proof -
    from e obtain i where i: "i < length rs" "st_entries s ! i = (name, d)"
      using len by (metis in_set_conv_nth)
    then have "rc_schema (rs ! i) \<le> max_schema rs"
      unfolding max_schema_Max by (intro Max_ge) auto
    with nth [OF i(1)] i(2) show ?thesis by simp
  qed
  moreover have "max_schema rs = 1 \<or> (\<exists>(name, d) \<in> set (st_entries s). \<exists>r. st_receipts s name = Holds r \<and>
      rc_schema r = max_schema rs)"
  proof (cases "max_schema rs = 1")
    case False
    moreover have "max_schema rs \<in> insert 1 (rc_schema ` set rs)"
      unfolding max_schema_Max by (rule Max_in) auto
    ultimately have "max_schema rs \<in> rc_schema ` set rs" by blast
    then obtain i where i: "i < length rs" "rc_schema (rs ! i) = max_schema rs" by (metis imageE in_set_conv_nth)
    then have "st_entries s ! i \<in> set (st_entries s)" using len by simp
    with nth [OF i(1)] i(2) show ?thesis by (auto intro!: bexI [of _ "st_entries s ! i"] split: prod.splits)
  qed simp
  ultimately show ?thesis unfolding covers_schemas_def by blast
qed

text \<open>
  C15: the required reader version covers every retained receipt.  When the
  scan of the journal succeeds, no retained receipt has a schema above the
  version it returns, and the version is 1 or the schema of a receipt.
\<close>

theorem update_read_version:
  assumes "RequiredReadVersion sha (t, s) = (Inr v, t', s')"
  shows "s' = s \<and> covers_schemas s v"
proof -
  have "wp (retainedBinaryImages sha [] True) (\<lambda>x s'. s' = s \<and> covers_schemas s (snd x)) (\<lambda>_ _. True) s"
    unfolding retainedBinaryImages_def
    by (rule wp_call [OF keeps_eq [OF eq_Current]], rule read_then [OF eq_check], rule wp_bind, rule wp_get,
        rule wp_if, rule wp_fail, rule TrueI, rule wp_if, rule wp_fail, rule TrueI, rule read_then [OF eq_check],
        rule wp_call [OF scan_entries_wp])
      (auto intro!: wp_fail wp_return wp_seq wp_check wp_if scanned_covers simp del: map_map)
  then have "wp (RequiredReadVersion sha) (\<lambda>v s'. s' = s \<and> covers_schemas s v) (\<lambda>_ _. True) s"
    unfolding RequiredReadVersion_def by (rule wp_call) (auto intro!: wp_return simp: case_prod_unfold)
  from wp_Inr [OF this assms] show ?thesis .
qed

theorem update_read_version_witness:
  "RequiredReadVersion demo_sha ([], demo_store) = (Inr 1, [], demo_store) \<and>
   covers_schemas demo_store 1"
proof -
  have e: "RequiredReadVersion demo_sha ([], demo_store) = (Inr 1, [], demo_store)"
    by (simp add: RequiredReadVersion_def retainedBinaryImages_def Current_def demo_store_def run_simps max_schema_def)
  from update_read_version [OF e] e show ?thesis by auto
qed

end
