(* ===== verification/Operation_Gate.thy ===== *)
theory Operation_Gate
  imports Prelude "HOL-Library.Word"
begin

text \<open>
  \<open>internal/operationgate\<close>: \<open>gate.go\<close> admits overlapping shared operations or
  one exclusive operation, \<open>exclusive_context.go\<close> lends the exclusive admission
  to synchronous uses that its release joins, \<open>exclusive_cleanup.go\<close> keeps it
  for cleanup.  Each method runs under the mutex of the gate or of the owner
  and is one step; context errors and the guard are interactions.
\<close>

section \<open>The gate\<close>

datatype gate_error = GBusy | GRecovery | GJournal | GChanged | GContext | GGuard

record holder =
  ho_label :: string
  ho_since :: time
  ho_exclusive :: bool

text \<open>
  An admission is what the release closure captured.  \<open>og_live\<close> lists the
  admissions whose \<open>once\<close> has not run; \<open>ad_serial\<close> is the identity of the
  closure and \<open>og_advanced\<close> the number of admissions that advanced the
  generation.  \<open>og_active\<close> counts operations in memory.
\<close>

record admission =
  ad_serial :: nat
  ad_holder :: "64 word"
  ad_exclusive :: bool

record gate =
  og_active :: nat
  og_exclusive :: bool
  og_fenced :: bool
  og_reason :: gate_error
  og_generation :: "64 word"
  og_holders :: "(64 word \<times> holder) list"
  og_next :: "64 word"
  og_guard :: bool
  og_live :: "admission list"
  og_serial :: nat
  og_advanced :: nat

type_synonym 'a gate_op = "(gate, gate_error, 'a) op"

definition new_gate :: gate where
  "new_gate = \<lparr>og_active = 0, og_exclusive = False, og_fenced = False, og_reason = GRecovery,
     og_generation = 0, og_holders = [], og_next = 0, og_guard = False, og_live = [], og_serial = 0, og_advanced = 0\<rparr>"

definition SetGuard :: "unit gate_op" where
  "SetGuard = op_bind (op_get (\<lambda>g. g)) (\<lambda>g.
     if og_active g \<noteq> 0 \<or> og_generation g \<noteq> 0 \<or> og_fenced g then op_fail GBusy
     else op_modify (\<lambda>g. g\<lparr>og_guard := True\<rparr>))"

text \<open>
  The holder a refusal names: the exclusive one, otherwise the labelled one
  that started first.  The model visits the map in the order of its list.
\<close>

fun holder_loop :: "(64 word \<times> holder) list \<Rightarrow> (string \<times> time) option \<Rightarrow> (string \<times> time) option" where
  "holder_loop [] best = best"
| "holder_loop ((_, h) # hs) best =
     (if ho_exclusive h then Some (ho_label h, ho_since h)
      else holder_loop hs
        (if ho_label h \<noteq> [] \<and> (case best of None \<Rightarrow> True | Some (_, since) \<Rightarrow> time_before (ho_since h) since)
         then Some (ho_label h, ho_since h) else best))"

definition Holder :: "gate \<Rightarrow> (string \<times> time) option" where
  "Holder g = holder_loop (og_holders g) None"

definition fence :: "gate_error \<Rightarrow> gate \<Rightarrow> gate" where
  "fence reason g = (if og_fenced g then g else g\<lparr>og_fenced := True, og_reason := reason\<rparr>)"

definition Fence :: "gate \<Rightarrow> gate" where "Fence = fence GRecovery"
definition FenceJournal :: "gate \<Rightarrow> gate" where "FenceJournal = fence GJournal"

definition admitted :: "bool \<Rightarrow> bool \<Rightarrow> string \<Rightarrow> time \<Rightarrow> gate \<Rightarrow> admission \<times> gate" where
  "admitted exclusive advance label now g = (
     let n = og_next g + 1;
         a = \<lparr>ad_serial = og_serial g, ad_holder = n, ad_exclusive = exclusive\<rparr>;
         h = \<lparr>ho_label = label, ho_since = now, ho_exclusive = exclusive\<rparr> in
     (a, g\<lparr>og_active := og_active g + 1,
           og_generation := (if advance then og_generation g + 1 else og_generation g),
           og_exclusive := exclusive, og_next := n,
           og_holders := (n, h) # filter (\<lambda>(i, _). i \<noteq> n) (og_holders g),
           og_live := a # og_live g, og_serial := Suc (og_serial g),
           og_advanced := (if advance then Suc (og_advanced g) else og_advanced g)\<rparr>))"

definition enterAfter :: "bool \<Rightarrow> 64 word option \<Rightarrow> bool \<Rightarrow> string \<Rightarrow> time \<Rightarrow> admission gate_op" where
  "enterAfter exclusive generation advance label now =
     op_bind (op_get (\<lambda>g. g)) (\<lambda>g.
     if og_fenced g then op_fail (og_reason g)
     else op_seq (op_check GContext) (
          op_seq (if advance \<and> og_guard g then op_check GGuard else op_return ()) (
          if (case generation of None \<Rightarrow> False | Some n \<Rightarrow> og_generation g \<noteq> n) then op_fail GChanged
          else if og_exclusive g \<or> exclusive \<and> og_active g \<noteq> 0 then op_fail GBusy
          else op_seq (op_modify (\<lambda>g. snd (admitted exclusive advance label now g)))
                 (op_return (fst (admitted exclusive advance label now g))))))"

definition enter :: "bool \<Rightarrow> string \<Rightarrow> time \<Rightarrow> admission gate_op" where
  "enter exclusive label now = enterAfter exclusive None True label now"

definition Enter :: "string \<Rightarrow> time \<Rightarrow> admission gate_op" where "Enter = enter False"
definition Exclusive :: "string \<Rightarrow> time \<Rightarrow> admission gate_op" where "Exclusive = enter True"

definition IdleGeneration :: "gate \<Rightarrow> 64 word \<times> bool" where
  "IdleGeneration g = (og_generation g, og_active g = 0 \<and> \<not> og_fenced g)"

definition ExclusiveAfter :: "64 word \<Rightarrow> string \<Rightarrow> time \<Rightarrow> admission gate_op" where
  "ExclusiveAfter generation = enterAfter True (Some generation) True"

definition ObserveExclusive :: "64 word option \<Rightarrow> string \<Rightarrow> time \<Rightarrow> admission gate_op" where
  "ObserveExclusive generation = enterAfter True generation False"

text \<open>The release closure; \<open>once\<close> makes every later call do nothing.\<close>

definition release :: "admission \<Rightarrow> gate \<Rightarrow> gate" where
  "release a g = (if a \<notin> set (og_live g) then g
     else g\<lparr>og_active := og_active g - 1,
            og_exclusive := (if ad_exclusive a then False else og_exclusive g),
            og_holders := filter (\<lambda>(i, _). i \<noteq> ad_holder a) (og_holders g),
            og_live := remove1 a (og_live g)\<rparr>)"

section \<open>The exclusive context\<close>

text \<open>
  The owner attached to the context: its admission, the uses in progress,
  whether the release has begun, and whether it has completed.
\<close>

record owner =
  ow_admission :: admission
  ow_closing :: bool
  ow_uses :: nat
  ow_closed :: bool

record gate_world =
  gw_gate :: gate
  gw_owners :: "owner list"

type_synonym 'a world_op = "(gate_world, gate_error, 'a) op"

definition on_gate :: "'a gate_op \<Rightarrow> 'a world_op" where
  "on_gate m = (\<lambda>(t, w). case m (t, gw_gate w) of (r, t', g) \<Rightarrow> (r, t', w\<lparr>gw_gate := g\<rparr>))"

definition set_owner :: "nat \<Rightarrow> owner \<Rightarrow> gate_world \<Rightarrow> gate_world" where
  "set_owner i ow w = w\<lparr>gw_owners := (gw_owners w)[i := ow]\<rparr>"

definition ExclusiveContext :: "string \<Rightarrow> time \<Rightarrow> nat world_op" where
  "ExclusiveContext label now =
     op_bind (on_gate (Exclusive label now)) (\<lambda>a.
     op_bind (op_get (\<lambda>w. length (gw_owners w))) (\<lambda>i.
     op_seq (op_modify (\<lambda>w. w\<lparr>gw_owners := gw_owners w @
         [\<lparr>ow_admission = a, ow_closing = False, ow_uses = 0, ow_closed = False\<rparr>]\<rparr>))
       (op_return i)))"

text \<open>\<open>closeOwner\<close>: refuse new uses, wait for the admitted ones, then release.\<close>

definition close_begin :: "nat \<Rightarrow> gate_world \<Rightarrow> gate_world" where
  "close_begin i w = (if i < length (gw_owners w)
     then set_owner i ((gw_owners w ! i)\<lparr>ow_closing := True\<rparr>) w else w)"

definition close_ready :: "nat \<Rightarrow> gate_world \<Rightarrow> bool" where
  "close_ready i w \<longleftrightarrow> i < length (gw_owners w) \<and> ow_closing (gw_owners w ! i) \<and>
     ow_uses (gw_owners w ! i) = 0 \<and> \<not> ow_closed (gw_owners w ! i)"

definition close_end :: "nat \<Rightarrow> gate_world \<Rightarrow> gate_world" where
  "close_end i w = (if close_ready i w
     then (set_owner i ((gw_owners w ! i)\<lparr>ow_closed := True\<rparr>) w)
       \<lparr>gw_gate := release (ow_admission (gw_owners w ! i)) (gw_gate w)\<rparr>
     else w)"

definition checkExclusiveContext :: "unit world_op" where
  "checkExclusiveContext =
     op_seq (op_check GContext) (
     op_seq (op_check GContext) (
     op_bind (op_get gw_gate) (\<lambda>g.
     if og_fenced g then op_fail (og_reason g)
     else op_guard (og_exclusive g \<and> og_active g = 1) GBusy)))"

text \<open>
  \<open>WithExclusiveContext\<close> up to the callback, and after it.  \<open>i\<close> is the owner
  that the context carries, if it belongs to this gate.
\<close>

definition use_begin :: "nat \<Rightarrow> unit world_op" where
  "use_begin i =
     op_bind (op_get gw_owners) (\<lambda>os.
     if \<not> i < length os then op_fail GBusy
     else if ow_closing (os ! i) then op_fail GBusy
     else op_seq checkExclusiveContext
       (op_modify (\<lambda>w. set_owner i ((gw_owners w ! i)\<lparr>ow_uses := ow_uses (gw_owners w ! i) + 1\<rparr>) w)))"

definition use_end :: "nat \<Rightarrow> gate_world \<Rightarrow> gate_world" where
  "use_end i w = (if i < length (gw_owners w)
     then set_owner i ((gw_owners w ! i)\<lparr>ow_uses := ow_uses (gw_owners w ! i) - 1\<rparr>) w else w)"

definition WithExclusiveContext :: "nat \<Rightarrow> unit world_op \<Rightarrow> unit world_op" where
  "WithExclusiveContext i callback =
     op_seq (use_begin i) (
     op_bind (op_try callback) (\<lambda>r.
     op_bind (op_try checkExclusiveContext) (\<lambda>c.
     op_seq (op_modify (use_end i))
       (case (r, c) of (Inr _, Inr _) \<Rightarrow> op_return () | (Inl e, _) \<Rightarrow> op_fail e | (_, Inl e) \<Rightarrow> op_fail e))))"

text \<open>
  A cleanup review keeps the owner of a live forward admission.  Its own
  finite context replaces the original one, and the fence does not end it.
\<close>

definition ReviewExclusiveCleanup :: "nat \<Rightarrow> nat world_op" where
  "ReviewExclusiveCleanup i = op_seq (WithExclusiveContext i (op_return ())) (op_return i)"

definition cleanup_check :: "unit world_op" where
  "cleanup_check =
     op_seq (op_check GContext) (
     op_bind (op_get gw_gate) (\<lambda>g. op_guard (og_exclusive g \<and> og_active g = 1) GBusy))"

definition cleanup_begin :: "nat \<Rightarrow> unit world_op" where
  "cleanup_begin i =
     op_seq (op_check GBusy) (
     op_bind (op_get gw_owners) (\<lambda>os.
     if \<not> i < length os then op_fail GBusy
     else if ow_closing (os ! i) then op_fail GBusy
     else op_seq cleanup_check
       (op_modify (\<lambda>w. set_owner i ((gw_owners w ! i)\<lparr>ow_uses := ow_uses (gw_owners w ! i) + 1\<rparr>) w))))"

definition WithCurrent :: "nat \<Rightarrow> unit world_op \<Rightarrow> unit world_op" where
  "WithCurrent i callback =
     op_seq (cleanup_begin i) (
     op_bind (op_try callback) (\<lambda>r.
     op_bind (op_try cleanup_check) (\<lambda>c.
     op_seq (op_modify (use_end i))
       (case (r, c) of (Inr _, Inr _) \<Rightarrow> op_return () | (Inl e, _) \<Rightarrow> op_fail e | (_, Inl e) \<Rightarrow> op_fail e))))"

section \<open>Interleavings\<close>

text \<open>
  What the goroutines of the process may do next.  A use ends only after it
  began; an admission lent to an owner is released only by its close.
\<close>

datatype gate_event =
    EvEnter bool "64 word option" bool string time
  | EvRelease admission
  | EvFence gate_error
  | EvContext string time
  | EvUse nat | EvCleanup nat | EvUseEnd nat
  | EvClose nat | EvClosed nat

inductive gate_step :: "gate_world \<Rightarrow> gate_event \<Rightarrow> gate_world \<Rightarrow> bool" where
  stepped_enter: "gate_step w (EvEnter ex gen adv label now) (op_final (on_gate (enterAfter ex gen adv label now)) t w)"
| stepped_release: "a \<notin> ow_admission ` set (gw_owners w) \<Longrightarrow>
     gate_step w (EvRelease a) (w\<lparr>gw_gate := release a (gw_gate w)\<rparr>)"
| stepped_fence: "gate_step w (EvFence reason) (w\<lparr>gw_gate := fence reason (gw_gate w)\<rparr>)"
| stepped_context: "gate_step w (EvContext label now) (op_final (ExclusiveContext label now) t w)"
| stepped_use: "gate_step w (EvUse i) (op_final (use_begin i) t w)"
| stepped_cleanup: "gate_step w (EvCleanup i) (op_final (cleanup_begin i) t w)"
| stepped_end: "i < length (gw_owners w) \<Longrightarrow> 0 < ow_uses (gw_owners w ! i) \<Longrightarrow>
     gate_step w (EvUseEnd i) (use_end i w)"
| stepped_close: "gate_step w (EvClose i) (close_begin i w)"
| stepped_closed: "gate_step w (EvClosed i) (close_end i w)"

inductive_cases gate_stepE: "gate_step w e w'"

definition new_world :: gate_world where
  "new_world = \<lparr>gw_gate = new_gate, gw_owners = []\<rparr>"

end
