(* ===== verification/Gate_Properties.thy ===== *)
theory Gate_Properties
  imports Operation_Gate
begin

text \<open>
  The invariant of the operation gate and of the owners of exclusive contexts
  over all interleavings, and what admission, the lent exclusive admission,
  the generation and the fence promise.
\<close>

section \<open>The invariant\<close>

definition gate_inv :: "gate \<Rightarrow> bool" where
  "gate_inv g \<longleftrightarrow> og_active g = length (og_live g) \<and>
     (\<forall>a \<in> set (og_live g). ad_serial a < og_serial g) \<and> distinct (map ad_serial (og_live g)) \<and>
     (og_exclusive g \<longleftrightarrow> (\<exists>a \<in> set (og_live g). ad_exclusive a)) \<and>
     (og_exclusive g \<longrightarrow> length (og_live g) = 1) \<and>
     og_generation g = of_nat (og_advanced g)"

definition owner_inv :: "gate \<Rightarrow> owner \<Rightarrow> bool" where
  "owner_inv g ow \<longleftrightarrow> ad_exclusive (ow_admission ow) \<and> ad_serial (ow_admission ow) < og_serial g \<and>
     (\<not> ow_closed ow \<longrightarrow> ow_admission ow \<in> set (og_live g)) \<and>
     (ow_closed ow \<longrightarrow> ow_closing ow \<and> ow_uses ow = 0)"

definition world_inv :: "gate_world \<Rightarrow> bool" where
  "world_inv w \<longleftrightarrow> gate_inv (gw_gate w) \<and> (\<forall>ow \<in> set (gw_owners w). owner_inv (gw_gate w) ow) \<and>
     distinct (map ow_admission (gw_owners w))"

lemma gate_inv_new: "gate_inv new_gate"
  by (simp add: gate_inv_def new_gate_def)

lemma world_inv_new: "world_inv new_world"
  by (simp add: world_inv_def new_world_def gate_inv_new)

lemma gate_inv_admitted:
  assumes "gate_inv g" "\<not> og_exclusive g" "\<not> (ex \<and> og_active g \<noteq> 0)"
  shows "gate_inv (snd (admitted ex adv label now g))"
  using assms by (auto simp: gate_inv_def admitted_def Let_def)

lemma gate_inv_fence: "gate_inv g \<Longrightarrow> gate_inv (fence reason g)"
  by (simp add: gate_inv_def fence_def)

lemma gate_inv_release:
  assumes "gate_inv g"
  shows "gate_inv (release a g)"
proof (cases "a \<in> set (og_live g)")
  case True
  then have l: "length (remove1 a (og_live g)) = length (og_live g) - 1" "0 < length (og_live g)"
    by (auto simp: length_remove1)
  have d: "distinct (og_live g)" using assms by (simp add: gate_inv_def distinct_map)
  have m: "distinct (map ad_serial (remove1 a (og_live g)))"
    using assms by (auto simp: gate_inv_def distinct_map inj_on_def dest: notin_set_remove1 set_remove1_subset [THEN subsetD])
  show ?thesis
  proof (cases "og_exclusive g")
    case True
    with assms have "length (og_live g) = 1" by (simp add: gate_inv_def)
    then obtain b where "og_live g = [b]" by (cases "og_live g") auto
    with \<open>a \<in> set (og_live g)\<close> assms True show ?thesis by (auto simp: gate_inv_def release_def)
  next
    case False
    then have "\<forall>b \<in> set (og_live g). \<not> ad_exclusive b" using assms by (auto simp: gate_inv_def)
    with False assms True l d m show ?thesis by (auto simp: gate_inv_def release_def)
  qed
qed (use assms in \<open>simp add: release_def\<close>)

lemma enterAfter_wp:
  "wp (enterAfter ex gen adv label now)
     (\<lambda>a g'. a = fst (admitted ex adv label now g) \<and> g' = snd (admitted ex adv label now g) \<and> \<not> og_exclusive g \<and> \<not> (ex \<and> og_active g \<noteq> 0) \<and>
        \<not> og_fenced g \<and> (\<forall>n. gen = Some n \<longrightarrow> og_generation g = n))
     (\<lambda>_ g'. g' = g) g"
  unfolding enterAfter_def
  by (intro wp_bind wp_get wp_if wp_fail wp_seq wp_check wp_return wp_modify refl)
    (auto split: option.splits)

lemma wp_on_gate:
  assumes "wp m (\<lambda>x g. Q x (w\<lparr>gw_gate := g\<rparr>)) (\<lambda>e g. E e (w\<lparr>gw_gate := g\<rparr>)) (gw_gate w)"
  shows "wp (on_gate m) Q E w"
  unfolding wp_def
proof
  fix t
  obtain r t' g where m: "m (t, gw_gate w) = (r, t', g)" by (metis prod_cases3)
  from wpD [OF assms m] show "case on_gate m (t, w) of (Inl e, t', s') \<Rightarrow> E e s' | (Inr x, t', s') \<Rightarrow> Q x s'"
    by (simp add: on_gate_def m split: sum.splits)
qed

lemma admitted_simps [simp]:
  "og_fenced (snd (admitted ex adv label now g)) = og_fenced g"
  "og_reason (snd (admitted ex adv label now g)) = og_reason g"
  "ad_exclusive (fst (admitted ex adv label now g)) = ex"
  "ad_serial (fst (admitted ex adv label now g)) = og_serial g"
  "og_serial (snd (admitted ex adv label now g)) = Suc (og_serial g)"
  "og_live (snd (admitted ex adv label now g)) = fst (admitted ex adv label now g) # og_live g"
  by (simp_all add: admitted_def Let_def)

lemma owner_inv_more:
  "owner_inv g ow \<Longrightarrow> og_serial g \<le> og_serial g' \<Longrightarrow> set (og_live g) \<subseteq> set (og_live g') \<Longrightarrow> owner_inv g' ow"
  by (auto simp: owner_inv_def)

lemma world_inv_enter:
  assumes "world_inv w"
  shows "wp (on_gate (enterAfter ex gen adv label now))
     (\<lambda>a w'. world_inv w' \<and> gw_owners w' = gw_owners w \<and> ad_exclusive a = ex \<and> ad_serial a = og_serial (gw_gate w) \<and>
        a \<in> set (og_live (gw_gate w')) \<and> og_serial (gw_gate w') = Suc (ad_serial a))
     (\<lambda>_. world_inv) w"
proof (rule wp_on_gate, rule wp_mono [OF enterAfter_wp])
  let ?p = "admitted ex adv label now (gw_gate w)"
  fix a g'
  assume "a = fst ?p \<and> g' = snd ?p \<and> \<not> og_exclusive (gw_gate w) \<and> \<not> (ex \<and> og_active (gw_gate w) \<noteq> 0) \<and>
     \<not> og_fenced (gw_gate w) \<and> (\<forall>n. gen = Some n \<longrightarrow> og_generation (gw_gate w) = n)"
  then have g': "a = fst ?p" "g' = snd ?p" and a: "\<not> og_exclusive (gw_gate w)" "\<not> (ex \<and> og_active (gw_gate w) \<noteq> 0)"
    by blast+
  have "gate_inv g'" unfolding g' using a assms by (intro gate_inv_admitted) (simp_all add: world_inv_def)
  moreover have "\<forall>ow \<in> set (gw_owners w). owner_inv g' ow"
    by (rule ballI, rule owner_inv_more [of "gw_gate w"]) (use assms in \<open>auto simp: world_inv_def g'\<close>)
  ultimately show "world_inv (w\<lparr>gw_gate := g'\<rparr>) \<and> gw_owners (w\<lparr>gw_gate := g'\<rparr>) = gw_owners w \<and> ad_exclusive a = ex \<and>
      ad_serial a = og_serial (gw_gate w) \<and> a \<in> set (og_live (gw_gate (w\<lparr>gw_gate := g'\<rparr>))) \<and>
      og_serial (gw_gate (w\<lparr>gw_gate := g'\<rparr>)) = Suc (ad_serial a)"
    using assms by (simp add: world_inv_def g')
qed (use assms in simp)

lemma release_simps [simp]:
  "og_fenced (release a g) = og_fenced g" "og_reason (release a g) = og_reason g"
  "og_serial (release a g) = og_serial g" "og_advanced (release a g) = og_advanced g"
  "og_generation (release a g) = og_generation g"
  by (simp_all add: release_def)

lemma live_release: "b \<in> set (og_live g) \<Longrightarrow> b \<noteq> a \<Longrightarrow> b \<in> set (og_live (release a g))"
  by (auto simp: release_def in_set_remove1)

lemma world_inv_release:
  assumes "world_inv w" "a \<notin> ow_admission ` set (gw_owners w)"
  shows "world_inv (w\<lparr>gw_gate := release a (gw_gate w)\<rparr>)"
  using assms by (auto simp: world_inv_def owner_inv_def intro: gate_inv_release live_release)

lemma fence_simps [simp]:
  "og_serial (fence r g) = og_serial g" "og_live (fence r g) = og_live g" "og_advanced (fence r g) = og_advanced g"
  "og_fenced (fence r g)" "og_generation (fence r g) = og_generation g" "og_active (fence r g) = og_active g"
  "og_exclusive (fence r g) = og_exclusive g"
  by (simp_all add: fence_def)

lemma world_inv_fence: "world_inv w \<Longrightarrow> world_inv (w\<lparr>gw_gate := fence r (gw_gate w)\<rparr>)"
  by (auto simp: world_inv_def owner_inv_def gate_inv_fence)

text \<open>A change of one owner that keeps its admission.\<close>

lemma admissions_update:
  "i < length os \<Longrightarrow> ow_admission ow = ow_admission (os ! i) \<Longrightarrow>
   map ow_admission (os[i := ow]) = map ow_admission os"
  by (rule nth_equalityI) (auto simp: nth_list_update)

lemma world_inv_owner:
  assumes "world_inv w" "i < length (gw_owners w)" "ow_admission ow = ow_admission (gw_owners w ! i)"
    "owner_inv (gw_gate w) ow"
  shows "world_inv (set_owner i ow w)"
proof -
  have "map ow_admission ((gw_owners w)[i := ow]) = map ow_admission (gw_owners w)"
    using assms(2,3) by (rule admissions_update)
  moreover have "\<forall>x \<in> set ((gw_owners w)[i := ow]). owner_inv (gw_gate w) x"
    using assms(1,4) set_update_subset_insert [of "gw_owners w" i ow] by (auto simp: world_inv_def)
  ultimately show ?thesis using assms(1) by (simp add: world_inv_def set_owner_def)
qed

lemma owner_at: "world_inv w \<Longrightarrow> i < length (gw_owners w) \<Longrightarrow> owner_inv (gw_gate w) (gw_owners w ! i)"
  by (simp add: world_inv_def)

lemma world_inv_close_begin: "world_inv w \<Longrightarrow> world_inv (close_begin i w)"
  unfolding close_begin_def
  by (auto intro!: world_inv_owner dest: owner_at simp: owner_inv_def)

lemma world_inv_use_end: "world_inv w \<Longrightarrow> world_inv (use_end i w)"
  unfolding use_end_def
  by (auto intro!: world_inv_owner dest: owner_at simp: owner_inv_def)

lemma world_inv_close_end:
  assumes "world_inv w"
  shows "world_inv (close_end i w)"
proof (cases "close_ready i w")
  case True
  let ?ow = "gw_owners w ! i"
  have i: "i < length (gw_owners w)" "ow_closing ?ow" "ow_uses ?ow = 0" using True by (auto simp: close_ready_def)
  have inv: "owner_inv (release (ow_admission ?ow) (gw_gate w)) x"
    if "x \<in> set ((gw_owners w)[i := ?ow\<lparr>ow_closed := True\<rparr>])" for x
  proof -
    from that i obtain j where j: "j < length (gw_owners w)" "x = (gw_owners w)[i := ?ow\<lparr>ow_closed := True\<rparr>] ! j"
      by (auto simp: in_set_conv_nth)
    note o = owner_at [OF assms j(1)] owner_at [OF assms i(1)]
    show ?thesis
    proof (cases "j = i")
      case True
      with j i o show ?thesis by (simp add: owner_inv_def)
    next
      case False
      with j i(1) assms have "ow_admission (gw_owners w ! j) \<noteq> ow_admission ?ow"
        by (simp add: world_inv_def distinct_conv_nth)
      with False j o show ?thesis by (auto simp: owner_inv_def intro: live_release)
    qed
  qed
  have "map ow_admission ((gw_owners w)[i := ?ow\<lparr>ow_closed := True\<rparr>]) = map ow_admission (gw_owners w)"
    using i by (intro admissions_update) simp_all
  with assms inv True show ?thesis
    by (simp add: close_end_def world_inv_def set_owner_def gate_inv_release)
qed (use assms in \<open>simp add: close_end_def\<close>)

text \<open>A use begins only while its owner is live.\<close>

lemma use_begin_wp:
  assumes "world_inv w"
  shows "wp (use_begin i) (\<lambda>_. world_inv) (\<lambda>_. world_inv) w" "wp (cleanup_begin i) (\<lambda>_. world_inv) (\<lambda>_. world_inv) w"
proof -
  have inc: "world_inv (set_owner i ((gw_owners w ! i)\<lparr>ow_uses := ow_uses (gw_owners w ! i) + 1\<rparr>) w)"
    if "i < length (gw_owners w)" "\<not> ow_closing (gw_owners w ! i)"
    using that assms owner_at [OF assms that(1)] by (intro world_inv_owner) (auto simp: owner_inv_def)
  show "wp (use_begin i) (\<lambda>_. world_inv) (\<lambda>_. world_inv) w"
    unfolding use_begin_def checkExclusiveContext_def
    by (intro wp_bind wp_get wp_if wp_fail wp_seq wp_check wp_guard wp_modify assms inc) auto
  show "wp (cleanup_begin i) (\<lambda>_. world_inv) (\<lambda>_. world_inv) w"
    unfolding cleanup_begin_def cleanup_check_def
    by (intro wp_bind wp_get wp_if wp_fail wp_seq wp_check wp_guard wp_modify assms inc) auto
qed

lemma ExclusiveContext_wp:
  assumes "world_inv w"
  shows "wp (ExclusiveContext label now) (\<lambda>_. world_inv) (\<lambda>_. world_inv) w"
  unfolding ExclusiveContext_def Exclusive_def enter_def
proof (rule wp_call [OF world_inv_enter [OF assms]])
  fix a w'
  assume a: "world_inv w' \<and> gw_owners w' = gw_owners w \<and> ad_exclusive a = True \<and>
     ad_serial a = og_serial (gw_gate w) \<and> a \<in> set (og_live (gw_gate w')) \<and> og_serial (gw_gate w') = Suc (ad_serial a)"
  have "a \<notin> ow_admission ` set (gw_owners w)"
    using assms a by (auto simp: world_inv_def owner_inv_def)
  with a show "wp (op_bind (op_get (\<lambda>w. length (gw_owners w))) (\<lambda>i.
     op_seq (op_modify (\<lambda>w. w\<lparr>gw_owners := gw_owners w @
         [\<lparr>ow_admission = a, ow_closing = False, ow_uses = 0, ow_closed = False\<rparr>]\<rparr>))
       (op_return i))) (\<lambda>_. world_inv) (\<lambda>_. world_inv) w'"
    by (intro wp_bind wp_get wp_seq wp_modify wp_return) (auto simp: world_inv_def owner_inv_def)
qed

interpretation gi: step_invariant gate_step world_inv
proof
  fix w e w'
  assume "world_inv w" "gate_step w e w'"
  from this(2,1) show "world_inv w'"
    by (cases rule: gate_step.cases)
      (auto intro: world_inv_release world_inv_fence world_inv_close_begin world_inv_close_end world_inv_use_end
        op_final_wp [OF use_begin_wp(1)] op_final_wp [OF use_begin_wp(2)] op_final_wp [OF ExclusiveContext_wp]
        op_final_wp [OF world_inv_enter])
qed

lemmas reachable_inv = gi.run_inv [OF _ world_inv_new]

text \<open>A property of the gate alone that admissions, releases and fences keep.\<close>

lemma gate_step_frame:
  assumes "gate_step w e w'" "P (gw_gate w)"
    "\<And>ex adv label now. \<not> og_fenced (gw_gate w) \<Longrightarrow> P (snd (admitted ex adv label now (gw_gate w)))"
    "\<And>a. P (release a (gw_gate w))" "\<And>r. P (fence r (gw_gate w))"
  shows "P (gw_gate w')"
proof -
  let ?P = "\<lambda>_ w'. P (gw_gate w')"
  have enter: "wp (on_gate (enterAfter ex gen adv label now)) ?P ?P w" for ex gen adv label now
    by (rule wp_on_gate, rule wp_mono [OF enterAfter_wp]) (use assms in auto)
  have ctx: "wp (ExclusiveContext label now) ?P ?P w" for label now
    unfolding ExclusiveContext_def Exclusive_def enter_def
    by (rule wp_call [OF enter]) (auto intro!: wp_bind wp_get wp_seq wp_modify wp_return)
  have use: "wp (use_begin i) ?P ?P w" "wp (cleanup_begin i) ?P ?P w" for i
    unfolding use_begin_def cleanup_begin_def checkExclusiveContext_def cleanup_check_def
    by (intro wp_bind wp_get wp_if wp_fail wp_seq wp_check wp_guard wp_modify; simp add: set_owner_def assms(2))+
  note fin = op_final_wp [where R = "\<lambda>w'. P (gw_gate w')"]
  from assms(1) show ?thesis
  proof (cases rule: gate_step.cases)
    case (stepped_enter ex gen adv label now t)
    then show ?thesis using fin [OF enter] by simp
  next
    case (stepped_context label now t)
    then show ?thesis using fin [OF ctx] by simp
  next
    case (stepped_use i t)
    then show ?thesis using fin [OF use(1)] by simp
  next
    case (stepped_cleanup i t)
    then show ?thesis using fin [OF use(2)] by simp
  qed (use assms in \<open>simp_all add: use_end_def close_begin_def close_end_def set_owner_def\<close>)
qed

section \<open>Properties\<close>


definition demo_admission :: admission where
  "demo_admission = \<lparr>ad_serial = 0, ad_holder = 1, ad_exclusive = True\<rparr>"

definition demo_world :: gate_world where
  "demo_world = op_final (ExclusiveContext ''update'' 5) [] new_world"

lemmas gate_run_defs = demo_world_def new_world_def new_gate_def ExclusiveContext_def Exclusive_def enter_def
  enterAfter_def on_gate_def admitted_def op_final_def Let_def run_simps

lemma demo_world_live: "og_live (gw_gate demo_world) = [demo_admission]"
  by (simp add: gate_run_defs demo_admission_def)

lemma demo_world_run: "runs gate_step new_world [EvContext ''update'' 5] demo_world"
  unfolding demo_world_def by (rule run_one, rule stepped_context)


text \<open>
  C17: a lent exclusive admission outlives its uses.  While any use or cleanup
  of an owner is in progress its admission is live, so every other admission
  is refused and the close of the owner does not release it.
\<close>

theorem lent_use_excludes:
  assumes "runs gate_step new_world es w" "i < length (gw_owners w)" "0 < ow_uses (gw_owners w ! i)"
  shows "og_live (gw_gate w) = [ow_admission (gw_owners w ! i)] \<and> close_end i w = w \<and>
     (\<exists>e. fst (enterAfter ex gen adv label now (t, gw_gate w)) = Inl e)"
proof -
  note inv = reachable_inv [OF assms(1)]
  from owner_at [OF inv assms(2)] assms(3) have a: "ow_admission (gw_owners w ! i) \<in> set (og_live (gw_gate w))"
      "ad_exclusive (ow_admission (gw_owners w ! i))"
    by (auto simp: owner_inv_def)
  then have x: "og_exclusive (gw_gate w)" "og_live (gw_gate w) = [ow_admission (gw_owners w ! i)]"
    using inv by (auto simp: world_inv_def gate_inv_def length_Suc_conv)
  have "wp (enterAfter ex gen adv label now) (\<lambda>_ _. False) (\<lambda>_ _. True) (gw_gate w)"
    by (rule wp_mono [OF enterAfter_wp]) (use x(1) in auto)
  moreover obtain r t' g where e: "enterAfter ex gen adv label now (t, gw_gate w) = (r, t', g)" by (metis prod_cases3)
  ultimately have "case r of Inl e \<Rightarrow> True | Inr a \<Rightarrow> False" by (rule wpD)
  then have "\<exists>e. fst (enterAfter ex gen adv label now (t, gw_gate w)) = Inl e" by (cases r) (auto simp: e)
  with x assms(3) show ?thesis by (simp add: close_end_def close_ready_def)
qed

theorem lent_use_excludes_witness:
  "\<exists>e. fst (enterAfter False None True [] 6 ([], gw_gate (op_final (use_begin 0) [] demo_world))) = Inl e"
proof -
  have r: "runs gate_step new_world ([EvContext ''update'' 5] @ [EvUse 0]) (op_final (use_begin 0) [] demo_world)"
    by (rule run_step [OF demo_world_run stepped_use])
  have "length (gw_owners (op_final (use_begin 0) [] demo_world)) = 1 \<and>
      ow_uses (gw_owners (op_final (use_begin 0) [] demo_world) ! 0) = 1"
    by (simp add: gate_run_defs use_begin_def checkExclusiveContext_def set_owner_def)
  with lent_use_excludes [OF r, where i = 0] show ?thesis by simp
qed

text \<open>
  C18: an observation is invalidated by any admission.  If \<open>ExclusiveAfter\<close>
  with an observed generation is admitted fewer than \<open>2^64\<close> steps later, then
  no advancing admission happened in between, not even one that has finished.
\<close>

lemma gate_step_advanced:
  assumes "gate_step w e w'"
  shows "og_advanced (gw_gate w) \<le> og_advanced (gw_gate w') \<and> og_advanced (gw_gate w') \<le> og_advanced (gw_gate w) + 1"
  by (rule gate_step_frame [OF assms]) (simp_all add: admitted_def Let_def)

lemma gate_run_advanced:
  assumes "runs gate_step w es w'"
  shows "og_advanced (gw_gate w) \<le> og_advanced (gw_gate w') \<and>
     og_advanced (gw_gate w') \<le> og_advanced (gw_gate w) + length es"
  using assms
proof (induction rule: runs.induct)
  case (run_step w es w' e w'')
  from gate_step_advanced [OF run_step.hyps(2)] run_step.IH
  show ?case by simp
qed simp

theorem generation_detects:
  assumes "runs gate_step new_world es0 w" "runs gate_step w es w'" "length es < 2 ^ 64"
    and "IdleGeneration (gw_gate w) = (n, idle)"
    and "ExclusiveAfter n label now (t, gw_gate w') = (Inr a, t', g)"
  shows "og_advanced (gw_gate w') = og_advanced (gw_gate w)"
proof -
  note inv = reachable_inv [OF assms(1)] gi.run_inv [OF assms(2) reachable_inv [OF assms(1)]]
  from wp_Inr [OF enterAfter_wp assms(5) [unfolded ExclusiveAfter_def]] assms(4)
  have "og_generation (gw_gate w') = og_generation (gw_gate w)" by (simp add: IdleGeneration_def)
  with inv have eq: "(of_nat (og_advanced (gw_gate w')) :: 64 word) = of_nat (og_advanced (gw_gate w))"
    by (simp add: world_inv_def gate_inv_def)
  obtain k where k: "og_advanced (gw_gate w') = og_advanced (gw_gate w) + k" "k \<le> length es"
    using gate_run_advanced [OF assms(2)] by (metis le_Suc_ex nat_add_left_cancel_le)
  with eq have "(of_nat k :: 64 word) = 0" by simp
  then have "2 ^ 64 dvd k" by (simp add: word_of_nat_eq_0_iff)
  with k(2) assms(3) have "k = 0" by (meson dvd_imp_le le_less_trans not_less zero_less_iff_neq_zero)
  with k(1) show ?thesis by simp
qed

theorem generation_detects_witness:
  "og_advanced (gw_gate (op_final (on_gate (enterAfter True None False [] 1)) [Refuse] new_world)) =
   og_advanced (gw_gate new_world)"
proof -
  let ?w = "op_final (on_gate (enterAfter True None False [] 1)) [Refuse] new_world"
  have "\<exists>a t' g. ExclusiveAfter 0 [] 2 ([], gw_gate ?w) = (Inr a, t', g)"
    by (simp add: gate_run_defs ExclusiveAfter_def op_check_def op_ask_def)
  then obtain a t' g where "ExclusiveAfter 0 [] 2 ([], gw_gate ?w) = (Inr a, t', g)" by blast
  from generation_detects [OF run_start run_one [of gate_step, OF stepped_enter] _ _ this, of True] show ?thesis
    by (simp add: IdleGeneration_def new_world_def new_gate_def)
qed

text \<open>
  C19: a fence is permanent.  Once the gate is fenced, nothing that happens
  later opens it or changes its reason, every admission fails with that
  reason, and no admission is ever made again.
\<close>

definition fenced_like :: "gate_world \<Rightarrow> gate_world \<Rightarrow> bool" where
  "fenced_like w w' \<longleftrightarrow> (og_fenced (gw_gate w) \<longrightarrow> og_fenced (gw_gate w') \<and>
     og_reason (gw_gate w') = og_reason (gw_gate w) \<and> og_serial (gw_gate w') = og_serial (gw_gate w))"

lemma fenced_step: "gate_step w e w' \<Longrightarrow> fenced_like w w'"
  unfolding fenced_like_def by (erule gate_step_frame) (auto simp: fence_def)

interpretation fl: step_relation gate_step "\<lambda>_. True" fenced_like
  by unfold_locales (auto simp: fenced_step, auto simp: fenced_like_def)

theorem fence_permanent:
  assumes "runs gate_step w es w'" "og_fenced (gw_gate w)"
  shows "fst (enterAfter ex gen adv label now (t, gw_gate w')) = Inl (og_reason (gw_gate w)) \<and>
     og_serial (gw_gate w') = og_serial (gw_gate w)"
  using fl.run_rel [OF assms(1)] assms(2)
  by (simp add: fenced_like_def enterAfter_def run_simps)

theorem fence_permanent_witness:
  "fst (enterAfter False None True [] 9 ([], gw_gate (new_world\<lparr>gw_gate := fence GJournal (fence GJournal new_gate)\<rparr>))) =
   Inl GJournal"
proof -
  have "runs gate_step (new_world\<lparr>gw_gate := fence GJournal new_gate\<rparr>) [EvFence GRecovery]
      (new_world\<lparr>gw_gate := fence GRecovery (fence GJournal new_gate)\<rparr>)"
    using run_one [of gate_step, OF stepped_fence, of "new_world\<lparr>gw_gate := fence GJournal new_gate\<rparr>" GRecovery] by simp
  from fence_permanent [OF this, of False None True "[]" 9 "[]"] show ?thesis
    by (simp add: fence_def new_gate_def)
qed

end
