(* ===== verification/Evidence.thy ===== *)
theory Evidence
  imports Prelude
begin

text \<open>
  \<open>internal/evidence/evidence.go\<close> and the normalisation of probe results in
  \<open>internal/testlab/testlab.go\<close>.  The records leave out the fields that no
  decision reads: URLs, redirects, content metadata, confidence and the
  descriptions of the egress.  Lower-casing and trimming are those of ASCII.
\<close>

section \<open>Levels, outcomes and verdicts\<close>

datatype level =
  LvNone | LvCatalog | LvConfigured | LvRuntime | LvRoute | LvService | LvOther string

datatype verdict =
    VdPass | VdPartial | VdBlocked | VdMisrouted | VdInconclusive | VdError | VdOther string

datatype probe_outcome =
    OcUnknown | OcTransportReachable | OcTLSValid | OcServiceAccepted | OcServiceBlocked
  | OcContentMismatch | OcEdgeUnsuitable | OcOther string

abbreviation no_verdict :: verdict where "no_verdict \<equiv> VdOther []"
abbreviation no_outcome :: probe_outcome where "no_outcome \<equiv> OcOther []"

fun verdict_valid :: "verdict \<Rightarrow> bool" where
  "verdict_valid (VdOther _) \<longleftrightarrow> False"
| "verdict_valid _ \<longleftrightarrow> True"

fun outcome_valid :: "probe_outcome \<Rightarrow> bool" where
  "outcome_valid (OcOther _) \<longleftrightarrow> False"
| "outcome_valid _ \<longleftrightarrow> True"

fun ranks :: "level \<Rightarrow> nat option" where
  "ranks LvNone = Some 0"
| "ranks LvCatalog = Some 1"
| "ranks LvConfigured = Some 2"
| "ranks LvRuntime = Some 3"
| "ranks LvRoute = Some 4"
| "ranks LvService = Some 5"
| "ranks (LvOther _) = None"

definition level_valid :: "level \<Rightarrow> bool" where "level_valid l \<longleftrightarrow> ranks l \<noteq> None"

definition AtLeast :: "level \<Rightarrow> level \<Rightarrow> bool" where
  "AtLeast l required = (case (ranks l, ranks required) of
     (Some a, Some r) \<Rightarrow> a \<ge> r | _ \<Rightarrow> False)"

definition rank_of :: "level \<Rightarrow> nat" where
  "rank_of l = (case ranks l of None \<Rightarrow> 0 | Some n \<Rightarrow> n)"

definition known_level :: "level \<Rightarrow> level" where
  "known_level l = (if level_valid l then l else LvNone)"

definition Stronger :: "level \<Rightarrow> level \<Rightarrow> level" where
  "Stronger l r = (if rank_of (known_level r) > rank_of (known_level l) then known_level r else known_level l)"

definition Weaker :: "level \<Rightarrow> level \<Rightarrow> level" where
  "Weaker l r = (if rank_of (known_level r) < rank_of (known_level l) then known_level r else known_level l)"

definition clean_text :: "string \<Rightarrow> string" where "clean_text s = to_lower (trim_space s)"

definition OutcomeFromProbe :: "string \<Rightarrow> int \<Rightarrow> string \<Rightarrow> probe_outcome" where
  "OutcomeFromProbe status0 http code0 = (
     let status = clean_text status0; code = clean_text code0 in
     if contains_sub code ''tls'' \<or> contains_sub code ''certificate'' \<or> contains_sub code ''content-mismatch''
     then OcContentMismatch
     else if status = ''pass'' \<and> http \<ge> 200 \<and> http < 300 then OcServiceAccepted
     else if http = 403 \<or> http = 451 then OcServiceBlocked
     else if http = 401 \<or> http = 407 \<or> http = 429 then OcEdgeUnsuitable
     else if status = ''partial'' \<or> http > 0 then OcTransportReachable
     else OcUnknown)"

definition VerdictFromProbe :: "string \<Rightarrow> int \<Rightarrow> string \<Rightarrow> verdict" where
  "VerdictFromProbe status0 http code0 = (
     let status = clean_text status0; code = clean_text code0 in
     if contains_sub code ''tls'' \<or> contains_sub code ''certificate'' \<or>
        contains_sub code ''timeout'' \<or> contains_sub code ''reset''
     then VdBlocked
     else case OutcomeFromProbe status http code of
       OcServiceAccepted \<Rightarrow> VdPass
     | OcServiceBlocked \<Rightarrow> VdBlocked
     | OcEdgeUnsuitable \<Rightarrow> VdPartial
     | OcContentMismatch \<Rightarrow> VdError
     | _ \<Rightarrow>
         if http \<ge> 300 \<and> http < 400 \<or> status = ''pass'' \<or> status = ''not-ready'' \<or> status = ''pending'' \<or>
            status = ''adapter-pending'' \<or> status = [] then VdInconclusive
         else if status = ''partial'' then VdPartial
         else VdError)"

definition FromProbe :: "string \<Rightarrow> bool \<Rightarrow> level" where
  "FromProbe status0 routeConfirmed = (
     let status = clean_text status0 in
     if status = ''not-ready'' \<or> status = ''pending'' \<or> status = ''adapter-pending'' \<or> status = [] then LvNone
     else if routeConfirmed then LvRoute else LvRuntime)"

section \<open>Probe evidence\<close>

record probe_evidence =
  pe_schema :: int
  pe_id :: string
  pe_started :: time
  pe_finished :: time
  pe_profile :: string
  pe_service :: string
  pe_subservice :: string
  pe_route_path :: string
  pe_engine :: string
  pe_egress :: string
  pe_stage :: string
  pe_outcome :: probe_outcome
  pe_http :: int
  pe_latency :: int
  pe_source :: string
  pe_error_code :: string
  pe_verdict :: verdict
  pe_expected :: string
  pe_observed :: string
  pe_negative :: bool
  pe_proof_error :: string

definition ProbeSchemaVersion :: int where "ProbeSchemaVersion = 2"

definition probe_valid :: "probe_evidence \<Rightarrow> bool" where
  "probe_valid p \<longleftrightarrow>
     \<not> (pe_schema p \<noteq> ProbeSchemaVersion \<or> pe_finished p = zero_time \<or> time_before (pe_finished p) (pe_started p)) \<and>
     \<not> (pe_verdict p \<noteq> no_verdict \<and> \<not> verdict_valid (pe_verdict p)) \<and> outcome_valid (pe_outcome p)"

definition Fresh :: "probe_evidence \<Rightarrow> time \<Rightarrow> duration \<Rightarrow> bool" where
  "Fresh p now ttl \<longleftrightarrow> probe_valid p \<and> ttl > 0 \<and> \<not> time_after (pe_finished p) (now + minute) \<and>
     time_sub now (pe_finished p) \<le> ttl"

definition mismatch :: "string \<Rightarrow> string \<Rightarrow> bool" where
  "mismatch expected observed \<longleftrightarrow> expected \<noteq> [] \<and> observed \<noteq> [] \<and> expected \<noteq> observed"

definition isolated :: "probe_evidence \<Rightarrow> bool" where
  "isolated p \<longleftrightarrow> trim_space (pe_route_path p) \<noteq> []"

definition probe_level :: "probe_evidence \<Rightarrow> level" where
  "probe_level p =
     (if \<not> probe_valid p then LvNone
      else if pe_proof_error p \<noteq> [] then LvRuntime
      else if pe_negative p \<or> mismatch (pe_expected p) (pe_observed p) \<or> pe_verdict p = VdMisrouted then LvRuntime
      else case pe_outcome p of
        OcServiceAccepted \<Rightarrow>
          if isolated p \<and> pe_http p \<ge> 200 \<and> pe_http p < 300 \<and> (pe_verdict p = no_verdict \<or> pe_verdict p = VdPass)
          then LvService
          else if isolated p then LvRoute else LvRuntime
      | OcTransportReachable \<Rightarrow> if isolated p then LvRoute else LvRuntime
      | OcTLSValid \<Rightarrow> if isolated p then LvRoute else LvRuntime
      | OcServiceBlocked \<Rightarrow> if isolated p then LvRoute else LvRuntime
      | OcContentMismatch \<Rightarrow> if isolated p then LvRoute else LvRuntime
      | OcEdgeUnsuitable \<Rightarrow> if isolated p then LvRoute else LvRuntime
      | _ \<Rightarrow> if isolated p then LvRoute else LvNone)"

section \<open>Results of the test laboratory\<close>

record probe_result =
  rs_service :: string
  rs_scenario :: string
  rs_route :: string
  rs_profile :: string
  rs_status :: string
  rs_http :: int
  rs_latency :: int
  rs_checked :: stamp
  rs_detail :: string
  rs_confirmed :: bool
  rs_source :: string
  rs_level :: level
  rs_outcome :: probe_outcome
  rs_probe :: "probe_evidence option"
  rs_fresh_until :: stamp
  rs_egress :: string
  rs_verdict :: verdict
  rs_error_code :: string
  rs_expected :: string
  rs_observed :: string
  rs_negative :: bool
  rs_proof_error :: string

definition probeErrorCode :: "string \<Rightarrow> string" where
  "probeErrorCode detail0 = (
     let detail = clean_text detail0 in
     if contains_sub detail ''certificate'' \<or> contains_sub detail ''tls'' then ''tls-certificate-mismatch''
     else if contains_sub detail ''timeout'' \<or> contains_sub detail ''deadline exceeded'' then ''timeout''
     else if contains_sub detail ''context canceled'' then ''cancelled''
     else [])"

text \<open>\<open>NormalizeEvidence\<close>, block by block.\<close>

definition check_profile :: "probe_result \<Rightarrow> probe_result" where
  "check_profile r = (case rs_probe r of
     Some p \<Rightarrow> if pe_profile p \<noteq> rs_profile r \<and> (pe_profile p \<noteq> [] \<or> rs_profile r \<noteq> [])
       then r\<lparr>rs_proof_error := ''network-profile-mismatch''\<rparr> else r
   | None \<Rightarrow> r)"

definition drop_unproven :: "probe_result \<Rightarrow> probe_result" where
  "drop_unproven r = (if rs_proof_error r = [] then r
     else let r' = r\<lparr>rs_confirmed := False, rs_observed := []\<rparr> in
       if rs_status r' = ''pass''
       then r'\<lparr>rs_status := ''partial'', rs_verdict := VdInconclusive, rs_outcome := OcTransportReachable\<rparr>
       else r')"

definition settle_verdict :: "probe_result \<Rightarrow> probe_result" where
  "settle_verdict r = (if rs_verdict r = VdPass \<and> rs_status r \<noteq> ''pass''
     then r\<lparr>rs_verdict := VerdictFromProbe (rs_status r) (rs_http r) (rs_error_code r),
            rs_outcome := OutcomeFromProbe (rs_status r) (rs_http r) (rs_error_code r)\<rparr>
     else r)"

definition mark_misrouted :: "probe_result \<Rightarrow> probe_result" where
  "mark_misrouted r =
     (if rs_negative r \<or> mismatch (rs_expected r) (rs_observed r) \<or> rs_verdict r = VdMisrouted
      then r\<lparr>rs_confirmed := False, rs_status := ''partial'', rs_verdict := VdMisrouted,
             rs_outcome := OcTransportReachable\<rparr>
      else r)"

text \<open>
  The evidence of an adapter that reports none.  \<open>now\<close> stands in for a time of
  the check that cannot be read; the start is the finish less the latency in
  wrapping 64-bit nanoseconds.
\<close>

definition build_probe :: "time \<Rightarrow> probe_result \<Rightarrow> probe_result" where
  "build_probe now r = (case rs_probe r of Some _ \<Rightarrow> r | None \<Rightarrow>
     let finished = (case rs_checked r of Stamp t \<Rightarrow> t | Text _ \<Rightarrow> now);
         started = finished + wrap64 (wrap64 (- rs_latency r) * millisecond);
         path = (if rs_confirmed r
           then if rs_observed r \<noteq> [] then rs_observed r else ''isolated:'' @ rs_route r
           else []);
         code = (if rs_error_code r = [] then probeErrorCode (rs_detail r) else rs_error_code r);
         verdict = (if rs_verdict r = no_verdict
           then VerdictFromProbe (rs_status r) (rs_http r) code else rs_verdict r);
         outcome = (if rs_outcome r = no_outcome
           then OutcomeFromProbe (rs_status r) (rs_http r) code else rs_outcome r) in
     r\<lparr>rs_verdict := verdict, rs_probe := Some
       \<lparr>pe_schema = ProbeSchemaVersion,
        pe_id = rs_service r @ '':'' @ rs_scenario r @ '':'' @ rs_route r @ '':'' @ dec_int (unix_nano finished),
        pe_started = started, pe_finished = finished, pe_profile = rs_profile r,
        pe_service = rs_service r, pe_subservice = rs_scenario r, pe_route_path = path,
        pe_engine = rs_route r, pe_egress = rs_egress r, pe_stage = ''service'', pe_outcome = outcome,
        pe_http = rs_http r, pe_latency = rs_latency r, pe_source = rs_source r, pe_error_code = code,
        pe_verdict = verdict, pe_expected = rs_expected r, pe_observed = rs_observed r,
        pe_negative = rs_negative r, pe_proof_error = rs_proof_error r\<rparr>\<rparr>)"

definition spread_proof_error :: "probe_result \<Rightarrow> probe_result" where
  "spread_proof_error r = (case rs_probe r of None \<Rightarrow> r | Some p \<Rightarrow>
     if rs_proof_error r = [] \<and> pe_proof_error p = [] then r
     else let e = (if rs_proof_error r \<noteq> [] then rs_proof_error r else pe_proof_error p);
              q = p\<lparr>pe_proof_error := e, pe_route_path := [], pe_observed := []\<rparr>;
              q' = (if pe_verdict q = VdPass
                    then q\<lparr>pe_verdict := VdInconclusive, pe_outcome := OcTransportReachable\<rparr> else q) in
       r\<lparr>rs_probe := Some q', rs_proof_error := e, rs_confirmed := False, rs_observed := [], rs_egress := [],
         rs_status := (if rs_status r = ''pass'' then ''partial'' else rs_status r)\<rparr>)"

definition spread_misroute :: "probe_result \<Rightarrow> probe_result" where
  "spread_misroute r = (case rs_probe r of None \<Rightarrow> r | Some p \<Rightarrow>
     if rs_verdict r = VdMisrouted \<or> pe_verdict p = VdMisrouted \<or> pe_negative p \<or>
        mismatch (pe_expected p) (pe_observed p)
     then r\<lparr>rs_probe := Some (p\<lparr>pe_verdict := VdMisrouted, pe_outcome := OcTransportReachable, pe_route_path := []\<rparr>),
            rs_status := ''partial'', rs_confirmed := False\<rparr>
     else r)"

definition copy_facts :: "probe_result \<Rightarrow> probe_result" where
  "copy_facts r = (case rs_probe r of None \<Rightarrow> r | Some p \<Rightarrow>
     r\<lparr>rs_outcome := pe_outcome p, rs_verdict := pe_verdict p,
       rs_fresh_until := rfc3339 (pe_finished p + 24 * hour),
       rs_level := (if level_valid (rs_level r) \<and> rs_level r \<noteq> LvNone
         then Weaker (rs_level r) (probe_level p) else probe_level p)\<rparr>)"

definition NormalizeEvidence :: "time \<Rightarrow> probe_result \<Rightarrow> probe_result" where
  "NormalizeEvidence now r =
     copy_facts (spread_misroute (spread_proof_error (build_probe now
       (mark_misrouted (settle_verdict (drop_unproven (check_profile r)))))))"

definition AssuranceLevel :: "time \<Rightarrow> probe_result \<Rightarrow> level" where
  "AssuranceLevel now r = rs_level (NormalizeEvidence now r)"

end
