(* ===== verification/Smart_Route.thy ===== *)
theory Smart_Route
  imports Evidence "HOL-Library.AList" "HOL-Library.Product_Lexorder" "HOL-Library.Signed_Division"
begin

text \<open>
  \<open>internal/smartroute/smartroute.go\<close>: the confirmed evidence of each route of
  each service, kept per network profile, and the selection with hysteresis
  and cooldown.  A Go map is an association list with distinct keys.  The
  profile observed by the callback and the clock are arguments; writing the
  file is an interaction.  \<open>int\<close> is the 64-bit type of the ARM64 build.
\<close>

section \<open>State\<close>

record sr_evidence =
  se_route :: string
  se_status :: string
  se_latency :: int
  se_score :: int
  se_egress :: string
  se_source :: string
  se_level :: level
  se_outcome :: probe_outcome
  se_verdict :: verdict
  se_probe_id :: string
  se_fresh_until :: stamp
  se_confirmed :: stamp

record service_state =
  ss_selected :: string
  ss_switch :: stamp
  ss_reason :: string
  ss_evidence :: "(string \<times> sr_evidence) list"

type_synonym services = "(string \<times> service_state) list"

record sr_decision =
  sd_service :: string
  sd_previous :: string
  sd_selected :: string
  sd_changed :: bool
  sd_reason :: string

datatype sr_error = SrUnscoped | SrUnknownProfile | SrProfileChanged | SrSave | SrLoad

text \<open>The state file: absent, unreadable, the first schema without profiles, or the current one.\<close>

datatype sr_file = SrMissing | SrUnreadable | SrV1 services | SrV2 "(string \<times> services) list" | SrOtherSchema

record sr_manager =
  sr_path :: bool
  sr_hysteresis :: int
  sr_cooldown :: duration
  sr_ttl :: duration
  sr_profiles :: "(string \<times> services) list"
  sr_stored :: sr_file

type_synonym 'a sr_op = "(sr_manager, sr_error, 'a) op"

definition empty_state :: service_state where
  "empty_state = \<lparr>ss_selected = [], ss_switch = Text [], ss_reason = [], ss_evidence = []\<rparr>"

definition look :: "('k \<times> 'v) list \<Rightarrow> 'v \<Rightarrow> 'k \<Rightarrow> 'v" where
  "look m d k = (case map_of m k of None \<Rightarrow> d | Some v \<Rightarrow> v)"

section \<open>Profiles and times\<close>

definition ValidWANProfileID :: "string \<Rightarrow> bool" where
  "ValidWANProfileID pid \<longleftrightarrow> length pid = 16 \<and> has_prefix pid ''wan-'' \<and> list_all is_hex (drop 4 pid)"

definition defaultProfile :: string where "defaultProfile = ''network-unknown''"
definition legacyProfile :: string where "legacyProfile = ''legacy-unscoped''"

definition activeProfile :: "string option \<Rightarrow> string" where
  "activeProfile observed = (case observed of None \<Rightarrow> defaultProfile
     | Some p \<Rightarrow> if trim_space p = [] then defaultProfile else p)"

definition profile_error :: "string \<Rightarrow> string option \<Rightarrow> sr_error option" where
  "profile_error expected observed = (let current = activeProfile observed in
     if \<not> ValidWANProfileID expected \<or> \<not> ValidWANProfileID current then Some SrUnknownProfile
     else if current \<noteq> expected then Some SrProfileChanged else None)"

definition checkProfileLocked :: "string \<Rightarrow> string option \<Rightarrow> unit sr_op" where
  "checkProfileLocked expected observed = (case profile_error expected observed of
     None \<Rightarrow> op_return () | Some e \<Rightarrow> op_fail e)"

definition viable :: "sr_evidence \<Rightarrow> bool" where
  "viable e \<longleftrightarrow> se_status e = ''pass'' \<and> AtLeast (se_level e) LvService \<and>
     (se_outcome e = no_outcome \<or> se_outcome e = OcServiceAccepted) \<and>
     (se_verdict e = no_verdict \<or> se_verdict e = VdPass)"

definition expired :: "duration \<Rightarrow> sr_evidence \<Rightarrow> time \<Rightarrow> bool" where
  "expired ttl e now = (case se_confirmed e of Text _ \<Rightarrow> True | Stamp checked \<Rightarrow>
     if time_after checked now \<or> time_sub now checked \<ge> ttl then True
     else if se_fresh_until e \<noteq> Text [] then (case se_fresh_until e of Text _ \<Rightarrow> True
            | Stamp until \<Rightarrow> \<not> time_before now until)
     else False)"

definition withinCooldown :: "stamp \<Rightarrow> time \<Rightarrow> duration \<Rightarrow> bool" where
  "withinCooldown v now cooldown = (case v of Text _ \<Rightarrow> False | Stamp t \<Rightarrow> time_sub now t < cooldown)"

definition knownStatus :: "string \<Rightarrow> bool" where
  "knownStatus s \<longleftrightarrow> s = ''pass'' \<or> s = ''partial'' \<or> s = ''fail''"

definition score :: "string \<Rightarrow> string \<Rightarrow> int \<Rightarrow> int" where
  "score route status latency = (
     let base = look [(''pass'', 100), (''partial'', 62), (''fail'', 0)] 0 status;
         cost = look [(''direct'', 0), (''nfqws2'', 3), (''usque'', 6), (''warp-wg'', 9), (''sing-box'', 11),
           (''xray'', 11), (''amneziawg'', 9), (''wireguard'', 9)] 0 route;
         penalty0 = latency sdiv 100;
         penalty = (if penalty0 > 30 then 30 else penalty0);
         value = base - cost - penalty in
     if value < 0 then 0 else value)"

section \<open>Selection\<close>

definition valid_evidence :: "duration \<Rightarrow> time \<Rightarrow> service_state \<Rightarrow> sr_evidence list" where
  "valid_evidence ttl now st = sort_key (\<lambda>e. (- se_score e, se_route e))
     (filter (\<lambda>e. \<not> expired ttl e now \<and> viable e) (map snd (ss_evidence st)))"

definition keep_route :: "string \<Rightarrow> service_state \<Rightarrow> string \<Rightarrow> sr_decision \<times> service_state" where
  "keep_route sid st reason =
     (\<lparr>sd_service = sid, sd_previous = ss_selected st, sd_selected = ss_selected st, sd_changed = False,
       sd_reason = reason\<rparr>, st\<lparr>ss_reason := reason\<rparr>)"

definition take_route :: "string \<Rightarrow> service_state \<Rightarrow> string \<Rightarrow> string \<Rightarrow> time \<Rightarrow> sr_decision \<times> service_state" where
  "take_route sid st route reason now =
     (\<lparr>sd_service = sid, sd_previous = ss_selected st, sd_selected = route, sd_changed = (ss_selected st \<noteq> route),
       sd_reason = reason\<rparr>, st\<lparr>ss_selected := route, ss_switch := rfc3339 now, ss_reason := reason\<rparr>)"

definition decide :: "int \<Rightarrow> duration \<Rightarrow> duration \<Rightarrow> string \<Rightarrow> service_state \<Rightarrow> time \<Rightarrow> sr_decision \<times> service_state" where
  "decide hysteresis cooldown ttl sid st now = (case valid_evidence ttl now st of
     [] \<Rightarrow> keep_route sid st ''insufficient-confirmed-evidence''
   | best # _ \<Rightarrow> (
     let current = map_of (ss_evidence st) (ss_selected st);
         first = (ss_selected st = [] \<or> (case current of None \<Rightarrow> True | Some c \<Rightarrow> expired ttl c now)) in
     if first then take_route sid st (se_route best) ''selected-first-confirmed-route'' now
     else case current of
       None \<Rightarrow> take_route sid st (se_route best) ''selected-first-confirmed-route'' now
     | Some c \<Rightarrow>
         if se_route best = ss_selected st then keep_route sid st ''current-route-remains-best''
         else if \<not> viable c then take_route sid st (se_route best) ''confirmed-failover'' now
         else if withinCooldown (ss_switch st) now cooldown then keep_route sid st ''switch-cooldown-active''
         else if se_score best \<ge> se_score c + hysteresis
           then take_route sid st (se_route best) (''score-improved-by-'' @ dec_int (se_score best - se_score c)) now
         else keep_route sid st ''hysteresis-kept-current-route''))"

definition evaluateLocked :: "sr_manager \<Rightarrow> services \<Rightarrow> string \<Rightarrow> time \<Rightarrow> sr_decision \<times> services" where
  "evaluateLocked m svs sid now = (
     case decide (sr_hysteresis m) (sr_cooldown m) (sr_ttl m) sid (look svs empty_state sid) now of
       (d, st) \<Rightarrow> (d, AList.update sid st svs))"

section \<open>Observation\<close>

definition evidence_of :: "probe_result \<Rightarrow> level \<Rightarrow> time \<Rightarrow> sr_evidence" where
  "evidence_of r lv checked = \<lparr>se_route = rs_route r, se_status = rs_status r, se_latency = rs_latency r,
     se_score = score (rs_route r) (rs_status r) (rs_latency r), se_egress = rs_egress r, se_source = rs_source r,
     se_level = lv, se_outcome = rs_outcome r, se_verdict = rs_verdict r,
     se_probe_id = (case rs_probe r of None \<Rightarrow> [] | Some p \<Rightarrow> pe_id p),
     se_fresh_until = rs_fresh_until r, se_confirmed = rfc3339_nano checked\<rparr>"

definition foreign_result :: "string \<Rightarrow> probe_result \<Rightarrow> bool" where
  "foreign_result expected r \<longleftrightarrow> rs_profile r \<noteq> [] \<and> rs_profile r \<noteq> expected \<or>
     (case rs_probe r of None \<Rightarrow> False | Some p \<Rightarrow> pe_profile p \<noteq> [] \<and> pe_profile p \<noteq> expected)"

definition unusable_times :: "time \<Rightarrow> probe_result \<Rightarrow> bool" where
  "unusable_times now r \<longleftrightarrow> (case rs_probe r of None \<Rightarrow> False | Some p \<Rightarrow>
     pe_finished p = zero_time \<or> time_after (pe_finished p) now \<or> time_after (pe_started p) (pe_finished p))"

definition unusable_result :: "level \<Rightarrow> probe_result \<Rightarrow> bool" where
  "unusable_result lv r \<longleftrightarrow>
     \<not> AtLeast lv LvRoute \<and> rs_verdict r \<noteq> VdMisrouted \<and> rs_proof_error r = [] \<or>
     rs_service r = [] \<or> rs_route r = [] \<or> \<not> knownStatus (rs_status r)"

definition superseded :: "service_state \<Rightarrow> probe_result \<Rightarrow> time \<Rightarrow> time \<Rightarrow> bool" where
  "superseded st r now checked \<longleftrightarrow> (case map_of (ss_evidence st) (rs_route r) of None \<Rightarrow> False
     | Some previous \<Rightarrow> (case se_confirmed previous of Text _ \<Rightarrow> False
         | Stamp t \<Rightarrow> \<not> time_after t now \<and> time_after t checked))"

text \<open>One result of the loop: the services and the touched service identifiers.\<close>

definition observe_result ::
  "time \<Rightarrow> probe_result \<Rightarrow> services \<times> string list \<Rightarrow> services \<times> string list" where
  "observe_result now r0 = (\<lambda>(svs, touched). case rs_checked r0 of
     Text _ \<Rightarrow> (svs, touched)
   | Stamp checked \<Rightarrow>
       if time_after checked now then (svs, touched)
       else let r = NormalizeEvidence now r0; lv = AssuranceLevel now r; st = look svs empty_state (rs_service r) in
       if unusable_times now r \<or> unusable_result lv r \<or> superseded st r now checked then (svs, touched)
       else (AList.update (rs_service r)
               (st\<lparr>ss_evidence := AList.update (rs_route r) (evidence_of r lv checked) (ss_evidence st)\<rparr>) svs,
             List.insert (rs_service r) touched))"

fun observe_results ::
  "string \<Rightarrow> time \<Rightarrow> probe_result list \<Rightarrow> services \<times> string list \<Rightarrow> sr_error + services \<times> string list" where
  "observe_results expected now [] acc = Inr acc"
| "observe_results expected now (r # rs) acc =
     (if foreign_result expected r then Inl SrProfileChanged
      else observe_results expected now rs (observe_result now r acc))"

fun evaluate_all :: "sr_manager \<Rightarrow> time \<Rightarrow> string list \<Rightarrow> services \<Rightarrow> sr_decision list \<times> services" where
  "evaluate_all m now [] svs = ([], svs)"
| "evaluate_all m now (sid # ids) svs = (
     let (d, svs') = evaluateLocked m svs sid now; (ds, svs'') = evaluate_all m now ids svs' in (d # ds, svs''))"

definition saveLocked :: "unit sr_op" where
  "saveLocked = op_bind (op_get (\<lambda>m. m)) (\<lambda>m.
     if \<not> sr_path m then op_return ()
     else op_effect SrSave (\<lambda>m. m\<lparr>sr_stored := SrV2 (sr_profiles m)\<rparr>))"

definition publish_services :: "string \<Rightarrow> string option \<Rightarrow> services \<Rightarrow> unit sr_op" where
  "publish_services expected p2 svs =
     op_seq (checkProfileLocked expected p2) (
     op_seq (op_modify (\<lambda>m. m\<lparr>sr_profiles := AList.update expected svs (sr_profiles m)\<rparr>)) saveLocked)"

text \<open>\<open>p1\<close> and \<open>p2\<close> are the profiles observed before the results are read and before they are kept.\<close>

definition ObserveForProfile ::
  "string \<Rightarrow> probe_result list \<Rightarrow> string option \<Rightarrow> string option \<Rightarrow> time \<Rightarrow> sr_decision list sr_op" where
  "ObserveForProfile expected results p1 p2 now =
     op_seq (checkProfileLocked expected p1) (
     op_bind (op_get (\<lambda>m. m)) (\<lambda>m.
     case observe_results expected now results (look (sr_profiles m) [] expected, []) of
       Inl e \<Rightarrow> op_fail e
     | Inr (svs, touched) \<Rightarrow> (case evaluate_all m now (sort touched) svs of (ds, svs') \<Rightarrow>
         if touched = [] then op_return ds
         else op_seq (publish_services expected p2 svs') (op_return ds))))"

text \<open>The unscoped call grants nothing.\<close>

definition Observe :: "probe_result list \<Rightarrow> sr_decision list sr_op" where
  "Observe results = op_fail SrUnscoped"

definition Suggest :: "sr_manager \<Rightarrow> string option \<Rightarrow> time \<Rightarrow> string \<Rightarrow> string \<Rightarrow> string" where
  "Suggest m observed now sid fallback = (let profile = activeProfile observed in
     if \<not> ValidWANProfileID profile then fallback
     else case map_of (look (sr_profiles m) [] profile) sid of
       None \<Rightarrow> fallback
     | Some st \<Rightarrow>
         if ss_selected st = [] then fallback
         else case map_of (ss_evidence st) (ss_selected st) of
           None \<Rightarrow> fallback
         | Some e \<Rightarrow> if \<not> viable e \<or> expired (sr_ttl m) e now then fallback else ss_selected st)"

text \<open>Loading at start; the first schema has no profile to be trusted under.\<close>

definition sr_load :: "unit sr_op" where
  "sr_load = op_bind (op_get (\<lambda>m. m)) (\<lambda>m.
     if \<not> sr_path m then op_return ()
     else case sr_stored m of
       SrMissing \<Rightarrow> op_return ()
     | SrUnreadable \<Rightarrow> op_fail SrLoad
     | SrOtherSchema \<Rightarrow> op_fail SrLoad
     | SrV1 svs \<Rightarrow> op_modify (\<lambda>m. m\<lparr>sr_profiles := [(legacyProfile, svs)]\<rparr>)
     | SrV2 ps \<Rightarrow> op_modify (\<lambda>m. m\<lparr>sr_profiles := ps\<rparr>))"

definition sr_new :: "bool \<Rightarrow> sr_file \<Rightarrow> sr_manager" where
  "sr_new path file = \<lparr>sr_path = path, sr_hysteresis = 12, sr_cooldown = 10 * minute, sr_ttl = 24 * hour,
     sr_profiles = [], sr_stored = file\<rparr>"

end
