(* ===== verification/Evidence_Properties.thy ===== *)
theory Evidence_Properties
  imports Evidence
begin

text \<open>
  What a normalised probe result guarantees: service-level assurance has every
  fact behind it, normalisation is idempotent, and it never promotes a level.
\<close>

section \<open>The lattice of levels\<close>

lemma known_level_valid [simp]: "level_valid (known_level l)"
  by (simp add: known_level_def level_valid_def)

lemma rank_inject: "level_valid l \<Longrightarrow> level_valid r \<Longrightarrow> rank_of l = rank_of r \<longleftrightarrow> l = r"
  by (cases l; cases r) (simp_all add: rank_of_def level_valid_def)

lemma probe_level_valid [simp]: "level_valid (probe_level p)"
  by (auto simp: probe_level_def level_valid_def split: probe_outcome.split)

lemma known_level_id: "level_valid l \<Longrightarrow> known_level l = l"
  by (simp add: known_level_def)

lemma Weaker_valid [simp]: "level_valid (Weaker l r)"
  by (simp add: Weaker_def)

lemma Weaker_absorb [simp]: "Weaker (Weaker l r) r = Weaker l r" "Weaker l l = known_level l"
  by (auto simp: Weaker_def known_level_id)

lemma rank_Weaker: "rank_of (Weaker l r) = min (rank_of (known_level l)) (rank_of (known_level r))"
  by (auto simp: Weaker_def)

lemma rank_Stronger: "rank_of (Stronger l r) = max (rank_of (known_level l)) (rank_of (known_level r))"
  by (auto simp: Stronger_def)

lemma Weaker_none: "Weaker l r = LvNone \<Longrightarrow> level_valid l \<Longrightarrow> l \<noteq> LvNone \<Longrightarrow> level_valid r \<Longrightarrow> r = LvNone"
  by (simp add: Weaker_def known_level_id split: if_splits)

lemma rank_bounds: "rank_of l \<le> 5" "rank_of l = 5 \<longleftrightarrow> l = LvService"
  by (cases l; simp add: rank_of_def)+

lemma Weaker_service: "Weaker l r = LvService \<longleftrightarrow> known_level l = LvService \<and> known_level r = LvService"
  using rank_Weaker [of l r] rank_bounds [of "Weaker l r"] rank_bounds [of "known_level l"] rank_bounds [of "known_level r"]
  by (auto simp: min_def split: if_splits)

lemma AtLeast_rank: "level_valid l \<Longrightarrow> level_valid r \<Longrightarrow> AtLeast l r \<longleftrightarrow> rank_of r \<le> rank_of l"
  by (auto simp: AtLeast_def rank_of_def level_valid_def split: option.splits)

section \<open>Normal results\<close>

definition unproven :: "probe_result \<Rightarrow> probe_evidence \<Rightarrow> bool" where
  "unproven r q \<longleftrightarrow> rs_proof_error r = pe_proof_error q \<and> \<not> rs_confirmed r \<and> rs_observed r = [] \<and>
     rs_egress r = [] \<and> rs_status r \<noteq> ''pass'' \<and> pe_route_path q = [] \<and> pe_observed q = [] \<and> pe_verdict q \<noteq> VdPass"

definition misroute :: "probe_result \<Rightarrow> probe_evidence \<Rightarrow> bool" where
  "misroute r q \<longleftrightarrow> rs_negative r \<or> mismatch (rs_expected r) (rs_observed r) \<or> rs_verdict r = VdMisrouted \<or>
     pe_verdict q = VdMisrouted \<or> pe_negative q \<or> mismatch (pe_expected q) (pe_observed q)"

definition contained :: "probe_result \<Rightarrow> probe_evidence \<Rightarrow> bool" where
  "contained r q \<longleftrightarrow> pe_verdict q = VdMisrouted \<and> pe_outcome q = OcTransportReachable \<and> pe_route_path q = [] \<and>
     rs_status r = ''partial'' \<and> \<not> rs_confirmed r"

definition foreign_profile :: "probe_result \<Rightarrow> probe_evidence \<Rightarrow> bool" where
  "foreign_profile r q \<longleftrightarrow> pe_profile q \<noteq> rs_profile r \<and> (pe_profile q \<noteq> [] \<or> rs_profile r \<noteq> [])"

definition level_fixed :: "probe_result \<Rightarrow> probe_evidence \<Rightarrow> bool" where
  "level_fixed r q \<longleftrightarrow> rs_level r =
     (if level_valid (rs_level r) \<and> rs_level r \<noteq> LvNone then Weaker (rs_level r) (probe_level q) else probe_level q)"

definition normal :: "probe_result \<Rightarrow> probe_evidence \<Rightarrow> bool" where
  "normal r q \<longleftrightarrow> rs_probe r = Some q \<and>
     (foreign_profile r q \<longrightarrow> rs_proof_error r = ''network-profile-mismatch'') \<and>
     (rs_proof_error r \<noteq> [] \<or> pe_proof_error q \<noteq> [] \<longrightarrow> unproven r q) \<and>
     (misroute r q \<longrightarrow> contained r q) \<and>
     rs_verdict r = pe_verdict q \<and> rs_outcome r = pe_outcome q \<and>
     rs_fresh_until r = rfc3339 (pe_finished q + 24 * hour) \<and> level_fixed r q"

text \<open>The five stages up to the evidence, and the two that spread a flaw.\<close>

lemma build_probe_some: "\<exists>q. rs_probe (build_probe now r) = Some q"
  by (cases "rs_probe r") (simp_all add: build_probe_def Let_def)

lemma VerdictFromProbe_routed: "VerdictFromProbe s h c \<noteq> VdMisrouted"
  by (simp only: VerdictFromProbe_def Let_def verdict.distinct not_False_eq_True simp_thms
      split: if_split probe_outcome.split)

lemma probe_of_stages [simp]:
  "rs_probe (check_profile r) = rs_probe r" "rs_probe (drop_unproven r) = rs_probe r"
  "rs_probe (settle_verdict r) = rs_probe r" "rs_probe (mark_misrouted r) = rs_probe r"
  by (simp_all add: check_profile_def drop_unproven_def settle_verdict_def mark_misrouted_def Let_def split: option.split)

lemma profile_of_stages [simp]:
  "rs_profile (check_profile r) = rs_profile r" "rs_profile (drop_unproven r) = rs_profile r"
  "rs_profile (settle_verdict r) = rs_profile r" "rs_profile (mark_misrouted r) = rs_profile r"
  "rs_profile (build_probe now r) = rs_profile r"
  by (simp_all add: check_profile_def drop_unproven_def settle_verdict_def mark_misrouted_def build_probe_def Let_def
      split: option.split)

lemma proof_error_of_stages [simp]:
  "rs_proof_error (drop_unproven r) = rs_proof_error r" "rs_proof_error (settle_verdict r) = rs_proof_error r"
  "rs_proof_error (mark_misrouted r) = rs_proof_error r" "rs_proof_error (build_probe now r) = rs_proof_error r"
  by (simp_all add: drop_unproven_def settle_verdict_def mark_misrouted_def build_probe_def Let_def split: option.split)

lemma level_of_stages [simp]:
  "rs_level (check_profile r) = rs_level r" "rs_level (drop_unproven r) = rs_level r"
  "rs_level (settle_verdict r) = rs_level r" "rs_level (mark_misrouted r) = rs_level r"
  "rs_level (build_probe now r) = rs_level r" "rs_level (spread_proof_error r) = rs_level r"
  "rs_level (spread_misroute r) = rs_level r"
  by (simp_all add: check_profile_def drop_unproven_def settle_verdict_def mark_misrouted_def build_probe_def
      spread_proof_error_def spread_misroute_def Let_def split: option.split)

lemma built_profile:
  "rs_probe (build_probe now (mark_misrouted (settle_verdict (drop_unproven (check_profile r))))) = Some q \<Longrightarrow>
   foreign_profile r q \<Longrightarrow> rs_proof_error (check_profile r) = ''network-profile-mismatch''"
  by (cases "rs_probe r")
    (auto simp: build_probe_def check_profile_def foreign_profile_def Let_def)

lemma marked:
  "rs_negative (mark_misrouted r) \<or> mismatch (rs_expected (mark_misrouted r)) (rs_observed (mark_misrouted r)) \<Longrightarrow>
   rs_verdict (mark_misrouted r) = VdMisrouted"
  by (auto simp: mark_misrouted_def split: if_splits)

lemma built_verdict: "rs_verdict r = VdMisrouted \<Longrightarrow> rs_verdict (build_probe now r) = VdMisrouted"
  by (simp_all add: build_probe_def Let_def split: option.split)

lemma built_same [simp]:
  "rs_negative (build_probe now r) = rs_negative r" "rs_expected (build_probe now r) = rs_expected r"
  "rs_observed (build_probe now r) = rs_observed r"
  by (simp_all add: build_probe_def Let_def split: option.split)

text \<open>The stages after the evidence exists, from facts about the stages before.\<close>

lemma finish_normal:
  assumes "rs_probe r = Some p"
    "foreign_profile r p \<Longrightarrow> rs_proof_error r = ''network-profile-mismatch''"
    "rs_negative r \<or> mismatch (rs_expected r) (rs_observed r) \<Longrightarrow> rs_verdict r = VdMisrouted"
  obtains q where "normal (copy_facts (spread_misroute (spread_proof_error r))) q" "pe_profile q = pe_profile p"
proof -
  define r1 where "r1 = spread_proof_error r"
  obtain p1 where p1: "rs_probe r1 = Some p1"
      "foreign_profile r1 p1 \<Longrightarrow> rs_proof_error r1 = ''network-profile-mismatch''" "pe_profile p1 = pe_profile p"
      "rs_proof_error r1 \<noteq> [] \<or> pe_proof_error p1 \<noteq> [] \<Longrightarrow> unproven r1 p1"
      "rs_negative r1 \<or> mismatch (rs_expected r1) (rs_observed r1) \<Longrightarrow> rs_verdict r1 = VdMisrouted"
  proof (cases "rs_proof_error r = [] \<and> pe_proof_error p = []")
    case True
    then have "r1 = r" using assms(1) by (simp add: r1_def spread_proof_error_def)
    with assms True show ?thesis by (intro that [of p]) simp_all
  next
    case False
    define e where "e = (if rs_proof_error r \<noteq> [] then rs_proof_error r else pe_proof_error p)"
    define q where "q = p\<lparr>pe_proof_error := e, pe_route_path := [], pe_observed := []\<rparr>"
    define q' where "q' = (if pe_verdict q = VdPass
        then q\<lparr>pe_verdict := VdInconclusive, pe_outcome := OcTransportReachable\<rparr> else q)"
    have r1: "r1 = r\<lparr>rs_probe := Some q', rs_proof_error := e, rs_confirmed := False, rs_observed := [], rs_egress := [],
         rs_status := (if rs_status r = ''pass'' then ''partial'' else rs_status r)\<rparr>"
      unfolding r1_def spread_proof_error_def assms(1) option.case if_not_P [OF False] Let_def e_def q_def q'_def
      by (rule refl)
    have q': "pe_profile q' = pe_profile p" "pe_proof_error q' = e" "pe_route_path q' = []" "pe_observed q' = []"
        "pe_verdict q' \<noteq> VdPass"
      by (simp_all add: q'_def q_def)
    have f: "foreign_profile r1 q' \<longleftrightarrow> foreign_profile r p" by (simp add: foreign_profile_def r1 q')
    have "foreign_profile r p \<Longrightarrow> e = ''network-profile-mismatch''" using assms(2) by (simp add: e_def)
    moreover have "unproven r1 q'" by (simp add: unproven_def r1 q')
    moreover have "rs_negative r1 \<or> mismatch (rs_expected r1) (rs_observed r1) \<Longrightarrow> rs_verdict r1 = VdMisrouted"
      using assms(3) by (simp add: r1 mismatch_def)
    ultimately show ?thesis using f by (intro that [of q']) (simp_all add: r1 q')
  qed
  define r2 where "r2 = spread_misroute r1"
  obtain p2 where p2: "rs_probe r2 = Some p2"
      "foreign_profile r2 p2 \<Longrightarrow> rs_proof_error r2 = ''network-profile-mismatch''" "pe_profile p2 = pe_profile p"
      "rs_proof_error r2 \<noteq> [] \<or> pe_proof_error p2 \<noteq> [] \<Longrightarrow> unproven r2 p2"
      "misroute r2 p2 \<Longrightarrow> contained r2 p2"
  proof (cases "rs_verdict r1 = VdMisrouted \<or> pe_verdict p1 = VdMisrouted \<or> pe_negative p1 \<or>
      mismatch (pe_expected p1) (pe_observed p1)")
    case True
    then show ?thesis
      using p1 by (intro that [of "p1\<lparr>pe_verdict := VdMisrouted, pe_outcome := OcTransportReachable, pe_route_path := []\<rparr>"])
        (auto simp: r2_def spread_misroute_def foreign_profile_def unproven_def contained_def)
  next
    case False
    then have "r2 = r1" using p1(1) by (auto simp: r2_def spread_misroute_def)
    then show ?thesis using p1 False by (intro that [of p1]) (auto simp: misroute_def)
  qed
  have "level_fixed (copy_facts r2) p2"
    using Weaker_none [of "rs_level r2" "probe_level p2"] p2(1)
    by (auto simp: level_fixed_def copy_facts_def known_level_id)
  with p2 have "normal (copy_facts r2) p2"
    by (simp add: normal_def copy_facts_def foreign_profile_def unproven_def contained_def misroute_def)
  with p2(3) that show ?thesis by (simp add: r2_def r1_def)
qed

lemma normalize_normal: "\<exists>q. normal (NormalizeEvidence now r) q"
proof -
  define b where "b = build_probe now (mark_misrouted (settle_verdict (drop_unproven (check_profile r))))"
  obtain p where p: "rs_probe b = Some p" using build_probe_some by (auto simp: b_def)
  have f: "foreign_profile b p \<Longrightarrow> foreign_profile r p" by (simp add: b_def foreign_profile_def)
  have "rs_proof_error b = rs_proof_error (check_profile r)" by (simp add: b_def)
  then have "foreign_profile b p \<Longrightarrow> rs_proof_error b = ''network-profile-mismatch''"
    using built_profile [OF p [unfolded b_def] f] by simp
  moreover have "rs_negative b \<or> mismatch (rs_expected b) (rs_observed b) \<Longrightarrow> rs_verdict b = VdMisrouted"
    unfolding b_def by (rule built_verdict, rule marked) simp
  ultimately obtain q where "normal (copy_facts (spread_misroute (spread_proof_error b))) q"
    using finish_normal [OF p] by metis
  then show ?thesis by (auto simp: NormalizeEvidence_def b_def)
qed

section \<open>Properties\<close>

text \<open>
  C20: service-level assurance has every fact behind it.  When a normalised
  result is service-confirmed, its evidence was accepted with a 2xx answer on
  an isolated route of the same network profile, with no proof error, negative
  control, misroute or contradicting verdict, and a level that the adapter
  claimed was not lower.
\<close>

theorem service_level_proof:
  assumes "AssuranceLevel now r = LvService"
  shows "\<exists>q. rs_probe (NormalizeEvidence now r) = Some q \<and> probe_valid q \<and> pe_outcome q = OcServiceAccepted \<and>
     200 \<le> pe_http q \<and> pe_http q < 300 \<and> isolated q \<and> pe_profile q = rs_profile (NormalizeEvidence now r) \<and>
     pe_proof_error q = [] \<and> rs_proof_error (NormalizeEvidence now r) = [] \<and> \<not> pe_negative q \<and>
     \<not> mismatch (pe_expected q) (pe_observed q) \<and> pe_verdict q \<in> {no_verdict, VdPass} \<and>
     rs_level r \<notin> {LvCatalog, LvConfigured, LvRuntime, LvRoute}"
proof -
  let ?n = "NormalizeEvidence now r"
  obtain q where n: "normal ?n q" using normalize_normal by blast
  have same: "rs_level (spread_misroute (spread_proof_error (build_probe now (mark_misrouted (settle_verdict
      (drop_unproven (check_profile r))))))) = rs_level r"
    by simp
  have lv: "rs_level ?n = LvService" using assms by (simp add: AssuranceLevel_def)
  have "level_fixed ?n q" using n by (simp add: normal_def)
  then have "LvService = Weaker LvService (probe_level q)"
    unfolding level_fixed_def lv by (simp add: level_valid_def)
  then have q: "probe_level q = LvService"
    using Weaker_service [of LvService "probe_level q"] by (simp add: known_level_id)
  then have ok: "probe_valid q" "pe_proof_error q = []" "\<not> pe_negative q" "\<not> mismatch (pe_expected q) (pe_observed q)"
      "pe_outcome q = OcServiceAccepted" "isolated q" "200 \<le> pe_http q" "pe_http q < 300"
      "pe_verdict q = no_verdict \<or> pe_verdict q = VdPass"
    by (auto simp: probe_level_def split: if_splits probe_outcome.splits)
  have err: "rs_proof_error ?n = []" using n ok(2) by (auto simp: normal_def unproven_def)
  then have "\<not> foreign_profile ?n q" using n by (auto simp: normal_def)
  then have "pe_profile q = rs_profile ?n" by (auto simp: foreign_profile_def)
  moreover have "rs_level r \<notin> {LvCatalog, LvConfigured, LvRuntime, LvRoute}"
  proof
    assume "rs_level r \<in> {LvCatalog, LvConfigured, LvRuntime, LvRoute}"
    with lv same show False
      by (auto simp: NormalizeEvidence_def copy_facts_def level_valid_def Weaker_service known_level_def
          split: option.splits)
  qed
  ultimately show ?thesis using n ok err by (auto simp: normal_def)
qed

definition demo_result :: probe_result where
  "demo_result = \<lparr>rs_service = ''video'', rs_scenario = [], rs_route = ''xray'', rs_profile = ''wan-000000000001'',
     rs_status = ''pass'', rs_http = 204, rs_latency = 30, rs_checked = Stamp (100 * second), rs_detail = [],
     rs_confirmed = True, rs_source = ''lab'', rs_level = LvOther [], rs_outcome = no_outcome, rs_probe = None,
     rs_fresh_until = Text [], rs_egress = [], rs_verdict = no_verdict, rs_error_code = [], rs_expected = [],
     rs_observed = [], rs_negative = False, rs_proof_error = []\<rparr>"

lemmas normalize_defs = NormalizeEvidence_def copy_facts_def spread_misroute_def spread_proof_error_def
  build_probe_def mark_misrouted_def settle_verdict_def drop_unproven_def check_profile_def probe_level_def
  probe_valid_def isolated_def mismatch_def VerdictFromProbe_def OutcomeFromProbe_def clean_text_def to_lower_def
  trim_space_def trim_left_def trim_right_def go_space_def to_lower_char_def is_upper_def in_range_def
  probeErrorCode_def level_valid_def has_prefix_def duration_defs wrap64_def zero_time_def time_before_def
  ProbeSchemaVersion_def

lemma demo_result_level: "AssuranceLevel 0 demo_result = LvService"
  by (simp add: AssuranceLevel_def demo_result_def normalize_defs Let_def)

theorem service_level_proof_witness:
  "\<exists>q. rs_probe (NormalizeEvidence 0 demo_result) = Some q \<and> pe_outcome q = OcServiceAccepted \<and> pe_http q < 300"
  using service_level_proof [OF demo_result_level] by blast

lemma normal_early:
  assumes "normal r q"
  obtains v c where "mark_misrouted (settle_verdict (drop_unproven (check_profile r))) = r\<lparr>rs_verdict := v, rs_outcome := c\<rparr>"
    "v = VdMisrouted \<longleftrightarrow> rs_verdict r = VdMisrouted"
proof -
  have p: "rs_probe r = Some q" using assms by (simp add: normal_def)
  have c: "check_profile r = r"
    using assms by (auto simp: normal_def check_profile_def foreign_profile_def)
  have d: "drop_unproven r = r"
    using assms by (auto simp: normal_def drop_unproven_def unproven_def Let_def)
  show ?thesis
  proof (cases "rs_verdict r = VdMisrouted")
    case True
    then have "contained r q" using assms by (simp add: normal_def misroute_def)
    with True have "mark_misrouted (settle_verdict r) = r\<lparr>rs_verdict := VdMisrouted, rs_outcome := OcTransportReachable\<rparr>"
      by (simp add: settle_verdict_def mark_misrouted_def contained_def)
    with True c d that show ?thesis by simp
  next
    case False
    then have "\<not> misroute r q" using assms by (auto simp: normal_def contained_def)
    then have m: "\<not> rs_negative r" "\<not> mismatch (rs_expected r) (rs_observed r)" by (auto simp: misroute_def)
    let ?v = "rs_verdict (settle_verdict r)" and ?c = "rs_outcome (settle_verdict r)"
    have "settle_verdict r = r\<lparr>rs_verdict := ?v, rs_outcome := ?c\<rparr>" by (simp add: settle_verdict_def)
    moreover have v: "?v \<noteq> VdMisrouted" using False VerdictFromProbe_routed by (simp add: settle_verdict_def)
    moreover have "mark_misrouted (settle_verdict r) = settle_verdict r"
      using m v by (simp add: mark_misrouted_def settle_verdict_def)
    ultimately show ?thesis using False c d by (intro that [where v = ?v and c = ?c]) simp_all
  qed
qed

lemma normal_late:
  assumes "normal r q" "v = VdMisrouted \<longleftrightarrow> rs_verdict r = VdMisrouted"
  shows "copy_facts (spread_misroute (spread_proof_error (r\<lparr>rs_verdict := v, rs_outcome := c\<rparr>))) = r"
proof -
  let ?r = "r\<lparr>rs_verdict := v, rs_outcome := c\<rparr>"
  have p: "rs_probe r = Some q" "rs_verdict r = pe_verdict q" using assms(1) by (simp_all add: normal_def)
  have s: "spread_proof_error ?r = ?r"
    using assms(1) by (auto simp: normal_def spread_proof_error_def unproven_def Let_def)
  have m: "spread_misroute ?r = ?r"
  proof (cases "misroute r q")
    case True
    then have "contained r q" using assms(1) by (simp add: normal_def)
    then show ?thesis using p by (simp add: spread_misroute_def contained_def)
  next
    case False
    then show ?thesis using p assms(2) by (auto simp: spread_misroute_def misroute_def)
  qed
  let ?l = "if level_valid (rs_level r) \<and> rs_level r \<noteq> LvNone then Weaker (rs_level r) (probe_level q) else probe_level q"
  have l: "?l = rs_level r" using assms(1) by (simp add: normal_def level_fixed_def)
  have "copy_facts ?r = r\<lparr>rs_outcome := pe_outcome q, rs_verdict := pe_verdict q,
      rs_fresh_until := rfc3339 (pe_finished q + 24 * hour), rs_level := ?l\<rparr>"
    using p by (simp add: copy_facts_def split del: if_split cong: if_cong)
  also have "\<dots> = r"
    unfolding l by (rule probe_result.equality) (use assms(1) in \<open>simp_all add: normal_def\<close>)
  finally have "copy_facts ?r = r" .
  then show ?thesis by (simp add: s m)
qed

lemma normalize_idem:
  "NormalizeEvidence later (NormalizeEvidence now r) = NormalizeEvidence now r"
proof -
  let ?n = "NormalizeEvidence now r"
  obtain q where n: "normal ?n q" using normalize_normal by blast
  obtain v c where e: "mark_misrouted (settle_verdict (drop_unproven (check_profile ?n))) = ?n\<lparr>rs_verdict := v, rs_outcome := c\<rparr>"
      "v = VdMisrouted \<longleftrightarrow> rs_verdict ?n = VdMisrouted"
    using normal_early [OF n] by blast
  have "build_probe later (?n\<lparr>rs_verdict := v, rs_outcome := c\<rparr>) = ?n\<lparr>rs_verdict := v, rs_outcome := c\<rparr>"
    using n by (simp add: normal_def build_probe_def)
  with normal_late [OF n e(2)] show ?thesis
    by (subst NormalizeEvidence_def) (simp add: e(1))
qed

text \<open>
  C21: normalisation is idempotent.  A normalised result, normalised again at
  any later time, does not change: not its status, verdict, evidence or level.
\<close>

theorem normalize_idempotent:
  "NormalizeEvidence later (NormalizeEvidence now r) = NormalizeEvidence now r"
  by (rule normalize_idem)

end
