(* ===== verification/Smart_Properties.thy ===== *)
theory Smart_Properties
  imports Smart_Route Evidence_Properties
begin

text \<open>
  Properties of the smart route manager: where a suggestion comes from, when
  a selection may change, and the isolation of network profiles.
\<close>

section \<open>Histories\<close>

datatype sr_event =
    SrObserve string "probe_result list" "string option" "string option" time
  | SrRestart

inductive sr_step :: "sr_manager \<Rightarrow> sr_event \<Rightarrow> sr_manager \<Rightarrow> bool" where
  observed_step: "sr_step m (SrObserve expected rs p1 p2 now) (op_final (ObserveForProfile expected rs p1 p2 now) t m)"
| restarted_step: "sr_step m SrRestart (op_final sr_load t (sr_new (sr_path m) (sr_stored m)))"

inductive_cases sr_stepE: "sr_step m e m'"

section \<open>Evidence in the state\<close>

definition holds_ev :: "services \<Rightarrow> string \<Rightarrow> string \<Rightarrow> sr_evidence \<Rightarrow> bool" where
  "holds_ev svs sid k e \<longleftrightarrow> (\<exists>st. map_of svs sid = Some st \<and> map_of (ss_evidence st) k = Some e)"

text \<open>The evidence \<open>e\<close> was made from a result of the list.\<close>

definition made_from :: "time \<Rightarrow> probe_result list \<Rightarrow> string \<Rightarrow> string \<Rightarrow> sr_evidence \<Rightarrow> bool" where
  "made_from now rs sid k e \<longleftrightarrow> (\<exists>r \<in> set rs. \<exists>checked. rs_checked r = Stamp checked \<and> checked \<le> now \<and>
     rs_service (NormalizeEvidence now r) = sid \<and> rs_route (NormalizeEvidence now r) = k \<and>
     e = evidence_of (NormalizeEvidence now r) (AssuranceLevel now r) checked)"

lemma look_evidence: "map_of (ss_evidence (look svs empty_state sid)) k = Some e \<Longrightarrow> holds_ev svs sid k e"
  by (auto simp: look_def holds_ev_def empty_state_def split: option.splits)

lemma level_twice: "AssuranceLevel now (NormalizeEvidence now r) = AssuranceLevel now r"
  by (simp add: AssuranceLevel_def normalize_idem)

lemma observe_result_holds:
  assumes "holds_ev (fst (observe_result now r acc)) sid k e"
  shows "holds_ev (fst acc) sid k e \<or> made_from now [r] sid k e"
proof -
  obtain svs touched where acc: "acc = (svs, touched)" by fastforce
  let ?n = "NormalizeEvidence now r"
  show ?thesis
  proof (cases "\<exists>checked. rs_checked r = Stamp checked \<and> \<not> time_after checked now \<and>
      \<not> (unusable_times now ?n \<or> unusable_result (AssuranceLevel now ?n) ?n \<or>
         superseded (look svs empty_state (rs_service ?n)) ?n now checked)")
    case False
    then have "observe_result now r acc = acc"
      by (auto simp: observe_result_def acc Let_def split: stamp.split)
    with assms show ?thesis by simp
  next
    case True
    then obtain checked where c: "rs_checked r = Stamp checked" "\<not> time_after checked now"
        "\<not> (unusable_times now ?n \<or> unusable_result (AssuranceLevel now ?n) ?n \<or>
         superseded (look svs empty_state (rs_service ?n)) ?n now checked)" by blast
    let ?e = "evidence_of ?n (AssuranceLevel now r) checked"
    let ?st = "look svs empty_state (rs_service ?n)"
    have "fst (observe_result now r acc) = AList.update (rs_service ?n)
        (?st\<lparr>ss_evidence := AList.update (rs_route ?n) ?e (ss_evidence ?st)\<rparr>) svs"
      using c by (simp add: observe_result_def acc Let_def level_twice)
    with assms have "holds_ev svs sid k e \<or> sid = rs_service ?n \<and> (k = rs_route ?n \<and> e = ?e \<or> map_of (ss_evidence ?st) k = Some e)"
      by (auto simp: holds_ev_def update_conv' split: if_splits)
    then show ?thesis
      using c(1,2) look_evidence by (auto simp: acc made_from_def time_after_def)
  qed
qed

lemma observe_results_holds:
  "observe_results expected now rs acc = Inr acc' \<Longrightarrow> holds_ev (fst acc') sid k e \<Longrightarrow>
   holds_ev (fst acc) sid k e \<or> made_from now rs sid k e"
proof (induction rs arbitrary: acc)
  case (Cons r rs)
  then have "holds_ev (fst (observe_result now r acc)) sid k e \<or> made_from now rs sid k e"
    by (auto split: if_splits)
  then show ?case using observe_result_holds [of now r acc sid k e] by (auto simp: made_from_def)
qed simp

lemma decide_evidence [simp]: "ss_evidence (snd (decide h c ttl sid st now)) = ss_evidence st"
  by (simp add: decide_def keep_route_def take_route_def Let_def split: list.split option.split)

lemma evaluate_holds: "holds_ev (snd (evaluateLocked m svs i now)) sid k e \<Longrightarrow> holds_ev svs sid k e"
proof -
  assume "holds_ev (snd (evaluateLocked m svs i now)) sid k e"
  moreover have "snd (evaluateLocked m svs i now) = AList.update i
      (snd (decide (sr_hysteresis m) (sr_cooldown m) (sr_ttl m) i (look svs empty_state i) now)) svs"
    by (simp add: evaluateLocked_def split: prod.split)
  ultimately show ?thesis
    using look_evidence by (auto simp: holds_ev_def update_conv' split: if_splits)
qed

lemma evaluate_all_holds: "holds_ev (snd (evaluate_all m now ids svs)) sid k e \<Longrightarrow> holds_ev svs sid k e"
proof (induction ids arbitrary: svs)
  case (Cons i ids)
  then have "holds_ev (snd (evaluate_all m now ids (snd (evaluateLocked m svs i now)))) sid k e"
    by (simp add: split_beta)
  from evaluate_holds [OF Cons.IH [OF this]] show ?case .
qed simp

section \<open>The step of an observation\<close>

text \<open>Either nothing changes, or exactly the services of the expected profile are replaced.\<close>

definition observation :: "sr_manager \<Rightarrow> string \<Rightarrow> probe_result list \<Rightarrow> string option \<Rightarrow> string option \<Rightarrow> time \<Rightarrow>
  sr_manager \<Rightarrow> bool" where
  "observation m expected rs p1 p2 now m' \<longleftrightarrow> profile_error expected p1 = None \<and> profile_error expected p2 = None \<and>
     (\<exists>svs. (\<forall>sid k e. holds_ev svs sid k e \<longrightarrow>
          holds_ev (look (sr_profiles m) [] expected) sid k e \<or> made_from now rs sid k e) \<and>
        sr_profiles m' = AList.update expected svs (sr_profiles m)) \<and>
     sr_stored m' \<in> {sr_stored m, SrV2 (sr_profiles m')} \<and>
     sr_path m' = sr_path m \<and> sr_ttl m' = sr_ttl m \<and> sr_hysteresis m' = sr_hysteresis m \<and> sr_cooldown m' = sr_cooldown m"

lemma saveLocked_wp:
  assumes "\<And>f. f \<in> {sr_stored m, SrV2 (sr_profiles m)} \<Longrightarrow> Q () (m\<lparr>sr_stored := f\<rparr>) \<and> E SrSave (m\<lparr>sr_stored := f\<rparr>)"
  shows "wp saveLocked Q E m"
  unfolding saveLocked_def
  by (intro wp_bind wp_get wp_if wp_return wp_effect) (use assms [of "sr_stored m"] assms [of "SrV2 (sr_profiles m)"] in auto)

lemma checkProfileLocked_wp:
  assumes "profile_error expected p = None \<Longrightarrow> Q () m" "\<And>e. profile_error expected p = Some e \<Longrightarrow> E e m"
  shows "wp (checkProfileLocked expected p) Q E m"
  unfolding checkProfileLocked_def by (auto split: option.split intro: wp_return wp_fail assms)

definition unchanged_or :: "(sr_manager \<Rightarrow> bool) \<Rightarrow> sr_manager \<Rightarrow> sr_error \<Rightarrow> sr_manager \<Rightarrow> bool" where
  "unchanged_or P m e m' \<longleftrightarrow> m' = m \<or> e = SrSave \<and> P m'"

lemma publish_wp:
  assumes "profile_error expected p1 = None"
    "\<And>sid k e. holds_ev svs sid k e \<Longrightarrow> holds_ev (look (sr_profiles m) [] expected) sid k e \<or> made_from now rs sid k e"
  shows "wp (publish_services expected p2 svs) (\<lambda>_. observation m expected rs p1 p2 now)
     (unchanged_or (observation m expected rs p1 p2 now) m) m"
proof -
  have "observation m expected rs p1 p2 now (m\<lparr>sr_profiles := AList.update expected svs (sr_profiles m), sr_stored := f\<rparr>)"
    if "f \<in> {sr_stored m, SrV2 (AList.update expected svs (sr_profiles m))}" "profile_error expected p2 = None" for f
    unfolding observation_def using that assms by (intro conjI exI [of _ svs]) auto
  then show ?thesis
    unfolding publish_services_def
    by (intro wp_seq checkProfileLocked_wp wp_modify saveLocked_wp) (auto simp: unchanged_or_def)
qed

lemma ObserveForProfile_wp:
  "wp (ObserveForProfile expected rs p1 p2 now)
     (\<lambda>_ m'. m' = m \<or> observation m expected rs p1 p2 now m')
     (unchanged_or (observation m expected rs p1 p2 now) m) m"
  unfolding ObserveForProfile_def
proof (intro wp_seq checkProfileLocked_wp wp_bind wp_get)
  assume p1: "profile_error expected p1 = None"
  let ?obs = "observe_results expected now rs (look (sr_profiles m) [] expected, [])"
  show "wp (case ?obs of Inl e \<Rightarrow> op_fail e
     | Inr (svs, touched) \<Rightarrow> (case evaluate_all m now (sort touched) svs of (ds, svs') \<Rightarrow>
         if touched = [] then op_return ds else op_seq (publish_services expected p2 svs') (op_return ds)))
     (\<lambda>_ m'. m' = m \<or> observation m expected rs p1 p2 now m') (unchanged_or (observation m expected rs p1 p2 now) m) m"
  proof (cases ?obs)
    case (Inr a)
    obtain svs touched ds svs' where a: "a = (svs, touched)" and ev: "evaluate_all m now (sort touched) svs = (ds, svs')"
      by (metis surj_pair)
    have "holds_ev (look (sr_profiles m) [] expected) sid k e \<or> made_from now rs sid k e" if "holds_ev svs' sid k e" for sid k e
      using that evaluate_all_holds [of m now "sort touched" svs sid k e] observe_results_holds [OF Inr, of sid k e]
      by (simp add: ev a)
    note pub = publish_wp [where ?p2.0 = p2, OF p1 this]
    have "wp (op_seq (publish_services expected p2 svs') (op_return ds))
       (\<lambda>_ m'. m' = m \<or> observation m expected rs p1 p2 now m') (unchanged_or (observation m expected rs p1 p2 now) m) m"
      by (rule wp_seq, rule wp_mono [OF pub]) (auto intro: wp_return)
    then show ?thesis by (simp add: Inr a ev wp_return)
  qed (auto intro: wp_fail simp: unchanged_or_def)
qed (simp add: unchanged_or_def)

section \<open>Properties\<close>

fun stored_profiles :: "sr_file \<Rightarrow> (string \<times> services) list" where
  "stored_profiles (SrV1 svs) = [(legacyProfile, svs)]"
| "stored_profiles (SrV2 ps) = ps"
| "stored_profiles _ = []"

definition derived :: "sr_event list \<Rightarrow> string \<Rightarrow> string \<Rightarrow> string \<Rightarrow> sr_evidence \<Rightarrow> bool" where
  "derived es p sid k e \<longleftrightarrow> (\<exists>rs p1 p2 now. SrObserve p rs p1 p2 now \<in> set es \<and> profile_error p p1 = None \<and>
     profile_error p p2 = None \<and> made_from now rs sid k e)"

definition provenance :: "sr_event list \<Rightarrow> sr_manager \<Rightarrow> bool" where
  "provenance es m \<longleftrightarrow> sr_ttl m = 24 * hour \<and> (\<forall>p sid k e. ValidWANProfileID p \<longrightarrow>
     holds_ev (look (sr_profiles m) [] p) sid k e \<or> holds_ev (look (stored_profiles (sr_stored m)) [] p) sid k e \<longrightarrow>
     derived es p sid k e)"

lemma look_update: "look (AList.update k v m) d k' = (if k' = k then v else look m d k')"
  by (simp add: look_def update_conv')

lemma holds_ev_empty [simp]: "\<not> holds_ev [] sid k e"
  by (simp add: holds_ev_def)

lemma legacy_invalid [simp]: "\<not> ValidWANProfileID legacyProfile"
  by (simp add: ValidWANProfileID_def legacyProfile_def has_prefix_def)

lemma derived_more: "derived es p sid k e \<Longrightarrow> derived (es @ [ev]) p sid k e"
  by (auto simp: derived_def)

lemma provenance_more: "provenance es m \<Longrightarrow> provenance (es @ [ev]) m"
  by (auto simp: provenance_def intro: derived_more)

lemma provenance_observation:
  assumes "provenance es m" "observation m expected rs p1 p2 now m'"
  shows "provenance (es @ [SrObserve expected rs p1 p2 now]) m'"
proof -
  from assms(2) obtain svs where pe: "profile_error expected p1 = None" "profile_error expected p2 = None"
    and svs: "\<And>sid k e. holds_ev svs sid k e \<Longrightarrow> holds_ev (look (sr_profiles m) [] expected) sid k e \<or> made_from now rs sid k e"
    and m': "sr_profiles m' = AList.update expected svs (sr_profiles m)" "sr_stored m' \<in> {sr_stored m, SrV2 (sr_profiles m')}"
      "sr_ttl m' = sr_ttl m"
    unfolding observation_def by blast
  let ?es = "es @ [SrObserve expected rs p1 p2 now]"
  have new: "derived ?es p sid k e" if "ValidWANProfileID p" "holds_ev (look (sr_profiles m') [] p) sid k e" for p sid k e
  proof (cases "p = expected")
    case True
    with that svs have "holds_ev (look (sr_profiles m) [] expected) sid k e \<or> made_from now rs sid k e"
      by (simp add: m' look_update)
    then show ?thesis
    proof
      assume "made_from now rs sid k e"
      with pe True show ?thesis by (auto simp: derived_def)
    qed (use assms(1) that True in \<open>auto simp: provenance_def intro: derived_more\<close>)
  next
    case False
    with that assms(1) show ?thesis by (auto simp: m' look_update provenance_def intro: derived_more)
  qed
  have old: "derived ?es p sid k e" if "ValidWANProfileID p" "holds_ev (look (stored_profiles (sr_stored m)) [] p) sid k e" for p sid k e
    using that assms(1) by (auto simp: provenance_def intro: derived_more)
  from m'(2) have "stored_profiles (sr_stored m') = stored_profiles (sr_stored m) \<or>
      stored_profiles (sr_stored m') = sr_profiles m'" by auto
  with new old assms(1) m'(3) show ?thesis unfolding provenance_def by metis
qed

lemma provenance_restart:
  assumes "provenance es m"
  shows "provenance es (op_final sr_load t (sr_new (sr_path m) (sr_stored m)))"
proof -
  have "wp sr_load (\<lambda>_. provenance es) (\<lambda>_. provenance es) (sr_new (sr_path m) (sr_stored m))"
    unfolding sr_load_def using assms
    by (intro wp_bind wp_get wp_if wp_return)
      (auto simp: sr_new_def provenance_def look_def split: sr_file.split intro!: wp_return wp_fail wp_modify)
  then show ?thesis by (rule op_final_wp)
qed

lemma run_provenance:
  assumes "runs sr_step m es m'" "provenance [] m"
  shows "provenance es m'"
  using assms
proof (induction rule: runs.induct)
  case (run_step m es m' e m'')
  note p = run_step.IH [OF run_step.prems]
  from run_step.hyps(2) show ?case
  proof (cases rule: sr_step.cases)
    case (observed_step expected rs p1 p2 now t)
    have "provenance (es @ [SrObserve expected rs p1 p2 now]) (op_final (ObserveForProfile expected rs p1 p2 now) t m')"
      by (rule op_final_wp [OF ObserveForProfile_wp])
        (use p provenance_more provenance_observation in \<open>auto simp: unchanged_or_def\<close>)
    with observed_step show ?thesis by simp
  next
    case (restarted_step t)
    with provenance_more [OF provenance_restart [OF p]] show ?thesis by simp
  qed
qed simp

lemma provenance_start: "file = SrMissing \<or> file = SrV1 svs \<Longrightarrow> provenance [] (sr_new path file)"
  by (auto simp: provenance_def sr_new_def look_def split: if_splits)

lemma AtLeast_service: "AtLeast l LvService \<longleftrightarrow> l = LvService"
  by (cases l) (simp_all add: AtLeast_def)

text \<open>
  C22: a suggestion has a proof on the current network.  Starting from no
  state, or from the first schema that knew no networks, and through any
  observations, failed saves and restarts: a route suggested instead of the
  fallback was proven by a result, observed under the network profile that is
  now active, service-confirmed with a pass, less than 24 hours ago.
\<close>

theorem smart_provenance:
  assumes "runs sr_step (sr_new path file) es m" "file = SrMissing \<or> file = SrV1 svs"
    and "Suggest m observed now sid fallback = route" "route \<noteq> fallback"
  shows "\<exists>rs p1 p2 at r checked. SrObserve (activeProfile observed) rs p1 p2 at \<in> set es \<and>
     profile_error (activeProfile observed) p1 = None \<and> profile_error (activeProfile observed) p2 = None \<and>
     r \<in> set rs \<and> rs_checked r = Stamp checked \<and> checked \<le> now \<and> now - checked < 24 * hour \<and>
     rs_service (NormalizeEvidence at r) = sid \<and> rs_route (NormalizeEvidence at r) = route \<and>
     rs_status (NormalizeEvidence at r) = ''pass'' \<and> AssuranceLevel at r = LvService"
proof -
  have prov: "provenance es m" by (rule run_provenance [OF assms(1) provenance_start [OF assms(2)]])
  let ?p = "activeProfile observed"
  from assms(3,4) obtain st e where s: "ValidWANProfileID ?p" "map_of (look (sr_profiles m) [] ?p) sid = Some st"
      "map_of (ss_evidence st) route = Some e" "viable e" "\<not> expired (sr_ttl m) e now"
    by (auto simp: Suggest_def Let_def split: if_splits option.splits)
  then have "holds_ev (look (sr_profiles m) [] ?p) sid route e" by (auto simp: holds_ev_def)
  with prov s(1) have "derived es ?p sid route e" by (auto simp: provenance_def)
  then obtain rs p1 p2 at where d: "SrObserve ?p rs p1 p2 at \<in> set es" "profile_error ?p p1 = None"
      "profile_error ?p p2 = None" "made_from at rs sid route e"
    by (auto simp: derived_def)
  then obtain r checked where r: "r \<in> set rs" "rs_checked r = Stamp checked"
      "rs_service (NormalizeEvidence at r) = sid" "rs_route (NormalizeEvidence at r) = route"
      "e = evidence_of (NormalizeEvidence at r) (AssuranceLevel at r) checked"
    by (auto simp: made_from_def)
  have "\<not> time_after checked now" "time_sub now checked < 24 * hour"
    using s(5) prov by (auto simp: r(5) expired_def evidence_of_def rfc3339_nano_def provenance_def split: if_splits)
  then have "checked \<le> now" "now - checked < 24 * hour"
    by (auto simp: time_after_def time_sub_less_iff duration_defs)
  moreover have "rs_status (NormalizeEvidence at r) = ''pass''" "AssuranceLevel at r = LvService"
    using s(4) by (auto simp: viable_def r(5) evidence_of_def AtLeast_service)
  ultimately show ?thesis using d r by blast
qed

definition demo_profile :: string where "demo_profile = ''wan-000000000001''"

definition demo_manager :: sr_manager where
  "demo_manager = op_final (ObserveForProfile demo_profile [demo_result] (Some demo_profile) (Some demo_profile)
     (101 * second)) [] (sr_new False SrMissing)"

lemma demo_profile_ok: "ValidWANProfileID demo_profile" "activeProfile (Some demo_profile) = demo_profile"
  by (simp_all add: ValidWANProfileID_def demo_profile_def has_prefix_def char_class_defs activeProfile_def
      trim_space_def trim_left_def trim_right_def go_space_def)

definition demo_normal :: probe_result where
  "demo_normal = NormalizeEvidence (101 * second) demo_result"

lemma demo_level: "AssuranceLevel (101 * second) demo_normal = LvService"
  by (simp add: AssuranceLevel_def demo_normal_def normalize_idem) (simp add: demo_result_def normalize_defs Let_def)

lemma demo_normal_simps:
  "rs_service demo_normal = ''video''" "rs_route demo_normal = ''xray''" "rs_status demo_normal = ''pass''"
  "rs_latency demo_normal = 30" "rs_outcome demo_normal = OcServiceAccepted" "rs_verdict demo_normal = VdPass"
  "rs_proof_error demo_normal = []" "rs_fresh_until demo_normal = Stamp (100 * second + 24 * hour)"
  "\<exists>p. rs_probe demo_normal = Some p \<and> pe_finished p = 100 * second \<and> pe_started p = 100 * second - 30 * millisecond"
  by (simp_all add: demo_normal_def demo_result_def normalize_defs rfc3339_def Let_def)

lemma demo_checked: "rs_checked demo_result = Stamp (100 * second)"
  by (simp add: demo_result_def)

lemma demo_suggest: "Suggest demo_manager (Some demo_profile) (102 * second) ''video'' ''direct'' = ''xray''"
proof -
  obtain p where p: "rs_probe demo_normal = Some p" "pe_finished p = 100 * second"
      "pe_started p = 100 * second - 30 * millisecond"
    using demo_normal_simps(9) by blast
  let ?e = "evidence_of demo_normal LvService (100 * second)"
  have "observe_result (101 * second) demo_result ([], []) =
      ([(''video'', empty_state\<lparr>ss_evidence := [(''xray'', ?e)]\<rparr>)], [''video''])"
    unfolding observe_result_def demo_normal_def [symmetric]
    using p demo_level demo_checked
    by (simp add: demo_normal_simps unusable_times_def unusable_result_def superseded_def look_def empty_state_def
        AtLeast_def knownStatus_def Let_def time_after_def duration_defs zero_time_def)
  moreover have "\<not> foreign_result demo_profile demo_result"
    by (simp add: foreign_result_def demo_result_def demo_profile_def)
  moreover have v: "viable ?e" "\<not> expired (24 * hour) ?e (101 * second)" "\<not> expired (24 * hour) ?e (102 * second)"
    by (simp_all add: viable_def evidence_of_def demo_normal_simps AtLeast_def expired_def rfc3339_nano_def
        time_after_def time_before_def time_sub_def duration_defs)
  moreover have "se_route ?e = ''xray''" by (simp add: evidence_of_def demo_normal_simps)
  ultimately show ?thesis
    using demo_profile_ok
    by (simp add: demo_manager_def ObserveForProfile_def publish_services_def checkProfileLocked_def saveLocked_def
        profile_error_def Suggest_def evaluateLocked_def decide_def take_route_def valid_evidence_def sr_new_def
        look_def empty_state_def op_final_def run_simps Let_def)
qed

theorem smart_provenance_witness:
  "\<exists>rs p1 p2 at r checked. SrObserve demo_profile rs p1 p2 at \<in>
       set [SrObserve demo_profile [demo_result] (Some demo_profile) (Some demo_profile) (101 * second)] \<and>
     r \<in> set rs \<and> rs_checked r = Stamp checked \<and> AssuranceLevel at r = LvService"
proof -
  have "runs sr_step (sr_new False SrMissing)
      [SrObserve demo_profile [demo_result] (Some demo_profile) (Some demo_profile) (101 * second)] demo_manager"
    unfolding demo_manager_def by (rule run_one, rule observed_step)
  from smart_provenance [OF this _ demo_suggest] show ?thesis unfolding demo_profile_ok(2) by blast
qed

text \<open>
  C23: a route is switched only for a reason.  A changed decision selects, of
  the viable unexpired evidence, one with the highest score; and while the
  current route is itself viable and unexpired, the score must improve by the
  hysteresis and the cooldown since the last switch must have passed.
\<close>

lemma valid_evidence_best:
  assumes "valid_evidence ttl now st = best # rest"
  shows "best \<in> set (map snd (ss_evidence st)) \<and> viable best \<and> \<not> expired ttl best now \<and>
     (\<forall>e \<in> set (map snd (ss_evidence st)). viable e \<longrightarrow> \<not> expired ttl e now \<longrightarrow> se_score e \<le> se_score best)"
proof -
  let ?f = "\<lambda>e. (- se_score e, se_route e)"
  have s: "set (valid_evidence ttl now st) = {e \<in> set (map snd (ss_evidence st)). \<not> expired ttl e now \<and> viable e}"
    by (simp add: valid_evidence_def)
  have "sorted (map ?f (best # rest))"
    unfolding assms [symmetric] valid_evidence_def by (rule sorted_sort_key)
  then have "\<forall>e \<in> set rest. ?f best \<le> ?f e" by auto
  then have "\<forall>e \<in> set rest. se_score e \<le> se_score best" by (auto simp: less_eq_prod_def)
  then have "\<forall>e \<in> set (valid_evidence ttl now st). se_score e \<le> se_score best" using assms by auto
  moreover have "best \<in> set (valid_evidence ttl now st)" using assms by simp
  ultimately show ?thesis using s by auto
qed

theorem smart_switch:
  assumes "evaluateLocked m svs sid now = (d, svs')" "sd_changed d"
  defines "st \<equiv> look svs empty_state sid"
  shows "ss_selected (look svs' empty_state sid) = sd_selected d \<and>
     (\<exists>best \<in> set (map snd (ss_evidence st)). se_route best = sd_selected d \<and> viable best \<and> \<not> expired (sr_ttl m) best now \<and>
        (\<forall>e \<in> set (map snd (ss_evidence st)). viable e \<longrightarrow> \<not> expired (sr_ttl m) e now \<longrightarrow> se_score e \<le> se_score best) \<and>
        (\<forall>c. ss_selected st \<noteq> [] \<and> map_of (ss_evidence st) (ss_selected st) = Some c \<and> viable c \<and> \<not> expired (sr_ttl m) c now \<longrightarrow>
           se_score c + sr_hysteresis m \<le> se_score best \<and> \<not> withinCooldown (ss_switch st) now (sr_cooldown m)))"
proof -
  let ?d = "decide (sr_hysteresis m) (sr_cooldown m) (sr_ttl m) sid st now"
  have d: "d = fst ?d" "svs' = AList.update sid (snd ?d) svs"
    using assms(1) by (simp_all add: evaluateLocked_def st_def split: prod.splits)
  show ?thesis
  proof (cases "valid_evidence (sr_ttl m) now st")
    case Nil
    with d assms(2) show ?thesis by (simp add: decide_def keep_route_def)
  next
    case (Cons best rest)
    have "sd_selected d = se_route best \<and> ss_selected (snd ?d) = sd_selected d \<and>
        (\<forall>c. ss_selected st \<noteq> [] \<and> map_of (ss_evidence st) (ss_selected st) = Some c \<and> viable c \<and> \<not> expired (sr_ttl m) c now \<longrightarrow>
           se_score c + sr_hysteresis m \<le> se_score best \<and> \<not> withinCooldown (ss_switch st) now (sr_cooldown m))"
      using assms(2) unfolding d(1)
      by (auto simp: decide_def Cons keep_route_def take_route_def Let_def split: option.splits if_splits)
    with valid_evidence_best [OF Cons] show ?thesis by (auto simp: d(2) look_update)
  qed
qed

text \<open>
  C24: networks are isolated.  An observation leaves the services of every
  other profile as they were, changes the state only when both observed
  profiles are the known expected one, and any failure but that of the file
  write changes nothing.
\<close>

theorem smart_isolation:
  assumes "ObserveForProfile expected rs p1 p2 now (t, m) = (r, t', m')"
  shows "(\<forall>p. p \<noteq> expected \<longrightarrow> look (sr_profiles m') [] p = look (sr_profiles m) [] p) \<and>
     (m' \<noteq> m \<longrightarrow> ValidWANProfileID expected \<and> activeProfile p1 = expected \<and> activeProfile p2 = expected) \<and>
     (\<forall>e. r = Inl e \<longrightarrow> e \<noteq> SrSave \<longrightarrow> m' = m)"
proof -
  have obs: "m' = m \<or> observation m expected rs p1 p2 now m' \<and> (\<forall>e. r = Inl e \<longrightarrow> e = SrSave)"
    using wpD [OF ObserveForProfile_wp assms] by (cases r) (auto simp: unchanged_or_def)
  then show ?thesis
    by (auto simp: observation_def look_update profile_error_def Let_def split: if_splits)
qed

theorem smart_isolation_witness:
  "look (sr_profiles demo_manager) [] ''wan-000000000002'' = []"
proof -
  obtain r t' where "ObserveForProfile demo_profile [demo_result] (Some demo_profile) (Some demo_profile)
     (101 * second) ([], sr_new False SrMissing) = (r, t', demo_manager)"
    unfolding demo_manager_def op_final_def by (metis prod.collapse)
  from smart_isolation [OF this] show ?thesis by (simp add: demo_profile_def sr_new_def look_def)
qed

definition demo_current :: sr_evidence where
  "demo_current = (evidence_of demo_normal LvService (100 * second))\<lparr>se_route := ''usque'', se_score := 70\<rparr>"

definition demo_two :: services where
  "demo_two = [(''video'', \<lparr>ss_selected = ''usque'', ss_switch = Text [], ss_reason = [], ss_evidence =
     [(''usque'', demo_current), (''xray'', evidence_of demo_normal LvService (100 * second))]\<rparr>)]"

theorem smart_switch_witness:
  "\<exists>d svs'. evaluateLocked (sr_new False SrMissing) demo_two ''video'' (101 * second) = (d, svs') \<and>
     sd_selected d = ''xray'' \<and> ss_selected (look svs' empty_state ''video'') = ''xray''"
proof -
  have v: "viable (evidence_of demo_normal LvService (100 * second))" "viable demo_current"
      "\<not> expired (24 * hour) (evidence_of demo_normal LvService (100 * second)) (101 * second)"
      "\<not> expired (24 * hour) demo_current (101 * second)"
    by (simp_all add: demo_current_def viable_def evidence_of_def demo_normal_simps AtLeast_def expired_def
        rfc3339_nano_def time_after_def time_before_def time_sub_def duration_defs)
  have s: "se_score (evidence_of demo_normal LvService (100 * second)) = 89"
      "se_route (evidence_of demo_normal LvService (100 * second)) = ''xray''"
      "se_score demo_current = 70" "se_route demo_current = ''usque''"
    by (simp_all add: demo_current_def evidence_of_def demo_normal_simps score_def look_def Let_def signed_divide_int_def)
  obtain d svs' where e: "evaluateLocked (sr_new False SrMissing) demo_two ''video'' (101 * second) = (d, svs')"
    by fastforce
  then have "sd_changed d" "sd_selected d = ''xray''"
    using v s by (auto simp: evaluateLocked_def decide_def take_route_def keep_route_def valid_evidence_def demo_two_def
        sr_new_def look_def withinCooldown_def Let_def split: prod.splits)
  with smart_switch [OF e] e show ?thesis by metis
qed

end
