(* ===== verification/Private_File.thy ===== *)
theory Private_File
  imports Prelude
begin

text \<open>
  \<open>internal/security/private_persistence.go\<close>: owner-only files that are replaced
  or removed by a rename or unlink and then made durable by a sync of the held
  directory.  Between the two a power loss may bring an earlier content back,
  so the model keeps those contents beside the visible one.  The contract the
  session gate relies on is the locale \<open>private_store\<close>.
\<close>

section \<open>Contents and versions\<close>

text \<open>A file is absent, cannot be decoded, or holds a decoded document.\<close>

datatype 'a content = Absent | Unreadable | Parsed 'a

record 'a private_file =
  pf_content :: "'a content"
  pf_stale :: "'a content list"

definition versions :: "'a private_file \<Rightarrow> 'a content set" where
  "versions f = insert (pf_content f) (set (pf_stale f))"

definition new_file :: "'a content \<Rightarrow> 'a private_file" where
  "new_file c = \<lparr>pf_content = c, pf_stale = []\<rparr>"

text \<open>A visible change that no sync has made durable yet, the sync, and a power loss.\<close>

definition pf_put :: "'a content \<Rightarrow> 'a private_file \<Rightarrow> 'a private_file" where
  "pf_put c f = \<lparr>pf_content = c, pf_stale = pf_content f # pf_stale f\<rparr>"

definition syncPrivateParent :: "'e \<Rightarrow> ('a private_file, 'e, unit) op" where
  "syncPrivateParent e = op_seq (op_check e) (op_modify (\<lambda>f. f\<lparr>pf_stale := []\<rparr>))"

definition power_loss :: "nat \<Rightarrow> 'a private_file \<Rightarrow> 'a private_file" where
  "power_loss i f = new_file ((pf_content f # pf_stale f) ! (i mod Suc (length (pf_stale f))))"

section \<open>Operations\<close>

definition privateParent :: "'e \<Rightarrow> ('a private_file, 'e, unit) op" where
  "privateParent e = op_seq (op_check e) (op_seq (op_check e) (op_check e))"

definition writePrivateFile :: "'e \<Rightarrow> 'a \<Rightarrow> ('a private_file, 'e, unit) op" where
  "writePrivateFile e x =
     op_seq (privateParent e) (
     op_seq (op_seq (op_check e) (op_modify (pf_put (Parsed x)))) (
     syncPrivateParent e))"

definition removePrivateFile :: "'e \<Rightarrow> ('a private_file, 'e, unit) op" where
  "removePrivateFile e =
     op_seq (privateParent e) (
     op_bind (op_get pf_content) (\<lambda>c.
     op_seq (if c = Absent then op_return () else op_seq (op_check e) (op_modify (pf_put Absent))) (
     syncPrivateParent e)))"

section \<open>The contract\<close>

text \<open>
  What a client may rely on: a write or removal that succeeded leaves exactly
  one version, one that failed adds at most the new version, and a restart
  after a power loss sees one of the versions.
\<close>

locale private_store =
  fixes vers :: "'f \<Rightarrow> 'a content set"
    and store :: "'e \<Rightarrow> 'a \<Rightarrow> ('f, 'e, unit) op"
    and remove :: "'e \<Rightarrow> ('f, 'e, unit) op"
    and lose :: "nat \<Rightarrow> 'f \<Rightarrow> 'f"
  assumes store_law: "wp (store e x) (\<lambda>_ f'. vers f' = {Parsed x}) (\<lambda>_ f'. vers f' \<subseteq> insert (Parsed x) (vers f)) f"
    and remove_law: "wp (remove e) (\<lambda>_ f'. vers f' = {Absent}) (\<lambda>_ f'. vers f' \<subseteq> insert Absent (vers f)) f"
    and lose_law: "vers (lose i f) \<subseteq> vers f"
begin

lemma store_all:
  assumes "P (Parsed x)" "\<forall>c \<in> vers f. P c"
  shows "wp (store e x) (\<lambda>_ f'. \<forall>c \<in> vers f'. P c) (\<lambda>_ f'. \<forall>c \<in> vers f'. P c) f"
  by (rule wp_mono [OF store_law]) (use assms in auto)

lemma remove_all:
  assumes "P Absent" "\<forall>c \<in> vers f. P c"
  shows "wp (remove e) (\<lambda>_ f'. \<forall>c \<in> vers f'. P c) (\<lambda>_ f'. \<forall>c \<in> vers f'. P c) f"
  by (rule wp_mono [OF remove_law]) (use assms in auto)

lemma store_sure:
  assumes "P (Parsed x)"
  shows "wp (store e x) (\<lambda>_ f'. \<forall>c \<in> vers f'. P c) (\<lambda>_ _. True) f"
  by (rule wp_mono [OF store_law]) (use assms in auto)

lemma remove_sure:
  assumes "P Absent"
  shows "wp (remove e) (\<lambda>_ f'. \<forall>c \<in> vers f'. P c) (\<lambda>_ _. True) f"
  by (rule wp_mono [OF remove_law]) (use assms in auto)

end

lemma versions_put: "versions (pf_put c f) = insert c (versions f)"
  by (auto simp: versions_def pf_put_def)

lemma versions_synced: "versions (f\<lparr>pf_stale := []\<rparr>) = {pf_content f}"
  by (simp add: versions_def)

lemma versions_new [simp]: "versions (new_file c) = {c}"
  by (simp add: versions_def new_file_def)

lemma pf_content_put [simp]: "pf_content (pf_put c f) = c"
  by (simp add: pf_put_def)

lemma versions_power_loss: "versions (power_loss i f) \<subseteq> versions f"
proof -
  have "(pf_content f # pf_stale f) ! (i mod Suc (length (pf_stale f))) \<in> set (pf_content f # pf_stale f)"
    by (rule nth_mem) simp
  then show ?thesis by (auto simp: power_loss_def versions_def new_file_def)
qed

interpretation ps: private_store versions writePrivateFile removePrivateFile power_loss
proof
  fix e :: 'e and x :: 'a and f :: "'a private_file"
  show "wp (writePrivateFile e x) (\<lambda>_ f'. versions f' = {Parsed x})
      (\<lambda>_ f'. versions f' \<subseteq> insert (Parsed x) (versions f)) f"
    unfolding writePrivateFile_def privateParent_def syncPrivateParent_def
    by (intro wp_seq wp_check wp_modify) (simp_all add: versions_put versions_synced subset_insertI)
  show "wp (removePrivateFile e) (\<lambda>_ f'. versions f' = {Absent})
      (\<lambda>_ f'. versions f' \<subseteq> insert Absent (versions f)) f"
    unfolding removePrivateFile_def privateParent_def syncPrivateParent_def
    by (intro wp_seq wp_bind wp_get wp_if wp_check wp_return wp_modify)
      (simp_all add: versions_put versions_synced subset_insertI)
qed (rule versions_power_loss)

text \<open>In a world that never refuses.\<close>

lemma writePrivateFile_run [run_simps]:
  "writePrivateFile e x ([], f) = (Inr (), [], new_file (Parsed x))"
  by (simp add: writePrivateFile_def privateParent_def syncPrivateParent_def run_simps pf_put_def new_file_def)

lemma keeps_content:
  "keeps R a \<Longrightarrow> keeps R b \<Longrightarrow> (\<And>x. keeps R (f x)) \<Longrightarrow>
   keeps R (case c of Absent \<Rightarrow> a | Unreadable \<Rightarrow> b | Parsed x \<Rightarrow> f x)"
  by (simp split: content.split)

lemma keeps_option:
  "keeps R a \<Longrightarrow> (\<And>x. keeps R (f x)) \<Longrightarrow> keeps R (case c of None \<Rightarrow> a | Some x \<Rightarrow> f x)"
  by (simp split: option.split)

lemma wp_content:
  "(c = Absent \<Longrightarrow> wp a Q E s) \<Longrightarrow> (c = Unreadable \<Longrightarrow> wp b Q E s) \<Longrightarrow> (\<And>x. c = Parsed x \<Longrightarrow> wp (f x) Q E s) \<Longrightarrow>
   wp (case c of Absent \<Rightarrow> a | Unreadable \<Rightarrow> b | Parsed x \<Rightarrow> f x) Q E s"
  by (simp split: content.split)

end
