(* ===== verification/Session_Gate.thy ===== *)
theory Session_Gate
  imports Private_File "HOL-Library.AList"
begin

text \<open>
  \<open>internal/security/gate.go\<close> and \<open>remembered.go\<close>: the administrator account,
  its browser sessions, the recovery key and the guard of the control API.
  The gate of a running panel is a record of its memory and of its three owner-only files,
  so a restart and a power loss are operations too.  SHA-256 and HMAC-SHA-256
  of the standard library are the arguments \<open>sha\<close> and \<open>mac\<close>; random bytes are
  arguments of the operation that draws them.  Usernames, hosts and headers
  are ASCII where the code folds case or trims space, and the clock is read
  once per operation.
\<close>

section \<open>Hexadecimal text\<close>

definition hex_char :: "nat \<Rightarrow> char" where
  "hex_char n = char_of (if n < 10 then 48 + n else 87 + n)"

fun hex_encode :: "string \<Rightarrow> string" where
  "hex_encode [] = []"
| "hex_encode (c # s) = hex_char (of_char c div 16) # hex_char (of_char c mod 16) # hex_encode s"

definition hex_value :: "char \<Rightarrow> nat option" where
  "hex_value c = (if is_digit c then Some (of_char c - 48)
     else if in_range CHR ''a'' CHR ''f'' c then Some (of_char c - 87)
     else if in_range CHR ''A'' CHR ''F'' c then Some (of_char c - 55) else None)"

fun hex_decode :: "string \<Rightarrow> string option" where
  "hex_decode [] = Some []"
| "hex_decode [_] = None"
| "hex_decode (a # b # s) = (case (hex_value a, hex_value b, hex_decode s) of
     (Some x, Some y, Some t) \<Rightarrow> Some (char_of (16 * x + y) # t)
   | _ \<Rightarrow> None)"

section \<open>Requests\<close>

text \<open>
  A request as \<open>net/http\<close>, \<open>net/netip\<close>, \<open>mime\<close> and \<open>net/url\<close> parse it:
  \<open>ht_media\<close> is the media type of the Content-Type header, \<open>ht_remote\<close> the
  parsed peer address, \<open>ht_cookie\<close> the session cookie; each is \<open>None\<close> when
  parsing fails or the cookie is missing.
\<close>

datatype origin_header =
    NoOrigin
  | BadOrigin
  | OriginOf (or_scheme: string) (or_host: string) (or_user: bool) (or_query: string) (or_fragment: string) (or_path: string)

record request =
  ht_method :: string
  ht_path :: string
  ht_authorization :: string
  ht_origin :: origin_header
  ht_media :: "string option"
  ht_tls :: bool
  ht_host :: string
  ht_cookie :: "string option"
  ht_remote :: "string option"
  ht_agent :: string

definition requestIP :: "request option \<Rightarrow> string" where
  "requestIP r = (case r of None \<Rightarrow> ''local''
     | Some q \<Rightarrow> (case ht_remote q of Some a \<Rightarrow> a | None \<Rightarrow> ''unknown''))"

definition boundedText :: "string \<Rightarrow> nat \<Rightarrow> string" where
  "boundedText s n = (if length s > n then take n s else s)"

definition boundedUserAgent :: "request option \<Rightarrow> string" where
  "boundedUserAgent r = (case r of None \<Rightarrow> []
     | Some q \<Rightarrow> (let v = trim_space (ht_agent q) in if length v > 160 then take 160 v else v))"

definition isMutation :: "request \<Rightarrow> bool" where
  "isMutation r \<longleftrightarrow> ht_method r \<in> {''POST'', ''PUT'', ''PATCH'', ''DELETE''}"

definition isJSON :: "request \<Rightarrow> bool" where
  "isJSON r \<longleftrightarrow> ht_media r = Some ''application/json''"

definition sameOrigin :: "request \<Rightarrow> bool" where
  "sameOrigin r = (case ht_origin r of
     NoOrigin \<Rightarrow> True
   | BadOrigin \<Rightarrow> False
   | OriginOf scheme host user query fragment path \<Rightarrow>
       if user \<or> query \<noteq> [] \<or> fragment \<noteq> [] \<or> path \<noteq> [] then False
       else to_lower scheme = (if ht_tls r then ''https'' else ''http'') \<and>
            to_lower host = to_lower (ht_host r))"

definition publicAPI :: "string \<Rightarrow> string \<Rightarrow> bool" where
  "publicAPI path verb \<longleftrightarrow>
     path = ''/api/v1/status'' \<and> verb = ''GET'' \<or>
     path = ''/api/v1/auth/status'' \<and> verb = ''GET'' \<or>
     path = ''/api/v1/auth/login'' \<and> verb = ''POST''"

section \<open>Passwords\<close>

definition maximumPasswordBytes :: nat where "maximumPasswordBytes = 256"
definition passwordIterations :: int where "passwordIterations = 210000"
definition minimumTokenLength :: nat where "minimumTokenLength = 32"

definition validateNewPassword :: "string \<Rightarrow> bool" where
  "validateNewPassword p \<longleftrightarrow> p \<noteq> [] \<and> length p \<le> maximumPasswordBytes"

definition be32 :: "nat \<Rightarrow> string" where
  "be32 n = map char_of [n div 2 ^ 24 mod 256, n div 2 ^ 16 mod 256, n div 2 ^ 8 mod 256, n mod 256]"

definition xor_char :: "char \<Rightarrow> char \<Rightarrow> char" where
  "xor_char a b = char_of (xor (of_char a :: nat) (of_char b))"

text \<open>
  The inner loop: \<open>n\<close> more rounds from the last value \<open>u\<close> and the sum \<open>t\<close>.
  The outer loop appends one block per round; every block of HMAC-SHA-256 has
  32 bytes, so \<open>keyLen\<close> rounds are always enough.
\<close>

fun pbkdf2_rounds :: "(string \<Rightarrow> string \<Rightarrow> string) \<Rightarrow> string \<Rightarrow> nat \<Rightarrow> string \<Rightarrow> string \<Rightarrow> string" where
  "pbkdf2_rounds mac password 0 u t = t"
| "pbkdf2_rounds mac password (Suc n) u t =
     (let u' = mac password u in pbkdf2_rounds mac password n u' (map2 xor_char t u'))"

definition pbkdf2_block :: "(string \<Rightarrow> string \<Rightarrow> string) \<Rightarrow> string \<Rightarrow> string \<Rightarrow> nat \<Rightarrow> nat \<Rightarrow> string" where
  "pbkdf2_block mac password salt iterations block =
     (let u = mac password (salt @ be32 block) in pbkdf2_rounds mac password (iterations - 1) u u)"

fun pbkdf2_loop :: "(string \<Rightarrow> string \<Rightarrow> string) \<Rightarrow> string \<Rightarrow> string \<Rightarrow> nat \<Rightarrow> nat \<Rightarrow> nat \<Rightarrow> nat \<Rightarrow> string \<Rightarrow> string" where
  "pbkdf2_loop mac password salt iterations keyLen 0 block result = result"
| "pbkdf2_loop mac password salt iterations keyLen (Suc n) block result =
     (if length result < keyLen
      then pbkdf2_loop mac password salt iterations keyLen n ((block + 1) mod 2 ^ 32)
             (result @ pbkdf2_block mac password salt iterations block)
      else result)"

definition pbkdf2SHA256 :: "(string \<Rightarrow> string \<Rightarrow> string) \<Rightarrow> string \<Rightarrow> string \<Rightarrow> int \<Rightarrow> nat \<Rightarrow> string" where
  "pbkdf2SHA256 mac password salt iterations keyLen =
     (if iterations < 1 \<or> keyLen < 1 then []
      else take keyLen (pbkdf2_loop mac password salt (nat iterations) keyLen keyLen 1 []))"

section \<open>State\<close>

datatype sg_error =
    SgInvalid | SgRandom | SgConfigured | SgNotConfigured | SgRateLimited | SgBadLogin
  | SgBadPassword | SgBadRecovery | SgIO | SgRemember | SgRevoke | SgNoPath | SgShortToken | SgDown

record credential =
  cr_schema :: int
  cr_username :: string
  cr_salt :: "string option"
  cr_iterations :: int
  cr_hash :: "string option"

record session =
  sn_id :: string
  sn_created :: time
  sn_expires :: time
  sn_seen :: time
  sn_ip :: string
  sn_agent :: string
  sn_remembered :: bool

record login_attempt =
  la_failures :: nat
  la_first :: time
  la_locked :: time

record remembered_session =
  rm_hash :: string
  rm_created :: time
  rm_expires :: time
  rm_seen :: time
  rm_ip :: string
  rm_agent :: string

record remembered_document =
  rd_schema :: int
  rd_sessions :: "remembered_session list"

text \<open>
  The credential file holds base64 text; the fields \<open>cr_salt\<close> and \<open>cr_hash\<close>
  are its decoding, \<open>None\<close> when it fails.  Maps are association lists in the
  order their keys were added.  \<open>sg_up\<close> is false while no panel runs.
\<close>

record session_gate =
  sg_token_hash :: string
  sg_token_path :: string
  sg_credential_path :: string
  sg_sessions_path :: string
  sg_credential :: "credential option"
  sg_sessions :: "(string \<times> session) list"
  sg_attempts :: "(string \<times> login_attempt) list"
  sg_window :: duration
  sg_lockout :: duration
  sg_login_max :: nat
  sg_up :: bool
  sg_token_file :: "string private_file"
  sg_credential_file :: "credential private_file"
  sg_sessions_file :: "remembered_document private_file"

type_synonym 'a sg_op = "(session_gate, sg_error, 'a) op"

definition sessionLifetime :: duration where "sessionLifetime = 12 * hour"
definition rememberedSessionLifetime :: duration where "rememberedSessionLifetime = 30 * 24 * hour"
definition maxRememberedSessions :: nat where "maxRememberedSessions = 16"
definition rememberedSchema :: int where "rememberedSchema = 1"
definition defaultLoginWindow :: duration where "defaultLoginWindow = 10 * minute"
definition defaultLoginLockout :: duration where "defaultLoginLockout = minute"
definition defaultLoginMax :: nat where "defaultLoginMax = 5"

definition on_token_file :: "(string private_file, sg_error, 'a) op \<Rightarrow> 'a sg_op" where
  "on_token_file = op_zoom sg_token_file (\<lambda>f g. g\<lparr>sg_token_file := f\<rparr>)"

definition on_credential_file :: "(credential private_file, sg_error, 'a) op \<Rightarrow> 'a sg_op" where
  "on_credential_file = op_zoom sg_credential_file (\<lambda>f g. g\<lparr>sg_credential_file := f\<rparr>)"

definition on_sessions_file :: "(remembered_document private_file, sg_error, 'a) op \<Rightarrow> 'a sg_op" where
  "on_sessions_file = op_zoom sg_sessions_file (\<lambda>f g. g\<lparr>sg_sessions_file := f\<rparr>)"

definition set_sessions :: "(string \<times> session) list \<Rightarrow> session_gate \<Rightarrow> session_gate" where
  "set_sessions ss g = g\<lparr>sg_sessions := ss\<rparr>"

section \<open>Remembered sessions\<close>

definition remembered_of :: "string \<times> session \<Rightarrow> remembered_session" where
  "remembered_of p = (case p of (h, s) \<Rightarrow>
     \<lparr>rm_hash = hex_encode h, rm_created = sn_created s, rm_expires = sn_expires s, rm_seen = sn_seen s,
      rm_ip = sn_ip s, rm_agent = sn_agent s\<rparr>)"

definition remembered_document_of :: "time \<Rightarrow> (string \<times> session) list \<Rightarrow> remembered_document" where
  "remembered_document_of now ss =
     \<lparr>rd_schema = rememberedSchema,
      rd_sessions = sort_key rm_created (map remembered_of
        (filter (\<lambda>(_, s). sn_remembered s \<and> time_before now (sn_expires s)) ss))\<rparr>"

definition persistRemembered :: "time \<Rightarrow> unit sg_op" where
  "persistRemembered now = op_bind (op_get (\<lambda>g. g)) (\<lambda>g.
     if sg_sessions_path g = [] then op_return ()
     else on_sessions_file (writePrivateFile SgIO (remembered_document_of now (sg_sessions g))))"

fun drop_oldest :: "(string \<times> time) list \<Rightarrow> (string \<times> session) list \<Rightarrow> (string \<times> session) list" where
  "drop_oldest [] ss = ss"
| "drop_oldest ((h, c) # rest) ss =
     (if length ((h, c) # rest) \<ge> maxRememberedSessions then drop_oldest rest (AList.delete h ss) else ss)"

definition dropRememberedOverflow :: "(string \<times> session) list \<Rightarrow> (string \<times> session) list" where
  "dropRememberedOverflow ss =
     drop_oldest (sort_key snd (map (\<lambda>(h, s). (h, sn_created s)) (filter (\<lambda>(_, s). sn_remembered s) ss))) ss"

text \<open>A failed rewrite falls back to removing the file.\<close>

definition revokeAll :: "time \<Rightarrow> unit sg_op" where
  "revokeAll now =
     op_seq (op_modify (set_sessions [])) (
     op_bind (op_try (persistRemembered now)) (\<lambda>r. case r of
       Inr _ \<Rightarrow> op_return ()
     | Inl _ \<Rightarrow> op_remap (\<lambda>_. SgRevoke) (on_sessions_file (removePrivateFile SgIO))))"

definition load_session :: "time \<Rightarrow> remembered_session \<Rightarrow> (string \<times> session) list \<Rightarrow> (string \<times> session) list" where
  "load_session now s ss = (case hex_decode (rm_hash s) of
     None \<Rightarrow> ss
   | Some raw \<Rightarrow>
       if length raw \<noteq> 32 \<or> \<not> time_before now (rm_expires s) \<or>
          time_sub (rm_expires s) (rm_created s) > rememberedSessionLifetime then ss
       else AList.update raw \<lparr>sn_id = hex_encode (take 8 raw), sn_created = rm_created s, sn_expires = rm_expires s,
              sn_seen = rm_seen s, sn_ip = boundedText (rm_ip s) 64, sn_agent = boundedText (rm_agent s) 160,
              sn_remembered = True\<rparr> ss)"

definition valid_document :: "remembered_document \<Rightarrow> bool" where
  "valid_document d \<longleftrightarrow> rd_schema d = rememberedSchema \<and> length (rd_sessions d) \<le> maxRememberedSessions"

definition ConfigureRememberedSessions :: "string \<Rightarrow> time \<Rightarrow> unit sg_op" where
  "ConfigureRememberedSessions path now =
     (if trim_space path = [] then op_fail SgNoPath
      else op_seq (op_modify (\<lambda>g. g\<lparr>sg_sessions_path := path\<rparr>)) (
      op_bind (op_get (\<lambda>g. g)) (\<lambda>g.
      if sg_credential g = None then op_return ()
      else op_seq (op_check SgIO) (case pf_content (sg_sessions_file g) of
        Absent \<Rightarrow> op_return ()
      | Unreadable \<Rightarrow> op_fail SgInvalid
      | Parsed d \<Rightarrow>
          if valid_document d
          then op_modify (set_sessions (fold (load_session now) (rd_sessions d) (sg_sessions g)))
          else op_fail SgInvalid))))"

section \<open>Credentials\<close>

definition validateCredentialRecord :: "credential \<Rightarrow> bool" where
  "validateCredentialRecord c \<longleftrightarrow>
     cr_schema c = 1 \<and> 3 \<le> length (cr_username c) \<and> 100000 \<le> cr_iterations c \<and> cr_salt c \<noteq> None \<and>
     (case cr_hash c of None \<Rightarrow> False | Some h \<Rightarrow> length h = 32)"

definition ConfigureCredentials :: "string \<Rightarrow> unit sg_op" where
  "ConfigureCredentials path =
     (if trim_space path = [] then op_fail SgNoPath
      else op_seq (op_modify (\<lambda>g. g\<lparr>sg_credential_path := path\<rparr>)) (
      op_seq (op_check SgIO) (
      op_bind (op_get (\<lambda>g. pf_content (sg_credential_file g))) (\<lambda>c. case c of
        Absent \<Rightarrow> op_modify (\<lambda>g. g\<lparr>sg_credential := None\<rparr>)
      | Unreadable \<Rightarrow> op_fail SgInvalid
      | Parsed r \<Rightarrow>
          if validateCredentialRecord r then op_modify (\<lambda>g. g\<lparr>sg_credential := Some r\<rparr>)
          else op_fail SgInvalid))))"

definition writeCredential :: "credential \<Rightarrow> unit sg_op" where
  "writeCredential c = op_bind (op_get sg_credential_path) (\<lambda>path.
     if trim_space path = [] then op_fail SgNoPath
     else on_credential_file (writePrivateFile SgIO c))"

definition decoded :: "string option \<Rightarrow> string" where
  "decoded s = (case s of None \<Rightarrow> [] | Some b \<Rightarrow> b)"

definition hash_password :: "(string \<Rightarrow> string \<Rightarrow> string) \<Rightarrow> string \<Rightarrow> string \<Rightarrow> credential \<Rightarrow> credential" where
  "hash_password mac password salt c =
     c\<lparr>cr_salt := Some salt, cr_iterations := passwordIterations,
       cr_hash := Some (pbkdf2SHA256 mac password salt passwordIterations 32)\<rparr>"

definition new_credential :: "(string \<Rightarrow> string \<Rightarrow> string) \<Rightarrow> string \<Rightarrow> string \<Rightarrow> string \<Rightarrow> credential" where
  "new_credential mac username password salt = hash_password mac password salt
     \<lparr>cr_schema = 1, cr_username = username, cr_salt = None, cr_iterations = passwordIterations, cr_hash = None\<rparr>"

text \<open>The password comparison of the login, the change and the rotation.\<close>

definition password_ok :: "(string \<Rightarrow> string \<Rightarrow> string) \<Rightarrow> string \<Rightarrow> credential \<Rightarrow> bool" where
  "password_ok mac password c = (let want = decoded (cr_hash c) in
     pbkdf2SHA256 mac password (decoded (cr_salt c)) (cr_iterations c) (length want) = want)"

definition username_ok :: "string \<Rightarrow> bool" where
  "username_ok u \<longleftrightarrow> 3 \<le> length u \<and> length u \<le> 64 \<and>
     \<not> list_ex (\<lambda>c. c \<in> {CHR 0x0D, CHR 0x0A, CHR 0x09}) u"

section \<open>Sessions\<close>

definition new_session :: "string \<Rightarrow> request option \<Rightarrow> bool \<Rightarrow> time \<Rightarrow> session" where
  "new_session h rq remember now =
     \<lparr>sn_id = hex_encode (take 8 h), sn_created = now,
      sn_expires = now + (if remember then rememberedSessionLifetime else sessionLifetime),
      sn_seen = now, sn_ip = requestIP rq, sn_agent = boundedUserAgent rq, sn_remembered = remember\<rparr>"

definition drop_expired :: "time \<Rightarrow> (string \<times> session) list \<Rightarrow> (string \<times> session) list" where
  "drop_expired now = filter (\<lambda>(_, s). \<not> time_after now (sn_expires s))"

definition newSession :: "(string \<Rightarrow> string) \<Rightarrow> request option \<Rightarrow> bool \<Rightarrow> string \<Rightarrow> time \<Rightarrow> string sg_op" where
  "newSession sha rq remember token now =
     op_seq (op_check SgRandom) (
     op_seq (op_modify (\<lambda>g. set_sessions (drop_expired now (sg_sessions g)) g)) (
     op_seq (op_modify (\<lambda>g. if remember then set_sessions (dropRememberedOverflow (sg_sessions g)) g else g)) (
     op_seq (op_modify (\<lambda>g. set_sessions
               (AList.update (sha token) (new_session (sha token) rq remember now) (sg_sessions g)) g)) (
     if \<not> remember then op_return token
     else op_bind (op_try (persistRemembered now)) (\<lambda>r. case r of
       Inr _ \<Rightarrow> op_return token
     | Inl _ \<Rightarrow> op_seq (op_modify (\<lambda>g. set_sessions (AList.delete (sha token) (sg_sessions g)) g))
                  (op_fail SgRemember))))))"

text \<open>The session cookie of a request; \<open>sessionHash\<close> is \<open>None\<close> for the zero hash of no cookie.\<close>

definition cookie_of :: "request option \<Rightarrow> string option" where
  "cookie_of r = Option.bind r ht_cookie"

definition sessionHash :: "(string \<Rightarrow> string) \<Rightarrow> request option \<Rightarrow> string option" where
  "sessionHash sha r = map_option sha (cookie_of r)"

record session_info =
  si_id :: string
  si_created :: stamp
  si_expires :: stamp
  si_seen :: stamp
  si_ip :: string
  si_agent :: string
  si_current :: bool

definition sessionInfo :: "session \<Rightarrow> bool \<Rightarrow> session_info" where
  "sessionInfo s current = \<lparr>si_id = sn_id s, si_created = rfc3339 (sn_created s), si_expires = rfc3339 (sn_expires s),
     si_seen = rfc3339 (sn_seen s), si_ip = sn_ip s, si_agent = sn_agent s, si_current = current\<rparr>"

text \<open>The listing is sorted by the text of the creation time, newest first.\<close>

definition Sessions :: "(string \<Rightarrow> string) \<Rightarrow> request option \<Rightarrow> time \<Rightarrow> session_info list sg_op" where
  "Sessions sha rq now =
     op_seq (op_modify (\<lambda>g. set_sessions (drop_expired now (sg_sessions g)) g)) (
     op_get (\<lambda>g. map (\<lambda>(h, s). sessionInfo s (Some h = sessionHash sha rq))
       (sort_key (\<lambda>(_, s). - (sn_created s - sn_created s mod second)) (sg_sessions g))))"

definition RevokeSession :: "string \<Rightarrow> time \<Rightarrow> bool sg_op" where
  "RevokeSession sid now = op_bind (op_get sg_sessions) (\<lambda>ss.
     case find (\<lambda>(_, s). sn_id s = sid) ss of
       None \<Rightarrow> op_return False
     | Some (h, s) \<Rightarrow>
         op_seq (op_modify (set_sessions (AList.delete h ss))) (
         if \<not> sn_remembered s then op_return True
         else op_bind (op_try (persistRemembered now)) (\<lambda>r. case r of
           Inr _ \<Rightarrow> op_return True
         | Inl _ \<Rightarrow> op_seq (op_modify (set_sessions ss)) (op_return False))))"

definition RevokeOtherSessions :: "(string \<Rightarrow> string) \<Rightarrow> request option \<Rightarrow> time \<Rightarrow> nat sg_op" where
  "RevokeOtherSessions sha rq now = op_bind (op_get sg_sessions) (\<lambda>ss.
     let others = filter (\<lambda>(h, _). Some h \<noteq> sessionHash sha rq) ss in
     op_seq (op_modify (set_sessions (filter (\<lambda>(h, _). Some h = sessionHash sha rq) ss))) (
     if \<not> list_ex (\<lambda>(_, s). sn_remembered s) others then op_return (length others)
     else op_bind (op_try (persistRemembered now)) (\<lambda>r. case r of
       Inr _ \<Rightarrow> op_return (length others)
     | Inl _ \<Rightarrow> op_seq (op_modify (set_sessions ss)) (op_fail SgRevoke))))"

definition Logout :: "(string \<Rightarrow> string) \<Rightarrow> request \<Rightarrow> time \<Rightarrow> unit sg_op" where
  "Logout sha rq now = (case ht_cookie rq of
     None \<Rightarrow> op_return ()
   | Some c \<Rightarrow> op_bind (op_get sg_sessions) (\<lambda>ss.
       op_seq (op_modify (set_sessions (AList.delete (sha c) ss))) (
       if (case map_of ss (sha c) of None \<Rightarrow> False | Some s \<Rightarrow> sn_remembered s)
       then op_bind (op_try (persistRemembered now)) (\<lambda>r. case r of
         Inr _ \<Rightarrow> op_return ()
       | Inl _ \<Rightarrow> op_seq (op_modify (set_sessions ss)) (op_fail SgRevoke))
       else op_return ())))"

section \<open>Login and account\<close>

text \<open>The zero attempt of a map lookup has the zero time in both fields.\<close>

definition no_attempt :: login_attempt where
  "no_attempt = \<lparr>la_failures = 0, la_first = zero_time, la_locked = zero_time\<rparr>"

definition attempt_of :: "(string \<times> login_attempt) list \<Rightarrow> string \<Rightarrow> login_attempt" where
  "attempt_of m k = (case map_of m k of None \<Rightarrow> no_attempt | Some a \<Rightarrow> a)"

definition stale_attempt :: "duration \<Rightarrow> time \<Rightarrow> login_attempt \<Rightarrow> bool" where
  "stale_attempt window now a \<longleftrightarrow> time_sub now (la_first a) > window \<and> \<not> time_before now (la_locked a)"

definition next_attempt :: "duration \<Rightarrow> duration \<Rightarrow> nat \<Rightarrow> time \<Rightarrow> login_attempt \<Rightarrow> login_attempt" where
  "next_attempt window lockout limit now a =
     (let b = (if la_first a = zero_time \<or> time_sub now (la_first a) > window
               then \<lparr>la_failures = 0, la_first = now, la_locked = zero_time\<rparr> else a);
          c = b\<lparr>la_failures := la_failures b + 1\<rparr> in
      if la_failures c \<ge> limit then c\<lparr>la_locked := now + lockout\<rparr> else c)"

definition recordLoginFailure :: "string \<Rightarrow> time \<Rightarrow> session_gate \<Rightarrow> session_gate" where
  "recordLoginFailure key now g =
     (let kept = filter (\<lambda>(_, a). \<not> stale_attempt (sg_window g) now a) (sg_attempts g) in
      g\<lparr>sg_attempts := AList.update key
         (next_attempt (sg_window g) (sg_lockout g) (sg_login_max g) now (attempt_of kept key)) kept\<rparr>)"

definition LoginRemembered :: "(string \<Rightarrow> string) \<Rightarrow> (string \<Rightarrow> string \<Rightarrow> string) \<Rightarrow> string \<Rightarrow> string \<Rightarrow> bool \<Rightarrow>
    request option \<Rightarrow> string \<Rightarrow> time \<Rightarrow> string sg_op" where
  "LoginRemembered sha mac username password remember rq token now = op_bind (op_get (\<lambda>g. g)) (\<lambda>g.
     if time_before now (la_locked (attempt_of (sg_attempts g) (requestIP rq))) then op_fail SgRateLimited
     else case sg_credential g of
       None \<Rightarrow> op_fail SgNotConfigured
     | Some c \<Rightarrow>
         if username \<noteq> cr_username c \<or> \<not> password_ok mac password c
         then op_seq (op_modify (recordLoginFailure (requestIP rq) now)) (op_fail SgBadLogin)
         else op_seq (op_modify (\<lambda>g. g\<lparr>sg_attempts := AList.delete (requestIP rq) (sg_attempts g)\<rparr>))
                (newSession sha rq remember token now))"

definition Login :: "(string \<Rightarrow> string) \<Rightarrow> (string \<Rightarrow> string \<Rightarrow> string) \<Rightarrow> string \<Rightarrow> string \<Rightarrow>
    request option \<Rightarrow> string \<Rightarrow> time \<Rightarrow> string sg_op" where
  "Login sha mac username password = LoginRemembered sha mac username password False"

definition Setup :: "(string \<Rightarrow> string) \<Rightarrow> (string \<Rightarrow> string \<Rightarrow> string) \<Rightarrow> string \<Rightarrow> string \<Rightarrow> request option \<Rightarrow>
    string \<Rightarrow> string \<Rightarrow> time \<Rightarrow> string sg_op" where
  "Setup sha mac username password rq salt token now = (let u = trim_space username in
     if \<not> username_ok u \<or> \<not> validateNewPassword password then op_fail SgInvalid
     else op_seq (op_check SgRandom) (
     op_bind (op_get sg_credential) (\<lambda>old.
     if old \<noteq> None then op_fail SgConfigured
     else op_seq (revokeAll now) (
          op_seq (writeCredential (new_credential mac u password salt)) (
          op_seq (op_modify (\<lambda>g. g\<lparr>sg_credential := Some (new_credential mac u password salt)\<rparr>))
            (newSession sha rq False token now))))))"

text \<open>What a change and a recovery do once the new record is built.\<close>

definition replace_credential :: "(string \<Rightarrow> string) \<Rightarrow> credential \<Rightarrow> request option \<Rightarrow> string \<Rightarrow> time \<Rightarrow> string sg_op" where
  "replace_credential sha c rq token now =
     op_seq (writeCredential c) (
     op_seq (op_modify (\<lambda>g. g\<lparr>sg_credential := Some c\<rparr>)) (
     op_seq (revokeAll now) (newSession sha rq False token now)))"

definition ChangePassword :: "(string \<Rightarrow> string) \<Rightarrow> (string \<Rightarrow> string \<Rightarrow> string) \<Rightarrow> string \<Rightarrow> string \<Rightarrow> request option \<Rightarrow>
    string \<Rightarrow> string \<Rightarrow> time \<Rightarrow> string sg_op" where
  "ChangePassword sha mac current replacement rq salt token now =
     (if \<not> validateNewPassword replacement then op_fail SgInvalid
      else op_bind (op_get sg_credential) (\<lambda>old. case old of
        None \<Rightarrow> op_fail SgNotConfigured
      | Some c \<Rightarrow>
          if \<not> password_ok mac current c then op_fail SgBadPassword
          else op_seq (op_check SgRandom)
                 (replace_credential sha (hash_password mac replacement salt c) rq token now)))"

definition RecoveryAuthenticated :: "(string \<Rightarrow> string) \<Rightarrow> request option \<Rightarrow> session_gate \<Rightarrow> bool" where
  "RecoveryAuthenticated sha rq g = (case rq of
     None \<Rightarrow> False
   | Some r \<Rightarrow> has_prefix (ht_authorization r) ''Bearer '' \<and>
       sha (trim_space (drop 7 (ht_authorization r))) = sg_token_hash g)"

definition RecoverPassword :: "(string \<Rightarrow> string) \<Rightarrow> (string \<Rightarrow> string \<Rightarrow> string) \<Rightarrow> string \<Rightarrow> string \<Rightarrow> request option \<Rightarrow>
    string \<Rightarrow> string \<Rightarrow> time \<Rightarrow> string sg_op" where
  "RecoverPassword sha mac username replacement rq salt token now = op_bind (op_get (\<lambda>g. g)) (\<lambda>g.
     let u = trim_space username in
     if \<not> RecoveryAuthenticated sha rq g then op_fail SgBadRecovery
     else if \<not> username_ok u \<or> \<not> validateNewPassword replacement then op_fail SgInvalid
     else op_seq (op_check SgRandom) (
     if sg_credential g = None then op_fail SgNotConfigured
     else replace_credential sha (new_credential mac u replacement salt) rq token now))"

text \<open>The recovery key file is replaced by a rename that no directory sync follows.\<close>

definition writeTokenAtomic :: "string \<Rightarrow> string \<Rightarrow> unit sg_op" where
  "writeTokenAtomic path token =
     (if trim_space path = [] then op_fail SgNoPath
      else op_seq (op_check SgIO) (
      op_bind (op_get (\<lambda>g. pf_content (sg_token_file g))) (\<lambda>c.
      if c = Unreadable then op_fail SgIO
      else op_seq (op_check SgIO) (on_token_file (
        op_seq (op_check SgIO) (op_modify (pf_put (Parsed (token @ [CHR 0x0A])))))))))"

definition RotateRecoveryToken :: "(string \<Rightarrow> string) \<Rightarrow> (string \<Rightarrow> string \<Rightarrow> string) \<Rightarrow> string \<Rightarrow> string \<Rightarrow> string sg_op" where
  "RotateRecoveryToken sha mac current token = op_bind (op_get (\<lambda>g. g)) (\<lambda>g.
     case sg_credential g of
       None \<Rightarrow> op_fail SgNotConfigured
     | Some c \<Rightarrow>
         if trim_space (sg_token_path g) = [] then op_fail SgNoPath
         else if \<not> password_ok mac current c then op_fail SgBadPassword
         else op_seq (op_check SgRandom) (
              op_seq (writeTokenAtomic (sg_token_path g) token) (
              op_seq (op_modify (\<lambda>g. g\<lparr>sg_token_hash := sha token\<rparr>)) (op_return token))))"

section \<open>The guard of the control API\<close>

definition cookie_session :: "(string \<Rightarrow> string) \<Rightarrow> request option \<Rightarrow> time \<Rightarrow> session_gate \<Rightarrow> bool \<times> session_gate" where
  "cookie_session sha rq now g = (case cookie_of rq of
     None \<Rightarrow> (False, g)
   | Some c \<Rightarrow>
       if c = [] \<or> sg_credential g = None then (False, g)
       else case map_of (sg_sessions g) (sha c) of
         None \<Rightarrow> (False, g)
       | Some s \<Rightarrow>
           if time_after now (sn_expires s) then (False, set_sessions (AList.delete (sha c) (sg_sessions g)) g)
           else (True, set_sessions (AList.update (sha c) (s\<lparr>sn_seen := now\<rparr>) (sg_sessions g)) g))"

definition Authenticated :: "(string \<Rightarrow> string) \<Rightarrow> request option \<Rightarrow> time \<Rightarrow> session_gate \<Rightarrow> bool \<times> session_gate" where
  "Authenticated sha rq now g =
     (if RecoveryAuthenticated sha rq g then (True, g) else cookie_session sha rq now g)"

definition SetupRequired :: "session_gate \<Rightarrow> bool" where
  "SetupRequired g \<longleftrightarrow> sg_credential g = None"

datatype verdict_http = Served | Forbidden | UnsupportedMedia | Unauthorized

definition Middleware :: "(string \<Rightarrow> string) \<Rightarrow> request \<Rightarrow> time \<Rightarrow> session_gate \<Rightarrow> verdict_http \<times> session_gate" where
  "Middleware sha r now g =
     (if \<not> has_prefix (ht_path r) ''/api/'' then (Served, g)
      else if isMutation r \<and> \<not> sameOrigin r then (Forbidden, g)
      else if isMutation r \<and> \<not> isJSON r then (UnsupportedMedia, g)
      else if publicAPI (ht_path r) (ht_method r) then (Served, g)
      else if \<not> isMutation r \<and> SetupRequired g then (Served, g)
      else case Authenticated sha (Some r) now g of
        (True, g') \<Rightarrow> (Served, g')
      | (False, g') \<Rightarrow> (Unauthorized, g'))"

section \<open>Start\<close>

definition NewGate :: "(string \<Rightarrow> string) \<Rightarrow> string \<Rightarrow> string \<Rightarrow> unit sg_op" where
  "NewGate sha path text = (let token = trim_space text in
     if length token < minimumTokenLength then op_fail SgShortToken
     else op_modify (\<lambda>g. g\<lparr>sg_token_hash := sha token, sg_token_path := path, sg_sessions := [], sg_attempts := [],
       sg_window := defaultLoginWindow, sg_lockout := defaultLoginLockout, sg_login_max := defaultLoginMax\<rparr>))"

text \<open>
  The key file is created empty and then written; a failed write removes it if
  it can.  Another process creating the file in between is not modelled.
\<close>

definition LoadOrCreateToken :: "(string \<Rightarrow> string) \<Rightarrow> string \<Rightarrow> string \<Rightarrow> bool sg_op" where
  "LoadOrCreateToken sha path random =
     (if trim_space path = [] then op_fail SgNoPath
      else op_seq (op_check SgIO) (
      op_bind (op_get (\<lambda>g. pf_content (sg_token_file g))) (\<lambda>c. case c of
        Parsed text \<Rightarrow> op_seq (op_check SgIO) (op_seq (op_check SgIO) (
          op_seq (NewGate sha path text) (op_return False)))
      | Unreadable \<Rightarrow> op_fail SgIO
      | Absent \<Rightarrow>
          op_seq (op_check SgIO) (
          op_seq (op_check SgRandom) (
          op_seq (op_check SgIO) (
          op_seq (on_token_file (op_modify (pf_put (Parsed [])))) (
          op_bind (op_try (op_check SgIO)) (\<lambda>r. case r of
            Inl e \<Rightarrow> op_seq (op_try (on_token_file (op_effect SgIO (pf_put Absent)))) (op_fail e)
          | Inr _ \<Rightarrow>
              op_seq (on_token_file (op_modify (\<lambda>f. f\<lparr>pf_content := Parsed (random @ [CHR 0x0A])\<rparr>))) (
              op_seq (NewGate sha path random) (op_return True))))))))))"

text \<open>A stopped panel has no memory; \<open>boot\<close> is the part of \<open>main\<close> that builds the gate.\<close>

definition stopped :: "session_gate \<Rightarrow> session_gate" where
  "stopped g = g\<lparr>sg_token_hash := [], sg_credential_path := [], sg_sessions_path := [],
     sg_credential := None, sg_sessions := [], sg_attempts := [], sg_up := False\<rparr>"

definition boot :: "(string \<Rightarrow> string) \<Rightarrow> string \<Rightarrow> string \<Rightarrow> string \<Rightarrow> string \<Rightarrow> time \<Rightarrow> unit sg_op" where
  "boot sha token_path credential_path sessions_path random now =
     op_seq (op_modify stopped) (
     op_seq (LoadOrCreateToken sha token_path random) (
     op_seq (ConfigureCredentials credential_path) (
     op_seq (op_try (ConfigureRememberedSessions sessions_path now)) (
     op_modify (\<lambda>g. g\<lparr>sg_up := True\<rparr>)))))"

section \<open>Histories\<close>

text \<open>
  What can happen to the panel.  The strings are the request's text, then the
  salt and the token drawn by the operation.  \<open>EvBoot\<close> starts the panel with
  its three paths, which name the same three files each time, \<open>EvPowerLoss\<close> stops it and lets each file fall back to
  any of its versions, \<open>EvRemoveAccount\<close> is an operator deleting the
  credential file.
\<close>

datatype sg_event =
    EvSetup string string "request option" string string
  | EvLogin string string bool "request option" string
  | EvChange string string "request option" string string
  | EvRecover string string "request option" string string
  | EvRotate string string
  | EvSessions "request option"
  | EvRevoke string
  | EvRevokeOthers "request option"
  | EvLogout request
  | EvRequest request
  | EvBoot string string string string
  | EvPowerLoss nat nat nat
  | EvRemoveAccount

definition guarded :: "'a sg_op \<Rightarrow> unit sg_op" where
  "guarded m = op_bind (op_get sg_up) (\<lambda>up. if up then op_seq m (op_return ()) else op_fail SgDown)"

fun perform :: "(string \<Rightarrow> string) \<Rightarrow> (string \<Rightarrow> string \<Rightarrow> string) \<Rightarrow> time \<Rightarrow> sg_event \<Rightarrow> unit sg_op" where
  "perform sha mac now (EvSetup u p rq salt token) = guarded (Setup sha mac u p rq salt token now)"
| "perform sha mac now (EvLogin u p remember rq token) = guarded (LoginRemembered sha mac u p remember rq token now)"
| "perform sha mac now (EvChange cur new rq salt token) = guarded (ChangePassword sha mac cur new rq salt token now)"
| "perform sha mac now (EvRecover u p rq salt token) = guarded (RecoverPassword sha mac u p rq salt token now)"
| "perform sha mac now (EvRotate cur token) = guarded (RotateRecoveryToken sha mac cur token)"
| "perform sha mac now (EvSessions rq) = guarded (Sessions sha rq now)"
| "perform sha mac now (EvRevoke sid) =
     guarded (op_bind (RevokeSession sid now) (\<lambda>ok. if ok then op_return () else op_fail SgRevoke))"
| "perform sha mac now (EvRevokeOthers rq) = guarded (RevokeOtherSessions sha rq now)"
| "perform sha mac now (EvLogout rq) = guarded (Logout sha rq now)"
| "perform sha mac now (EvRequest rq) = guarded (op_modify (\<lambda>g. snd (Middleware sha rq now g)))"
| "perform sha mac now (EvBoot tp cp sp random) = boot sha tp cp sp random now"
| "perform sha mac now (EvPowerLoss i j k) = op_modify (\<lambda>g. stopped (g\<lparr>
     sg_token_file := power_loss i (sg_token_file g), sg_credential_file := power_loss j (sg_credential_file g),
     sg_sessions_file := power_loss k (sg_sessions_file g)\<rparr>))"
| "perform sha mac now EvRemoveAccount = op_modify (\<lambda>g. g\<lparr>sg_credential_file := pf_put Absent (sg_credential_file g)\<rparr>)"

text \<open>A step carries its time and whether it succeeded.\<close>

inductive sg_step :: "(string \<Rightarrow> string) \<Rightarrow> (string \<Rightarrow> string \<Rightarrow> string) \<Rightarrow> session_gate \<Rightarrow>
    time \<times> sg_event \<times> (sg_error + unit) \<Rightarrow> session_gate \<Rightarrow> bool" for sha mac where
  sg_stepped: "perform sha mac now ev (t, g) = (r, t', g') \<Longrightarrow> sg_step sha mac g (now, ev, r) g'"

inductive_cases sg_stepE: "sg_step sha mac g (now, ev, r) g'"

text \<open>The session token an event draws, and whether the session is to be remembered.\<close>

fun drawn :: "sg_event \<Rightarrow> (string \<times> bool) option" where
  "drawn (EvSetup u p rq salt token) = Some (token, False)"
| "drawn (EvLogin u p remember rq token) = Some (token, remember)"
| "drawn (EvChange cur new rq salt token) = Some (token, False)"
| "drawn (EvRecover u p rq salt token) = Some (token, False)"
| "drawn _ = None"

definition fresh_gate :: session_gate where
  "fresh_gate = \<lparr>sg_token_hash = [], sg_token_path = [], sg_credential_path = [], sg_sessions_path = [],
     sg_credential = None, sg_sessions = [], sg_attempts = [], sg_window = 0, sg_lockout = 0, sg_login_max = 0,
     sg_up = False, sg_token_file = new_file Absent, sg_credential_file = new_file Absent,
     sg_sessions_file = new_file Absent\<rparr>"

end
