(* ===== verification/Session_Invariant.thy ===== *)
theory Session_Invariant
  imports Session_Gate
begin

text \<open>
  One proof that every event of the session gate keeps an invariant given by a
  condition on the sessions in memory and a condition on every version of the
  file of remembered sessions, as the locale \<open>session_contract\<close>; its
  interpretations are the invariants the properties rest on.
\<close>

section \<open>Hexadecimal round trip\<close>

lemma hex_value_char: "n < 16 \<Longrightarrow> hex_value (hex_char n) = Some n"
proof -
  assume "n < 16"
  moreover have "list_all (\<lambda>k. hex_value (hex_char k) = Some k) [0..<16]"
    by (simp add: upt_rec hex_value_def hex_char_def char_class_defs)
  ultimately show ?thesis by (simp add: list_all_iff)
qed

lemma hex_decode_encode: "hex_decode (hex_encode s) = Some s"
proof (induction s)
  case (Cons a s)
  have lt: "of_char a < (256::nat)" by simp
  have "hex_value (hex_char (of_char a div 16)) = Some (of_char a div 16)"
    by (rule hex_value_char) (use lt in linarith)
  moreover have "hex_value (hex_char (of_char a mod 16)) = Some (of_char a mod 16)"
    by (rule hex_value_char) simp
  moreover have "char_of (16 * (of_char a div 16) + of_char a mod 16 :: nat) = a"
    by (simp only: mult_div_mod_eq char_of_char)
  ultimately show ?case using Cons.IH by simp
qed simp

lemma hex_encode_inj: "hex_encode a = hex_encode b \<Longrightarrow> a = b"
  by (metis hex_decode_encode option.inject)

section \<open>The files\<close>

text \<open>What a rewrite of the sessions file may leave; nothing else changes.\<close>

lemma persist_wp:
  "wp (persistRemembered now)
     (\<lambda>_ g'. \<exists>f. g' = g\<lparr>sg_sessions_file := f\<rparr> \<and>
        (if sg_sessions_path g = [] then f = sg_sessions_file g
         else versions f = {Parsed (remembered_document_of now (sg_sessions g))}))
     (\<lambda>_ g'. \<exists>f. g' = g\<lparr>sg_sessions_file := f\<rparr> \<and>
        versions f \<subseteq> insert (Parsed (remembered_document_of now (sg_sessions g))) (versions (sg_sessions_file g))) g"
  unfolding persistRemembered_def on_sessions_file_def
  by (intro wp_bind wp_get wp_if wp_return wp_zoom wp_mono [OF ps.store_law]) auto

lemma remove_wp:
  "wp (on_sessions_file (removePrivateFile SgIO))
     (\<lambda>_ g'. \<exists>f. g' = g\<lparr>sg_sessions_file := f\<rparr> \<and> versions f = {Absent})
     (\<lambda>_ g'. \<exists>f. g' = g\<lparr>sg_sessions_file := f\<rparr> \<and> versions f \<subseteq> insert Absent (versions (sg_sessions_file g))) g"
  unfolding on_sessions_file_def by (intro wp_zoom wp_mono [OF ps.remove_law]) auto

text \<open>The other files and the account, which the sessions do not depend on.\<close>

definition same_sessions :: "session_gate \<Rightarrow> session_gate \<Rightarrow> bool" where
  "same_sessions g g' \<longleftrightarrow> sg_sessions g' = sg_sessions g \<and> sg_sessions_file g' = sg_sessions_file g \<and>
     sg_sessions_path g' = sg_sessions_path g"

interpretation ss: kept_relation same_sessions
  by unfold_locales (simp_all add: same_sessions_def)

lemma keeps_credential_file: "keeps same_sessions (on_credential_file m)"
  unfolding keeps_def on_credential_file_def by (auto intro!: wp_zoom wpI simp: same_sessions_def)

lemma keeps_token_file: "keeps same_sessions (on_token_file m)"
  unfolding keeps_def on_token_file_def by (auto intro!: wp_zoom wpI simp: same_sessions_def)

lemma keeps_writeCredential: "keeps same_sessions (writeCredential c)"
  unfolding writeCredential_def by (intro ss.rules keeps_credential_file)

lemma keeps_set_credential: "keeps same_sessions (op_modify (\<lambda>g. g\<lparr>sg_credential := c\<rparr>))"
  by (rule ss.modify) (simp add: same_sessions_def)

lemma keeps_Rotate: "keeps same_sessions (RotateRecoveryToken sha mac current token)"
  unfolding RotateRecoveryToken_def writeTokenAtomic_def
  by (intro ss.rules keeps_option keeps_token_file ss.modify) (simp_all add: same_sessions_def)

lemma keeps_Configure: "keeps same_sessions (ConfigureCredentials path)"
  unfolding ConfigureCredentials_def
  by (intro ss.rules keeps_content ss.modify) (simp_all add: same_sessions_def)

section \<open>The contract of the sessions\<close>

definition content_ok :: "('a \<Rightarrow> bool) \<Rightarrow> 'a content \<Rightarrow> bool" where
  "content_ok doc c = (case c of Parsed d \<Rightarrow> doc d | _ \<Rightarrow> True)"

definition sessions_ok :: "((string \<times> session) list \<Rightarrow> bool) \<Rightarrow> (remembered_document \<Rightarrow> bool) \<Rightarrow> session_gate \<Rightarrow> bool" where
  "sessions_ok mem doc g \<longleftrightarrow> mem (sg_sessions g) \<and> (\<forall>c \<in> versions (sg_sessions_file g). content_ok doc c)"

definition draws_ok :: "(string \<Rightarrow> bool \<Rightarrow> time \<Rightarrow> bool) \<Rightarrow> (string \<Rightarrow> string) \<Rightarrow> time \<Rightarrow> sg_event \<Rightarrow> bool" where
  "draws_ok admits sha now ev = (case drawn ev of None \<Rightarrow> True | Some (token, remember) \<Rightarrow> admits (sha token) remember now)"

lemma content_ok_simps [simp]:
  "content_ok doc Absent" "content_ok doc Unreadable" "content_ok doc (Parsed d) = doc d"
  by (simp_all add: content_ok_def)

lemma set_sessions_simps [simp]:
  "sg_sessions (set_sessions ss g) = ss" "sg_sessions_file (set_sessions ss g) = sg_sessions_file g"
  "sg_sessions_path (set_sessions ss g) = sg_sessions_path g" "sg_credential (set_sessions ss g) = sg_credential g"
  "sg_attempts (set_sessions ss g) = sg_attempts g" "set_sessions ss (set_sessions ss' g) = set_sessions ss g"
  "sg_up (set_sessions ss g) = sg_up g" "sg_token_hash (set_sessions ss g) = sg_token_hash g"
  by (simp_all add: set_sessions_def)

locale session_contract =
  fixes mem :: "(string \<times> session) list \<Rightarrow> bool"
    and doc :: "remembered_document \<Rightarrow> bool"
    and admits :: "string \<Rightarrow> bool \<Rightarrow> time \<Rightarrow> bool"
  assumes mem_nil: "mem []"
    and mem_filter: "mem ss \<Longrightarrow> mem (filter q ss)"
    and mem_seen: "mem ss \<Longrightarrow> map_of ss h = Some s \<Longrightarrow> mem (AList.update h (s\<lparr>sn_seen := now\<rparr>) ss)"
    and mem_add: "mem ss \<Longrightarrow> admits h r now \<Longrightarrow>
          mem (AList.update h (new_session h rq r now) (if r then dropRememberedOverflow ss else ss))"
    and doc_of: "mem ss \<Longrightarrow> doc (remembered_document_of now ss)"
    and doc_load: "doc d \<Longrightarrow> valid_document d \<Longrightarrow> mem (fold (load_session now) (rd_sessions d) [])"
begin

lemma mem_delete: "mem ss \<Longrightarrow> mem (AList.delete h ss)"
  unfolding AList.delete_eq by (rule mem_filter)

lemma mem_overflow: "mem ss \<Longrightarrow> mem (dropRememberedOverflow ss)"
proof -
  have "mem ss \<Longrightarrow> mem (drop_oldest xs ss)" for xs ss
    by (induction xs ss rule: drop_oldest.induct) (simp_all add: mem_delete)
  then show "mem ss \<Longrightarrow> mem (dropRememberedOverflow ss)" by (simp add: dropRememberedOverflow_def)
qed

lemma mem_expired: "mem ss \<Longrightarrow> mem (drop_expired now ss)"
  unfolding drop_expired_def by (rule mem_filter)

lemma ok_set: "sessions_ok mem doc g \<Longrightarrow> mem ss \<Longrightarrow> sessions_ok mem doc (set_sessions ss g)"
  by (simp add: sessions_ok_def)

lemma ok_mem: "sessions_ok mem doc g \<Longrightarrow> mem (sg_sessions g)"
  by (simp add: sessions_ok_def)

lemma ok_same: "same_sessions g g' \<Longrightarrow> sessions_ok mem doc g \<Longrightarrow> sessions_ok mem doc g'"
  by (simp add: sessions_ok_def same_sessions_def)

lemma ok_file: "sessions_ok mem doc g \<Longrightarrow> (\<forall>c \<in> versions f. content_ok doc c) \<Longrightarrow> sessions_ok mem doc (g\<lparr>sg_sessions_file := f\<rparr>)"
  by (simp add: sessions_ok_def)

lemma ok_kept: "keeps same_sessions m \<Longrightarrow> sessions_ok mem doc g \<Longrightarrow>
    wp m (\<lambda>_. sessions_ok mem doc) (\<lambda>_. sessions_ok mem doc) g"
  by (auto simp: keeps_def intro: wp_mono ok_same)

lemma persist:
  assumes "sessions_ok mem doc g"
  shows "wp (persistRemembered now) (\<lambda>_. sessions_ok mem doc) (\<lambda>_. sessions_ok mem doc) g"
proof (rule wp_mono [OF persist_wp])
  have d: "doc (remembered_document_of now (sg_sessions g))" using ok_mem [OF assms] by (rule doc_of)
  fix g' x
  assume "\<exists>f. g' = g\<lparr>sg_sessions_file := f\<rparr> \<and>
        (if sg_sessions_path g = [] then f = sg_sessions_file g
         else versions f = {Parsed (remembered_document_of now (sg_sessions g))})"
  with assms d show "sessions_ok mem doc g'" by (auto intro!: ok_file simp: sessions_ok_def split: if_splits)
next
  have d: "doc (remembered_document_of now (sg_sessions g))" using ok_mem [OF assms] by (rule doc_of)
  fix g' e
  assume "\<exists>f. g' = g\<lparr>sg_sessions_file := f\<rparr> \<and>
        versions f \<subseteq> insert (Parsed (remembered_document_of now (sg_sessions g))) (versions (sg_sessions_file g))"
  with assms d show "sessions_ok mem doc g'" by (auto intro!: ok_file simp: sessions_ok_def)
qed

text \<open>A rewrite whose failure is repaired in memory.\<close>

lemma persist_or:
  assumes "sessions_ok mem doc g"
    and "\<And>g'. sessions_ok mem doc g' \<Longrightarrow> wp (ok ()) (\<lambda>_. sessions_ok mem doc) (\<lambda>_. sessions_ok mem doc) g'"
    and "\<And>g' e. sessions_ok mem doc g' \<Longrightarrow> wp (bad e) (\<lambda>_. sessions_ok mem doc) (\<lambda>_. sessions_ok mem doc) g'"
  shows "wp (op_bind (op_try (persistRemembered now)) (\<lambda>r. case r of Inr x \<Rightarrow> ok x | Inl e \<Rightarrow> bad e))
    (\<lambda>_. sessions_ok mem doc) (\<lambda>_. sessions_ok mem doc) g"
  by (rule wp_bind, rule wp_try, rule wp_mono [OF persist [OF assms(1)]]) (use assms(2,3) in simp_all)

lemma revokeAll: "sessions_ok mem doc g \<Longrightarrow> wp (revokeAll now) (\<lambda>_. sessions_ok mem doc) (\<lambda>_. sessions_ok mem doc) g"
  unfolding revokeAll_def
  by (intro wp_seq wp_modify persist_or wp_return wp_remap wp_mono [OF remove_wp] ok_set mem_nil)
    (auto intro!: ok_file simp: sessions_ok_def)

lemma newSession:
  assumes "sessions_ok mem doc g" "admits (sha token) remember now"
  shows "wp (newSession sha rq remember token now) (\<lambda>_. sessions_ok mem doc) (\<lambda>_. sessions_ok mem doc) g"
proof -
  have m: "mem (AList.update (sha token) (new_session (sha token) rq remember now)
      (if remember then dropRememberedOverflow (drop_expired now (sg_sessions g)) else drop_expired now (sg_sessions g)))"
    using assms by (intro mem_add mem_expired ok_mem)
  show ?thesis
    unfolding newSession_def
    by (intro wp_seq wp_check wp_modify wp_if wp_return persist_or wp_fail ok_set)
      (use m assms in \<open>auto intro!: ok_set mem_delete mem_expired mem_overflow dest: ok_mem\<close>)
qed

lemma replace_credential:
  assumes "sessions_ok mem doc g" "admits (sha token) False now"
  shows "wp (replace_credential sha c rq token now) (\<lambda>_. sessions_ok mem doc) (\<lambda>_. sessions_ok mem doc) g"
  unfolding replace_credential_def
  by (rule wp_then [OF ok_kept [OF keeps_writeCredential assms(1)]],
      rule wp_then [OF ok_kept [OF keeps_set_credential]], assumption,
      rule wp_then [OF revokeAll], assumption, rule newSession) (use assms in auto)

lemma Sessions: "sessions_ok mem doc g \<Longrightarrow> wp (Sessions sha rq now) (\<lambda>_. sessions_ok mem doc) (\<lambda>_. sessions_ok mem doc) g"
  unfolding Sessions_def by (intro wp_seq wp_modify wp_get ok_set mem_expired ok_mem)

lemma RevokeSession: "sessions_ok mem doc g \<Longrightarrow> wp (RevokeSession sid now) (\<lambda>_. sessions_ok mem doc) (\<lambda>_. sessions_ok mem doc) g"
  unfolding RevokeSession_def
  by (intro wp_bind wp_get wp_option wp_return, assumption, simp only: split_paired_all prod.case,
      intro wp_seq wp_modify wp_if wp_return persist_or)
    (auto intro!: ok_set mem_delete wp_return wp_seq wp_modify dest: ok_mem)

lemma RevokeOtherSessions:
  "sessions_ok mem doc g \<Longrightarrow> wp (RevokeOtherSessions sha rq now) (\<lambda>_. sessions_ok mem doc) (\<lambda>_. sessions_ok mem doc) g"
  unfolding RevokeOtherSessions_def Let_def
  by (intro wp_bind wp_get wp_seq wp_modify wp_if wp_return persist_or wp_fail ok_set mem_filter ok_mem)

lemma Logout: "sessions_ok mem doc g \<Longrightarrow> wp (Logout sha rq now) (\<lambda>_. sessions_ok mem doc) (\<lambda>_. sessions_ok mem doc) g"
  unfolding Logout_def
  by (intro wp_option wp_return wp_bind wp_get wp_seq wp_modify wp_if persist_or wp_fail ok_set mem_delete ok_mem)

lemma attempts: "sessions_ok mem doc g \<Longrightarrow> sessions_ok mem doc (g\<lparr>sg_attempts := a\<rparr>)"
  by (simp add: sessions_ok_def)

lemma LoginRemembered:
  assumes "sessions_ok mem doc g" "admits (sha token) remember now"
  shows "wp (LoginRemembered sha mac u p remember rq token now) (\<lambda>_. sessions_ok mem doc) (\<lambda>_. sessions_ok mem doc) g"
  unfolding LoginRemembered_def
  by (intro wp_bind wp_get wp_if wp_fail wp_option wp_seq wp_modify newSession attempts)
    (use assms in \<open>auto simp: recordLoginFailure_def Let_def intro: attempts\<close>)

lemma Setup:
  assumes "sessions_ok mem doc g" "admits (sha token) False now"
  shows "wp (Setup sha mac u p rq salt token now) (\<lambda>_. sessions_ok mem doc) (\<lambda>_. sessions_ok mem doc) g"
proof -
  have "wp (op_seq (revokeAll now) (op_seq (writeCredential c) (op_seq (op_modify (\<lambda>g. g\<lparr>sg_credential := Some c\<rparr>))
      (newSession sha rq False token now)))) (\<lambda>_. sessions_ok mem doc) (\<lambda>_. sessions_ok mem doc) g" for c
    by (rule wp_then [OF revokeAll [OF assms(1)]], rule wp_then [OF ok_kept [OF keeps_writeCredential]], assumption,
        rule wp_then [OF ok_kept [OF keeps_set_credential]], assumption, rule newSession) (use assms in auto)
  then show ?thesis
    unfolding Setup_def Let_def by (intro wp_if wp_fail wp_seq [of "op_check _"] wp_check wp_bind wp_get) (use assms in auto)
qed

lemma ChangePassword:
  assumes "sessions_ok mem doc g" "admits (sha token) False now"
  shows "wp (ChangePassword sha mac cur new rq salt token now) (\<lambda>_. sessions_ok mem doc) (\<lambda>_. sessions_ok mem doc) g"
  unfolding ChangePassword_def
  by (intro wp_if wp_fail wp_bind wp_get wp_option wp_seq wp_check replace_credential assms)

lemma RecoverPassword:
  assumes "sessions_ok mem doc g" "admits (sha token) False now"
  shows "wp (RecoverPassword sha mac u p rq salt token now) (\<lambda>_. sessions_ok mem doc) (\<lambda>_. sessions_ok mem doc) g"
  unfolding RecoverPassword_def Let_def
  by (intro wp_if wp_fail wp_bind wp_get wp_option wp_seq wp_check replace_credential assms)

lemma Middleware: "sessions_ok mem doc g \<Longrightarrow> sessions_ok mem doc (snd (Middleware sha rq now g))"
  by (auto simp: Middleware_def Authenticated_def cookie_session_def ok_mem split: option.split prod.splits
    intro!: ok_set mem_delete mem_seen)

lemma stopped: "sessions_ok mem doc g \<Longrightarrow> sessions_ok mem doc (stopped g) \<and> sg_sessions (stopped g) = []"
  by (simp add: sessions_ok_def stopped_def mem_nil)

lemma LoadOrCreateToken:
  assumes "sessions_ok mem doc g" "sg_sessions g = []"
  shows "wp (LoadOrCreateToken sha path random) (\<lambda>_ g. sessions_ok mem doc g \<and> sg_sessions g = [])
     (\<lambda>_ g. sessions_ok mem doc g \<and> sg_sessions g = []) g"
  unfolding LoadOrCreateToken_def NewGate_def Let_def on_token_file_def
  by (intro wp_if wp_fail wp_seq wp_check wp_bind wp_get wp_content wp_modify wp_return wp_zoom wp_try wp_effect wp_sum)
    (use assms in \<open>simp_all add: sessions_ok_def mem_nil\<close>)

lemma ConfigureRememberedSessions:
  assumes "sessions_ok mem doc g" "sg_sessions g = []"
  shows "wp (ConfigureRememberedSessions path now) (\<lambda>_. sessions_ok mem doc) (\<lambda>_. sessions_ok mem doc) g"
  unfolding ConfigureRememberedSessions_def
  by (intro wp_if wp_fail wp_seq wp_modify wp_bind wp_get wp_return wp_check wp_content ok_set)
    (use assms in \<open>auto simp: sessions_ok_def versions_def intro!: doc_load\<close>)

lemma boot:
  assumes "sessions_ok mem doc g"
  shows "wp (boot sha tp cp sp random now) (\<lambda>_. sessions_ok mem doc) (\<lambda>_. sessions_ok mem doc) g"
proof -
  let ?I = "\<lambda>g. sessions_ok mem doc g \<and> sg_sessions g = []"
  have c: "wp (ConfigureCredentials cp) (\<lambda>_. ?I) (\<lambda>_. ?I) g" if "?I g" for g
    using keeps_Configure [of cp] that
    by (auto simp: keeps_def same_sessions_def sessions_ok_def elim!: allE [of _ g] wp_mono)
  show ?thesis
    unfolding boot_def
    by (rule wp_seq, rule wp_modify, rule wp_then [of _ "\<lambda>_. ?I" "\<lambda>_. ?I"], rule LoadOrCreateToken,
        (use stopped [OF assms] in simp), (use stopped [OF assms] in simp),
        rule wp_then [of _ "\<lambda>_. ?I" "\<lambda>_. ?I"], erule c)
      (auto intro!: wp_seq wp_try wp_modify wp_mono [OF ConfigureRememberedSessions] simp: sessions_ok_def)
qed

lemma guarded: "wp m (\<lambda>_. sessions_ok mem doc) (\<lambda>_. sessions_ok mem doc) g \<Longrightarrow> sessions_ok mem doc g \<Longrightarrow>
    wp (guarded m) (\<lambda>_. sessions_ok mem doc) (\<lambda>_. sessions_ok mem doc) g"
  unfolding guarded_def by (intro wp_bind wp_get wp_if wp_seq wp_fail) (auto intro: wp_mono wp_return)

lemma perform:
  assumes "sessions_ok mem doc g" "draws_ok admits sha now ev"
  shows "wp (perform sha mac now ev) (\<lambda>_. sessions_ok mem doc) (\<lambda>_. sessions_ok mem doc) g"
proof (cases ev)
  case (EvRevoke sid)
  have "wp (op_bind (RevokeSession sid now) (\<lambda>ok. if ok then op_return () else op_fail SgRevoke))
      (\<lambda>_. sessions_ok mem doc) (\<lambda>_. sessions_ok mem doc) g"
    by (rule wp_call [OF RevokeSession [OF assms(1)]]) (auto intro: wp_intros)
  with EvRevoke assms show ?thesis by (simp add: guarded)
next
  case (EvRotate cur token)
  with assms show ?thesis by (simp add: guarded ok_kept [OF keeps_Rotate])
next
  case (EvPowerLoss i j k)
  have "sessions_ok mem doc (g\<lparr>sg_token_file := power_loss i (sg_token_file g),
      sg_credential_file := power_loss j (sg_credential_file g), sg_sessions_file := power_loss k (sg_sessions_file g)\<rparr>)"
    using assms(1) ps.lose_law [of k "sg_sessions_file g"] by (auto simp: sessions_ok_def)
  with EvPowerLoss show ?thesis by (auto intro!: wp_modify dest: stopped)
next
  case EvRemoveAccount
  with assms show ?thesis by (auto intro!: wp_modify simp: sessions_ok_def)
qed (use assms in \<open>auto simp: draws_ok_def intro!: guarded wp_modify Setup LoginRemembered ChangePassword RecoverPassword
      Sessions RevokeOtherSessions Logout Middleware boot\<close>)

lemma step: "sg_step sha mac g (now, ev, r) g' \<Longrightarrow> draws_ok admits sha now ev \<Longrightarrow> sessions_ok mem doc g \<Longrightarrow> sessions_ok mem doc g'"
proof (erule sg_stepE)
  fix t t'
  assume ev: "draws_ok admits sha now ev" "sessions_ok mem doc g" and p: "perform sha mac now ev (t, g) = (r, t', g')"
  from wpD [OF perform [OF ev(2,1)] p] show "sessions_ok mem doc g'" by (simp split: sum.splits)
qed

lemma runs: "runs (sg_step sha mac) g es g' \<Longrightarrow> (\<forall>(now, ev, r) \<in> set es. draws_ok admits sha now ev) \<Longrightarrow>
    sessions_ok mem doc g \<Longrightarrow> sessions_ok mem doc g'"
  by (induction rule: runs.induct) (auto intro: step)

lemma fresh: "sessions_ok mem doc fresh_gate"
  by (simp add: sessions_ok_def fresh_gate_def mem_nil)

end

end
