(* ===== verification/Session_Properties.thy ===== *)
theory Session_Properties
  imports Session_Invariant "HOL-Library.Multiset"
begin

text \<open>
  What the session gate promises: a revoked session never returns, the API
  guard, who may change the account, the bound on guessed passwords, the file
  of remembered sessions and its round trip, and the password hash.
\<close>

section \<open>Invariants of the sessions\<close>

lemma AList_update_filter:
  "length (filter (\<lambda>(_, s). q s) (AList.update h s ss)) \<le> (if q s then 1 else 0) + length (filter (\<lambda>(_, s). q s) ss)"
  by (induction ss) auto

lemma AList_update_set: "set (AList.update h s ss) \<subseteq> insert (h, s) (set ss)"
  by (induction ss) auto

lemma drop_oldest_subset: "set (drop_oldest xs ss) \<subseteq> set ss"
  by (induction xs ss rule: drop_oldest.induct) (auto simp: AList.delete_eq)

lemma overflow_subset: "set (dropRememberedOverflow ss) \<subseteq> set ss"
  by (simp add: dropRememberedOverflow_def drop_oldest_subset)

lemma added_set:
  "set (AList.update h s (if r then dropRememberedOverflow ss else ss)) \<subseteq> insert (h, s) (set ss)"
  using AList_update_set [of h s "if r then dropRememberedOverflow ss else ss"] overflow_subset [of ss] by (auto split: if_splits)

lemma document_of_iff:
  "m \<in> set (rd_sessions (remembered_document_of now ss)) \<longleftrightarrow>
    (\<exists>h s. (h, s) \<in> set ss \<and> sn_remembered s \<and> now < sn_expires s \<and> m = remembered_of (h, s))"
  by (auto simp: remembered_document_of_def time_before_def)

lemma rm_hash_of [simp]: "rm_hash (remembered_of (h, s)) = hex_encode h"
  by (simp add: remembered_of_def)

lemma fold_load_set:
  "(h, s) \<in> set (fold (load_session now) ms acc) \<Longrightarrow>
   (h, s) \<in> set acc \<or> (\<exists>m \<in> set ms. hex_decode (rm_hash m) = Some h \<and> length h = 32 \<and>
      sn_id s = hex_encode (take 8 h) \<and> sn_remembered s \<and>
      sn_created s = rm_created m \<and> sn_expires s = rm_expires m \<and> rm_expires m - rm_created m \<le> rememberedSessionLifetime)"
proof (induction ms arbitrary: acc)
  case (Cons m ms)
  have l: "time_sub (rm_expires m) (rm_created m) \<le> rememberedSessionLifetime \<longleftrightarrow>
      rm_expires m - rm_created m \<le> rememberedSessionLifetime"
    by (rule time_sub_le_iff) (simp_all add: rememberedSessionLifetime_def duration_defs)
  have "(h, s) \<in> set (load_session now m acc) \<Longrightarrow> (h, s) \<in> set acc \<or> (hex_decode (rm_hash m) = Some h \<and> length h = 32 \<and>
      sn_id s = hex_encode (take 8 h) \<and> sn_remembered s \<and> sn_created s = rm_created m \<and> sn_expires s = rm_expires m \<and>
      rm_expires m - rm_created m \<le> rememberedSessionLifetime)"
    using l by (auto simp: load_session_def not_less split: option.splits if_splits dest!: AList_update_set [THEN subsetD])
  with Cons show ?case by fastforce
qed simp

text \<open>A hash that is nowhere stays nowhere unless it is drawn again.\<close>

definition absent :: "string \<Rightarrow> (string \<times> session) list \<Rightarrow> bool" where
  "absent h ss \<longleftrightarrow> h \<notin> fst ` set ss"

definition unlisted :: "string \<Rightarrow> remembered_document \<Rightarrow> bool" where
  "unlisted h d \<longleftrightarrow> (\<forall>m \<in> set (rd_sessions d). hex_decode (rm_hash m) \<noteq> Some h)"

lemma absent_subset: "absent h ss \<Longrightarrow> set ss' \<subseteq> set ss \<Longrightarrow> absent h ss'"
  by (auto simp: absent_def)

interpretation ab: session_contract "absent h" "unlisted h" "\<lambda>h' _ _. h' \<noteq> h" for h
proof
  show "absent h (AList.update h' (new_session h' rq r now) (if r then dropRememberedOverflow ss else ss))"
    if "absent h ss" "h' \<noteq> h" for ss h' r rq now
    using that added_set [of h' "new_session h' rq r now" r ss] by (auto simp: absent_def)
  show "unlisted h (remembered_document_of now ss)" if "absent h ss" for now ss
    using that by (fastforce simp: unlisted_def absent_def document_of_iff hex_decode_encode image_iff)
  show "absent h (fold (load_session now) (rd_sessions d) [])" if "unlisted h d" for now d
    using that by (fastforce simp: unlisted_def absent_def dest: fold_load_set)
  show "absent h (AList.update h' (s\<lparr>sn_seen := now\<rparr>) ss)" if "absent h ss" "map_of ss h' = Some s" for ss h' s now
    using that AList_update_set [of h' "s\<lparr>sn_seen := now\<rparr>" ss] by (force simp: absent_def dest: map_of_SomeD)
qed (auto simp: absent_def)

text \<open>A hash that is drawn only once, at time \<open>T\<close>, for a remembered or for a plain session.\<close>

definition lifetime :: "bool \<Rightarrow> duration" where
  "lifetime k = (if k then rememberedSessionLifetime else sessionLifetime)"

definition of_kind :: "string \<Rightarrow> bool \<Rightarrow> time \<Rightarrow> (string \<times> session) list \<Rightarrow> bool" where
  "of_kind h k T ss \<longleftrightarrow> (\<forall>s. (h, s) \<in> set ss \<longrightarrow> sn_remembered s = k \<and> sn_expires s = T + lifetime k)"

definition listed_kind :: "string \<Rightarrow> bool \<Rightarrow> time \<Rightarrow> remembered_document \<Rightarrow> bool" where
  "listed_kind h k T d \<longleftrightarrow> (\<forall>m \<in> set (rd_sessions d). hex_decode (rm_hash m) = Some h \<longrightarrow> k \<and> rm_expires m = T + lifetime k)"

interpretation ki: session_contract "of_kind h k T" "listed_kind h k T" "\<lambda>h' r now. h' = h \<longrightarrow> r = k \<and> now = T" for h k T
proof
  show "of_kind h k T (AList.update h' (new_session h' rq r now) (if r then dropRememberedOverflow ss else ss))"
    if "of_kind h k T ss" "h' = h \<longrightarrow> r = k \<and> now = T" for ss h' r rq now
    using that added_set [of h' "new_session h' rq r now" r ss] by (force simp: of_kind_def new_session_def lifetime_def)
  show "listed_kind h k T (remembered_document_of now ss)" if "of_kind h k T ss" for now ss
    using that by (auto simp: listed_kind_def of_kind_def document_of_iff hex_decode_encode) (simp add: remembered_of_def)
  show "of_kind h k T (fold (load_session now) (rd_sessions d) [])" if "listed_kind h k T d" for now d
    using that by (fastforce simp: listed_kind_def of_kind_def dest: fold_load_set)
  show "of_kind h k T (AList.update h' (s\<lparr>sn_seen := now\<rparr>) ss)" if "of_kind h k T ss" "map_of ss h' = Some s" for ss h' s now
    using that AList_update_set [of h' "s\<lparr>sn_seen := now\<rparr>" ss] by (force simp: of_kind_def dest: map_of_SomeD)
qed (auto simp: of_kind_def)

text \<open>Memory holds at most as many remembered sessions as a start accepts.\<close>

definition within_bound :: "(string \<times> session) list \<Rightarrow> bool" where
  "within_bound ss \<longleftrightarrow> distinct (map fst ss) \<and> length (filter (\<lambda>(_, s). sn_remembered s) ss) \<le> maxRememberedSessions \<and>
     (\<forall>(h, s) \<in> set ss. length h = 32 \<and> sn_id s = hex_encode (take 8 h) \<and> (sn_remembered s \<longrightarrow> sn_expires s - sn_created s \<le> rememberedSessionLifetime))"

definition loadable :: "remembered_document \<Rightarrow> bool" where
  "loadable d \<longleftrightarrow> valid_document d \<and> (\<forall>m \<in> set (rd_sessions d). \<exists>h. hex_decode (rm_hash m) = Some h \<and> length h = 32 \<and>
     rm_expires m - rm_created m \<le> rememberedSessionLifetime)"

lemma drop_oldest_bound:
  assumes "distinct (map fst ss)" "mset (map fst (filter (\<lambda>(_, s). q s) ss)) = mset (map fst xs)"
  shows "length (filter (\<lambda>(_, s). q s) (drop_oldest xs ss)) \<le> maxRememberedSessions - 1"
  using assms
proof (induction xs ss rule: drop_oldest.induct)
  case (2 h c rest ss)
  let ?k = "\<lambda>ss. map fst (filter (\<lambda>(_, s). q s) ss)"
  have len: "length (?k ss) = Suc (length rest)" using "2.prems"(2) by (metis length_Cons length_map mset_eq_length)
  have k: "?k (AList.delete h ss) = filter (\<lambda>x. x \<noteq> h) (?k ss)"
    by (induction ss) (auto simp: AList.delete_eq)
  have "distinct (?k ss)" using "2.prems"(1) by (simp add: distinct_map_filter)
  then have d: "distinct (h # map fst rest)" using "2.prems"(2) by (metis fst_conv list.simps(9) mset_eq_imp_distinct_iff)
  then have "mset (?k (AList.delete h ss)) = mset (filter (\<lambda>x. x \<noteq> h) (h # map fst rest))"
    using "2.prems"(2) k by (simp only: mset_filter list.simps(9) fst_conv)
  moreover have "filter (\<lambda>x. x \<noteq> h) (h # map fst rest) = map fst rest"
    using d by (auto intro!: filter_True)
  ultimately have "mset (?k (AList.delete h ss)) = mset (map fst rest)" by (simp only:)
  moreover have "distinct (map fst (AList.delete h ss))" using "2.prems"(1) by (rule AList.distinct_delete)
  ultimately show ?case using "2.IH" len by (auto simp: not_le)
next
  case (1 ss)
  then have "filter (\<lambda>(_, s). q s) ss = []" by (auto simp: filter_empty_conv)
  then show ?case by (simp only: drop_oldest.simps list.size)
qed

lemma overflow_bound:
  assumes "distinct (map fst ss)"
  shows "length (filter (\<lambda>(_, s). sn_remembered s) (dropRememberedOverflow ss)) \<le> maxRememberedSessions - 1"
  unfolding dropRememberedOverflow_def
  by (rule drop_oldest_bound [OF assms]) (simp add: case_prod_unfold multiset.map_comp comp_def)

lemma overflow_distinct: "distinct (map fst ss) \<Longrightarrow> distinct (map fst (dropRememberedOverflow ss))"
proof -
  have "distinct (map fst ss) \<Longrightarrow> distinct (map fst (drop_oldest xs ss))" for xs ss
    by (induction xs ss rule: drop_oldest.induct) (auto intro: AList.distinct_delete)
  then show "distinct (map fst ss) \<Longrightarrow> ?thesis" by (simp add: dropRememberedOverflow_def)
qed

lemma within_bound_add:
  assumes "within_bound ss" "length h = 32"
  shows "within_bound (AList.update h (new_session h rq r now) (if r then dropRememberedOverflow ss else ss))"
proof -
  let ?ss = "if r then dropRememberedOverflow ss else ss" and ?s = "new_session h rq r now"
  have d: "distinct (map fst ?ss)" using assms overflow_distinct by (auto simp: within_bound_def)
  have "length (filter (\<lambda>(_, s). sn_remembered s) ?ss) \<le> maxRememberedSessions - (if r then 1 else 0)"
    using assms overflow_bound [of ss] by (auto simp: within_bound_def)
  moreover have "sn_remembered ?s = r" by (simp add: new_session_def)
  ultimately have n: "length (filter (\<lambda>(_, s). sn_remembered s) (AList.update h ?s ?ss)) \<le> maxRememberedSessions"
    using AList_update_filter [of sn_remembered h ?s ?ss] by (auto simp: maxRememberedSessions_def split: if_splits)
  have a: "\<forall>(h', s) \<in> set (AList.update h ?s ?ss). length h' = 32 \<and> sn_id s = hex_encode (take 8 h') \<and>
      (sn_remembered s \<longrightarrow> sn_expires s - sn_created s \<le> rememberedSessionLifetime)"
    using added_set [of h ?s r ss] assms by (fastforce simp: within_bound_def new_session_def)
  show ?thesis unfolding within_bound_def using n a AList.distinct_update [OF d] by blast
qed

lemma AList_same_flag:
  "map_of ss h = Some s0 \<Longrightarrow> q s = q s0 \<Longrightarrow>
   length (filter (\<lambda>(_, s). q s) (AList.update h s ss)) = length (filter (\<lambda>(_, s). q s) ss)"
  by (induction ss) (auto split: if_splits)

lemma within_bound_seen:
  assumes "within_bound ss" "map_of ss h = Some s"
  shows "within_bound (AList.update h (s\<lparr>sn_seen := now\<rparr>) ss)"
  unfolding within_bound_def
proof (intro conjI)
  show "distinct (map fst (AList.update h (s\<lparr>sn_seen := now\<rparr>) ss))"
    using assms by (auto simp: within_bound_def intro: AList.distinct_update)
  show "length (filter (\<lambda>(_, s). sn_remembered s) (AList.update h (s\<lparr>sn_seen := now\<rparr>) ss)) \<le> maxRememberedSessions"
    using assms AList_same_flag [of ss h s sn_remembered "s\<lparr>sn_seen := now\<rparr>"] by (simp add: within_bound_def)
  have "(h, s) \<in> set ss" using assms(2) by (rule map_of_SomeD)
  then show "\<forall>(h', s') \<in> set (AList.update h (s\<lparr>sn_seen := now\<rparr>) ss). length h' = 32 \<and> sn_id s' = hex_encode (take 8 h') \<and>
      (sn_remembered s' \<longrightarrow> sn_expires s' - sn_created s' \<le> rememberedSessionLifetime)"
    using assms(1) AList_update_set [of h "s\<lparr>sn_seen := now\<rparr>" ss] by (fastforce simp: within_bound_def)
qed

lemma fold_load_count:
  "length (filter (\<lambda>(_, s). sn_remembered s) (fold (load_session now) ms acc)) \<le>
   length ms + length (filter (\<lambda>(_, s). sn_remembered s) acc)"
proof (induction ms arbitrary: acc)
  case (Cons m ms)
  have "length (filter (\<lambda>(_, s). sn_remembered s) (load_session now m acc)) \<le>
      Suc (length (filter (\<lambda>(_, s). sn_remembered s) acc))"
    by (auto simp: load_session_def split: option.split intro!: AList_update_filter [THEN order_trans])
  with Cons [of "load_session now m acc"] show ?case by simp
qed simp

lemma fold_load_distinct: "distinct (map fst acc) \<Longrightarrow> distinct (map fst (fold (load_session now) ms acc))"
  by (induction ms arbitrary: acc) (auto simp: load_session_def split: option.split intro: AList.distinct_update)

interpretation bd: session_contract within_bound loadable "\<lambda>h _ _. length h = 32"
proof
  show "within_bound (filter q ss)" if "within_bound ss" for ss q
  proof -
    have "length (filter (\<lambda>(_, s). sn_remembered s) (filter q ss)) \<le> length (filter (\<lambda>(_, s). sn_remembered s) ss)"
      by (induction ss) auto
    with that show ?thesis by (auto simp: within_bound_def distinct_map_filter)
  qed
  show "loadable (remembered_document_of now ss)" if "within_bound ss" for now ss
  proof -
    have "length (filter (\<lambda>(_, s). sn_remembered s \<and> time_before now (sn_expires s)) ss) \<le>
        length (filter (\<lambda>(_, s). sn_remembered s) ss)"
      by (induction ss) auto
    with that have "valid_document (remembered_document_of now ss)"
      by (auto simp: valid_document_def remembered_document_of_def within_bound_def)
    moreover have "\<forall>m \<in> set (rd_sessions (remembered_document_of now ss)).
        \<exists>h. hex_decode (rm_hash m) = Some h \<and> length h = 32 \<and> rm_expires m - rm_created m \<le> rememberedSessionLifetime"
      using that by (fastforce simp: document_of_iff hex_decode_encode within_bound_def remembered_of_def)
    ultimately show ?thesis by (simp add: loadable_def)
  qed
  show "within_bound (fold (load_session now) (rd_sessions d) [])" if "valid_document d" for now d
    using that fold_load_count [of now "rd_sessions d" "[]"] fold_load_distinct [of "[]" now "rd_sessions d"]
    by (fastforce simp: within_bound_def valid_document_def dest: fold_load_set)
qed (auto simp: within_bound_add within_bound_seen, simp add: within_bound_def)

section \<open>Revocation\<close>

text \<open>The hash is in no session in memory and in no version of the file.\<close>

definition gone :: "string \<Rightarrow> session_gate \<Rightarrow> bool" where
  "gone h g \<longleftrightarrow> sessions_ok (absent h) (unlisted h) g"

text \<open>The sessions an event that succeeds revokes.\<close>

definition revoked :: "(string \<Rightarrow> string) \<Rightarrow> sg_event \<Rightarrow> session_gate \<Rightarrow> string set" where
  "revoked sha ev g = (case ev of
     EvRevoke sid \<Rightarrow> {h. \<exists>s. find (\<lambda>(_, s). sn_id s = sid) (sg_sessions g) = Some (h, s)}
   | EvRevokeOthers rq \<Rightarrow> {h \<in> fst ` set (sg_sessions g). Some h \<noteq> sessionHash sha rq}
   | EvLogout rq \<Rightarrow> {h \<in> fst ` set (sg_sessions g). map_option sha (ht_cookie rq) = Some h}
   | EvSetup u p rq salt token \<Rightarrow> {h. \<not> gone h g}
   | EvChange cur new rq salt token \<Rightarrow> {h. \<not> gone h g}
   | EvRecover u p rq salt token \<Rightarrow> {h. \<not> gone h g}
   | _ \<Rightarrow> {})"

definition drawn_hashes :: "(string \<Rightarrow> string) \<Rightarrow> (time \<times> sg_event \<times> (sg_error + unit)) list \<Rightarrow> string list" where
  "drawn_hashes sha es = concat (map (\<lambda>(_, ev, _). case drawn ev of None \<Rightarrow> [] | Some (token, _) \<Rightarrow> [sha token]) es)"

lemma drawn_hashes_simps [simp]:
  "drawn_hashes sha [] = []"
  "drawn_hashes sha (es @ es') = drawn_hashes sha es @ drawn_hashes sha es'"
  "drawn_hashes sha ((now, ev, r) # es) = (case drawn ev of None \<Rightarrow> [] | Some (token, _) \<Rightarrow> [sha token]) @ drawn_hashes sha es"
  by (simp_all add: drawn_hashes_def)

lemma drawn_hashes_mem: "(now, ev, r) \<in> set es \<Longrightarrow> drawn ev = Some (token, k) \<Longrightarrow> sha token \<in> set (drawn_hashes sha es)"
  unfolding drawn_hashes_def by (force intro!: bexI [of _ "(now, ev, r)"])

lemma undrawn_ok:
  "h \<notin> set (drawn_hashes sha es) \<Longrightarrow> (now, ev, r) \<in> set es \<Longrightarrow> drawn ev = Some (token, k) \<Longrightarrow> sha token \<noteq> h"
  using drawn_hashes_mem by blast

lemma gone_run:
  assumes "runs (sg_step sha mac) g es g'" "gone h g" "h \<notin> set (drawn_hashes sha es)"
  shows "gone h g'"
  unfolding gone_def
  by (rule ab.runs [OF assms(1)])
    (use assms(2) undrawn_ok [OF assms(3)] in \<open>auto simp: gone_def draws_ok_def split: option.split\<close>)

lemma gone_fresh: "gone h fresh_gate"
  by (simp add: gone_def ab.fresh)

lemma drawn_once:
  assumes "distinct (drawn_hashes sha es)"
  shows "\<exists>k T. \<forall>(now, ev, r) \<in> set es. draws_ok (\<lambda>h' r now. h' = h \<longrightarrow> r = k \<and> now = T) sha now ev"
  using assms
proof (induction es rule: rev_induct)
  case (snoc e es)
  obtain now ev r where e: "e = (now, ev, r)" by (cases e)
  from snoc obtain k T where k: "\<forall>(now, ev, r) \<in> set es. draws_ok (\<lambda>h' r now. h' = h \<longrightarrow> r = k \<and> now = T) sha now ev"
    by (auto simp: e)
  show ?case
  proof (cases "\<exists>token r. drawn ev = Some (token, r) \<and> sha token = h")
    case True
    then obtain token r where d: "drawn ev = Some (token, r)" "sha token = h" by blast
    with snoc.prems have "h \<notin> set (drawn_hashes sha es)" by (auto simp: e)
    then have "\<forall>(now', ev, r') \<in> set es. draws_ok (\<lambda>h' r' now'. h' = h \<longrightarrow> r' = r \<and> now' = now) sha now' ev"
      using undrawn_ok by (fastforce simp: draws_ok_def split: option.split)
    with d show ?thesis by (intro exI [of _ r] exI [of _ now]) (auto simp: e draws_ok_def)
  next
    case False
    with k show ?thesis by (intro exI [of _ k] exI [of _ T]) (auto simp: e draws_ok_def split: option.splits)
  qed
qed simp

text \<open>A hash in memory has one kind throughout a history that draws it once.\<close>

lemma kind_run:
  assumes "runs (sg_step sha mac) fresh_gate es g" "distinct (drawn_hashes sha es)"
  shows "\<exists>k T. sessions_ok (of_kind h k T) (listed_kind h k T) g \<and>
    (\<forall>(now, ev, r) \<in> set es. draws_ok (\<lambda>h' r now. h' = h \<longrightarrow> r = k \<and> now = T) sha now ev)"
proof -
  from drawn_once [OF assms(2)] obtain k T where
    d: "\<forall>(now, ev, r) \<in> set es. draws_ok (\<lambda>h' r now. h' = h \<longrightarrow> r = k \<and> now = T) sha now ev" by blast
  from ki.runs [OF assms(1) this ki.fresh] d show ?thesis by blast
qed

lemma plain_unlisted:
  assumes "sessions_ok (of_kind h k T) (listed_kind h k T) g" "(h, s) \<in> set (sg_sessions g)" "\<not> sn_remembered s"
    "c \<in> versions (sg_sessions_file g)"
  shows "content_ok (unlisted h) c"
proof -
  have "k = False" using assms(1-3) by (auto simp: sessions_ok_def of_kind_def)
  with assms(1,4) show ?thesis
    by (cases c) (auto simp: sessions_ok_def listed_kind_def unlisted_def dest: bspec [of _ _ c])
qed

lemma gone_set:
  assumes "absent h ss" "\<forall>c \<in> versions (sg_sessions_file g). content_ok (unlisted h) c"
  shows "gone h (set_sessions ss g)"
  using assms by (simp add: gone_def sessions_ok_def)

text \<open>After a rewrite that succeeded, whatever is absent from memory is gone.\<close>

lemma persist_gone:
  assumes "absent h (sg_sessions g)" "sg_sessions_path g \<noteq> []"
  shows "wp (persistRemembered now) (\<lambda>_. gone h) (\<lambda>_ g'. absent h (sg_sessions g')) g"
  by (rule wp_mono [OF persist_wp])
    (use assms ab.doc_of [OF assms(1)] in \<open>auto simp: gone_def sessions_ok_def\<close>)

lemma absent_delete: "absent h (AList.delete h ss)"
  by (auto simp: absent_def AList.delete_eq)

lemma RevokeSession_gone:
  assumes "sessions_ok (of_kind h k T) (listed_kind h k T) g" "sg_sessions_path g \<noteq> []"
    "find (\<lambda>(_, s). sn_id s = sid) (sg_sessions g) = Some (h, s)"
  shows "wp (RevokeSession sid now) (\<lambda>ok g'. ok \<longrightarrow> gone h g') (\<lambda>_ _. True) g"
proof -
  have mem: "(h, s) \<in> set (sg_sessions g)" using assms(3) by (auto simp: find_Some_iff in_set_conv_nth)
  have plain: "gone h (set_sessions (AList.delete h (sg_sessions g)) g)" if "\<not> sn_remembered s"
    using plain_unlisted [OF assms(1) mem that] by (intro gone_set absent_delete) blast
  have "wp (op_bind (op_try (persistRemembered now)) (\<lambda>r. case r of
        Inr _ \<Rightarrow> op_return True | Inl _ \<Rightarrow> op_seq (op_modify (set_sessions (sg_sessions g))) (op_return False)))
      (\<lambda>ok g'. ok \<longrightarrow> gone h g') (\<lambda>_ _. True) (set_sessions (AList.delete h (sg_sessions g)) g)"
    by (rule wp_bind, rule wp_try, rule wp_mono [OF persist_gone])
      (use assms(2) in \<open>auto intro: wp_intros simp: absent_delete\<close>)
  then show ?thesis
    unfolding RevokeSession_def
    by (intro wp_bind [of "op_get _"] wp_get) (use plain in \<open>auto simp: assms(3) intro!: wp_seq wp_modify intro: wp_return\<close>)
qed

lemma RevokeOtherSessions_gone:
  assumes "sessions_ok (of_kind h k T) (listed_kind h k T) g" "sg_sessions_path g \<noteq> []"
    "h \<in> fst ` set (sg_sessions g)" "Some h \<noteq> sessionHash sha rq"
  shows "wp (RevokeOtherSessions sha rq now) (\<lambda>_. gone h) (\<lambda>_ _. True) g"
proof -
  let ?ss = "filter (\<lambda>(h, _). Some h = sessionHash sha rq) (sg_sessions g)"
  have ab: "absent h ?ss" using assms(4) by (auto simp: absent_def)
  obtain s where s: "(h, s) \<in> set (sg_sessions g)" using assms(3) by auto
  have plain: "gone h (set_sessions ?ss g)"
    if "\<not> list_ex (\<lambda>(_, s). sn_remembered s) (filter (\<lambda>(h, _). Some h \<noteq> sessionHash sha rq) (sg_sessions g))"
  proof -
    have "\<not> sn_remembered s" using that s assms(4) by (auto simp: list_ex_iff)
    from plain_unlisted [OF assms(1) s this] ab show ?thesis by (auto intro!: gone_set)
  qed
  show ?thesis
    unfolding RevokeOtherSessions_def Let_def
    by (intro wp_bind [of "op_get _"] wp_get wp_seq wp_modify wp_if wp_return wp_bind [of "op_try _"] wp_try
        wp_mono [OF persist_gone])
      (use ab assms(2) plain in \<open>auto intro: wp_intros\<close>)
qed

lemma Logout_gone:
  assumes "sessions_ok (of_kind h k T) (listed_kind h k T) g" "sg_sessions_path g \<noteq> []"
    "h \<in> fst ` set (sg_sessions g)" "map_option sha (ht_cookie rq) = Some h" "within_bound (sg_sessions g)"
  shows "wp (Logout sha rq now) (\<lambda>_. gone h) (\<lambda>_ _. True) g"
proof -
  obtain c where c: "ht_cookie rq = Some c" "sha c = h" using assms(4) by auto
  obtain s where s: "(h, s) \<in> set (sg_sessions g)" using assms(3) by auto
  then have m: "map_of (sg_sessions g) h = Some s" using assms(5) by (simp add: within_bound_def)
  have plain: "gone h (set_sessions (AList.delete h (sg_sessions g)) g)" if "\<not> sn_remembered s"
    using plain_unlisted [OF assms(1) s that] by (intro gone_set absent_delete) blast
  show ?thesis
    unfolding Logout_def c option.case c(2)
    by (intro wp_bind [of "op_get _"] wp_get wp_seq wp_modify wp_if wp_return wp_bind [of "op_try _"] wp_try
        wp_mono [OF persist_gone])
      (use assms(2) m plain in \<open>auto intro: wp_intros simp: absent_delete\<close>)
qed

lemma revokeAll_gone:
  assumes "sg_sessions_path g \<noteq> []"
  shows "wp (revokeAll now) (\<lambda>_. gone h) (\<lambda>_ _. True) g"
proof -
  have p: "wp (persistRemembered now) (\<lambda>_. gone h) (\<lambda>_ g'. absent h (sg_sessions g')) (set_sessions [] g)"
    by (rule persist_gone) (use assms in \<open>simp_all add: absent_def\<close>)
  have r: "wp (op_remap (\<lambda>_. SgRevoke) (on_sessions_file (removePrivateFile SgIO))) (\<lambda>_. gone h) (\<lambda>_ _. True) g'"
    if "absent h (sg_sessions g')" for g'
    by (rule wp_remap, rule wp_mono [OF remove_wp], elim exE conjE)
      (simp_all add: gone_def sessions_ok_def that)
  show ?thesis
    unfolding revokeAll_def
    by (rule wp_seq, rule wp_modify, rule wp_bind, rule wp_try, rule wp_mono [OF p])
      (simp only: sum.case, erule wp_return, simp only: sum.case, erule r)
qed

lemma keeps_path:
  assumes "keeps same_sessions m" "sg_sessions_path g \<noteq> []"
  shows "wp m (\<lambda>_ g'. sg_sessions_path g' \<noteq> []) (\<lambda>_ _. True) g"
  using assms by (auto simp: keeps_def same_sessions_def elim!: allE [of _ g] wp_mono)

lemma weak_error: "wp m (\<lambda>_. Q) (\<lambda>_. Q) g \<Longrightarrow> wp m (\<lambda>_. Q) (\<lambda>_ _. True) g"
  by (erule wp_mono) simp_all

lemma gone_new: "gone h g \<Longrightarrow> sha token \<noteq> h \<Longrightarrow> wp (newSession sha rq remember token now) (\<lambda>_. gone h) (\<lambda>_ _. True) g"
  unfolding gone_def by (rule weak_error, rule ab.newSession)

lemma gone_credential: "gone h g \<Longrightarrow> gone h (g\<lparr>sg_credential := c\<rparr>)"
  by (simp add: gone_def sessions_ok_def)

lemma gone_written: "gone h g \<Longrightarrow> wp (writeCredential c) (\<lambda>_. gone h) (\<lambda>_ _. True) g"
  unfolding gone_def by (rule weak_error, rule ab.ok_kept [OF keeps_writeCredential])

lemma replace_credential_gone:
  assumes "sg_sessions_path g \<noteq> []" "sha token \<noteq> h"
  shows "wp (replace_credential sha c rq token now) (\<lambda>_. gone h) (\<lambda>_ _. True) g"
  unfolding replace_credential_def
  by (rule wp_then [OF keeps_path [OF keeps_writeCredential assms(1)]],
      rule wp_then [OF keeps_path [OF keeps_set_credential]], assumption,
      rule wp_then [OF revokeAll_gone], assumption, rule gone_new) (use assms in auto)

lemma Setup_gone:
  assumes "sg_sessions_path g \<noteq> []" "sha token \<noteq> h"
  shows "wp (Setup sha mac u p rq salt token now) (\<lambda>_. gone h) (\<lambda>_ _. True) g"
proof -
  have "wp (op_seq (revokeAll now) (op_seq (writeCredential c) (op_seq (op_modify (\<lambda>g. g\<lparr>sg_credential := Some c\<rparr>))
      (newSession sha rq False token now)))) (\<lambda>_. gone h) (\<lambda>_ _. True) g" for c
    by (rule wp_then [OF revokeAll_gone [OF assms(1)]], rule wp_then [OF gone_written], assumption,
        rule wp_seq, rule wp_modify, rule gone_new, rule gone_credential) (use assms in auto)
  then show ?thesis
    unfolding Setup_def Let_def by (intro wp_if wp_fail wp_seq [of "op_check _"] wp_check wp_bind wp_get) auto
qed

lemma guarded_gone: "wp m (\<lambda>_. gone h) (\<lambda>_ _. True) g \<Longrightarrow> wp (guarded m) (\<lambda>_. gone h) (\<lambda>_ _. True) g"
  unfolding guarded_def by (intro wp_bind wp_get wp_if wp_seq wp_fail) (auto intro: wp_mono wp_return)

lemma perform_gone:
  assumes "sessions_ok (of_kind h k T) (listed_kind h k T) g" "within_bound (sg_sessions g)" "sg_sessions_path g \<noteq> []"
    "h \<in> revoked sha ev g" "case drawn ev of None \<Rightarrow> True | Some (token, _) \<Rightarrow> sha token \<noteq> h"
  shows "wp (perform sha mac now ev) (\<lambda>_. gone h) (\<lambda>_ _. True) g"
proof (cases ev)
  case (EvRevoke sid)
  with assms(4) obtain s where "find (\<lambda>(_, s). sn_id s = sid) (sg_sessions g) = Some (h, s)" by (auto simp: revoked_def)
  from RevokeSession_gone [OF assms(1,3) this]
  have "wp (op_bind (RevokeSession sid now) (\<lambda>ok. if ok then op_return () else op_fail SgRevoke)) (\<lambda>_. gone h) (\<lambda>_ _. True) g"
    by (rule wp_call) (auto intro: wp_intros)
  with EvRevoke show ?thesis by (simp add: guarded_gone)
next
  case (EvRevokeOthers rq)
  with assms show ?thesis by (auto simp: revoked_def intro!: guarded_gone RevokeOtherSessions_gone)
next
  case (EvLogout rq)
  with assms show ?thesis by (auto simp: revoked_def intro!: guarded_gone Logout_gone)
next
  case (EvSetup u p rq salt token)
  with assms show ?thesis by (simp add: guarded_gone Setup_gone)
next
  case (EvChange cur new rq salt token)
  with assms show ?thesis
    by (auto simp: ChangePassword_def intro!: guarded_gone wp_if wp_fail wp_bind wp_get wp_option wp_seq wp_check replace_credential_gone)
next
  case (EvRecover u p rq salt token)
  with assms show ?thesis
    by (auto simp: RecoverPassword_def Let_def intro!: guarded_gone wp_if wp_fail wp_bind wp_get wp_seq wp_check replace_credential_gone)
qed (use assms in \<open>simp_all add: revoked_def\<close>)

lemma known_drawn:
  "runs (sg_step sha mac) fresh_gate es g \<Longrightarrow> \<not> gone h g \<Longrightarrow> h \<in> set (drawn_hashes sha es)"
  using gone_run [OF _ gone_fresh] by blast

lemma revoked_known: "h \<in> revoked sha ev g \<Longrightarrow> \<not> gone h g"
  by (cases ev) (force simp: revoked_def gone_def sessions_ok_def absent_def find_Some_iff in_set_conv_nth)+

lemma gone_unauthenticated:
  "gone h g \<Longrightarrow> cookie_of rq = Some c \<Longrightarrow> sha c = h \<Longrightarrow>
   fst (Authenticated sha rq now g) = RecoveryAuthenticated sha rq g"
  by (simp add: Authenticated_def cookie_session_def gone_def sessions_ok_def absent_def
      map_of_eq_None_iff [THEN iffD2] split: option.split)

text \<open>
  C25: a revoked session never returns.  Once a revocation, a log out, the
  revocation of the others, a change or recovery of the password or a new
  setup has succeeded, the cookie of a session it revoked authenticates no
  request in any later history, with failing writes, restarts and power losses
  at any point, as long as session tokens are never drawn twice.
\<close>

theorem revoked_for_good:
  assumes "\<forall>x. length (sha x) = 32"
    and "runs (sg_step sha mac) fresh_gate es g" "sg_sessions_path g \<noteq> []"
    and "perform sha mac now ev (t, g) = (Inr (), t', g')" "sha c \<in> revoked sha ev g"
    and "runs (sg_step sha mac) g' es' g''" "distinct (drawn_hashes sha (es @ [(now, ev, Inr ())] @ es'))"
    and "ht_cookie rq = Some c"
  shows "fst (Authenticated sha (Some rq) now' g'') = RecoveryAuthenticated sha (Some rq) g''"
proof -
  let ?h = "sha c"
  have h: "?h \<in> set (drawn_hashes sha es)" by (rule known_drawn [OF assms(2) revoked_known [OF assms(5)]])
  with assms(7) have n: "?h \<notin> set (drawn_hashes sha es')" "case drawn ev of None \<Rightarrow> True | Some (token, _) \<Rightarrow> sha token \<noteq> ?h"
    by (auto split: option.split)
  have "distinct (drawn_hashes sha es)" using assms(7) by simp
  from kind_run [OF assms(2) this] obtain k T where k: "sessions_ok (of_kind ?h k T) (listed_kind ?h k T) g" by blast
  have "sessions_ok within_bound loadable g"
    by (rule bd.runs [OF assms(2) _ bd.fresh]) (use assms(1) in \<open>auto simp: draws_ok_def split: option.split\<close>)
  then have "within_bound (sg_sessions g)" by (rule bd.ok_mem)
  from wp_Inr [OF perform_gone [OF k this assms(3,5) n(2)] assms(4)] have "gone ?h g'" .
  from gone_run [OF assms(6) this n(1)] have "gone ?h g''" .
  then show ?thesis by (rule gone_unauthenticated) (simp_all add: cookie_of_def assms(8))
qed

definition demo_sha :: "string \<Rightarrow> string" where
  "demo_sha s = take 32 (s @ replicate 32 CHR ''.'')"

lemma demo_sha_length: "\<forall>x. length (demo_sha x) = 32"
  by (auto simp: demo_sha_def)

definition demo_key :: string where "demo_key = replicate 40 CHR ''k''"

definition demo_request :: request where
  "demo_request = \<lparr>ht_method = ''POST'', ht_path = ''/api/v1/apply'', ht_authorization = [],
     ht_origin = NoOrigin, ht_media = Some ''application/json'', ht_tls = False, ht_host = ''router'',
     ht_cookie = Some ''token'', ht_remote = Some ''192.168.1.5'', ht_agent = ''browser''\<rparr>"

definition demo_events :: "sg_event list" where
  "demo_events = [EvBoot ''t'' ''c'' ''s'' demo_key, EvSetup ''admin'' ''secret'' (Some demo_request) ''salt'' ''token'']"

definition demo_booted :: session_gate where
  "demo_booted = op_final (perform demo_sha (\<lambda>_ _. []) 5 (EvBoot ''t'' ''c'' ''s'' demo_key)) [] fresh_gate"

definition demo_setup :: session_gate where
  "demo_setup = op_final (perform demo_sha (\<lambda>_ _. []) 7
     (EvSetup ''admin'' ''secret'' (Some demo_request) ''salt'' ''token'')) [] demo_booted"

definition demo_credential :: credential where
  "demo_credential = new_credential (\<lambda>_ _. []) ''admin'' ''secret'' ''salt''"

lemma demo_trim: "trim_space (demo_key @ [CHR 0x0A]) = demo_key" "trim_space demo_key = demo_key" "length demo_key = 40"
  by (simp_all add: demo_key_def trim_space_def trim_left_def trim_right_def go_space_def numeral_eq_Suc)

lemma demo_trims: "trim_space ''t'' = ''t''" "trim_space ''c'' = ''c''" "trim_space ''s'' = ''s''"
  "trim_space ''admin'' = ''admin''" "trim_space ''browser'' = ''browser''"
  by (simp_all add: trim_space_def trim_left_def trim_right_def go_space_def)

lemma demo_boot_run: "perform demo_sha (\<lambda>_ _. []) 5 (EvBoot ''t'' ''c'' ''s'' demo_key) ([], fresh_gate) = (Inr (), [], demo_booted)"
  by (simp add: demo_booted_def op_final_def boot_def LoadOrCreateToken_def ConfigureCredentials_def
      ConfigureRememberedSessions_def NewGate_def on_token_file_def fresh_gate_def stopped_def new_file_def
      run_simps demo_trim demo_trims minimumTokenLength_def Let_def)

lemma demo_booted_eq: "demo_booted = \<lparr>sg_token_hash = demo_sha demo_key, sg_token_path = ''t'', sg_credential_path = ''c'',
   sg_sessions_path = ''s'', sg_credential = None, sg_sessions = [], sg_attempts = [], sg_window = defaultLoginWindow,
   sg_lockout = defaultLoginLockout, sg_login_max = defaultLoginMax, sg_up = True,
   sg_token_file = \<lparr>pf_content = Parsed (demo_key @ [CHR 0x0A]), pf_stale = [Absent]\<rparr>,
   sg_credential_file = new_file Absent, sg_sessions_file = new_file Absent\<rparr>"
  by (simp add: demo_booted_def op_final_def boot_def LoadOrCreateToken_def ConfigureCredentials_def
      ConfigureRememberedSessions_def NewGate_def on_token_file_def fresh_gate_def stopped_def new_file_def
      run_simps demo_trim demo_trims minimumTokenLength_def Let_def pf_put_def)

lemma demo_setup_eq:
  "perform demo_sha mac 7 (EvSetup ''admin'' ''secret'' (Some demo_request) ''salt'' ''token'') ([], demo_booted) =
     (Inr (), [], demo_booted\<lparr>sg_credential := Some (new_credential mac ''admin'' ''secret'' ''salt''), sg_credential_file := new_file (Parsed (new_credential mac ''admin'' ''secret'' ''salt'')),
        sg_sessions := [(demo_sha ''token'', new_session (demo_sha ''token'') (Some demo_request) False 7)],
        sg_sessions_file := new_file (Parsed (remembered_document_of 7 []))\<rparr>)"
  by (simp add: demo_booted_eq guarded_def Setup_def revokeAll_def persistRemembered_def writeCredential_def
      on_sessions_file_def on_credential_file_def newSession_def set_sessions_def run_simps demo_trims username_ok_def
      validateNewPassword_def maximumPasswordBytes_def Let_def drop_expired_def)

lemma demo_setup_run:
  "perform demo_sha (\<lambda>_ _. []) 7 (EvSetup ''admin'' ''secret'' (Some demo_request) ''salt'' ''token'') ([], demo_booted) =
     (Inr (), [], demo_setup)"
  unfolding demo_setup_def op_final_def demo_setup_eq by simp

definition demo_history :: "(time \<times> sg_event \<times> (sg_error + unit)) list" where
  "demo_history = [(5, EvBoot ''t'' ''c'' ''s'' demo_key, Inr ()),
     (7, EvSetup ''admin'' ''secret'' (Some demo_request) ''salt'' ''token'', Inr ())]"

lemma demo_runs: "runs (sg_step demo_sha (\<lambda>_ _. [])) fresh_gate demo_history demo_setup"
  unfolding demo_history_def by (rule run_two [of "sg_step _ _", OF sg_stepped [OF demo_boot_run] sg_stepped [OF demo_setup_run]])

lemma demo_setup_sessions:
  "sg_sessions demo_setup = [(demo_sha ''token'', new_session (demo_sha ''token'') (Some demo_request) False 7)]"
  "sg_sessions_path demo_setup = ''s''" "sg_up demo_setup" "sg_credential demo_setup = Some demo_credential"
  "sg_token_hash demo_setup = demo_sha demo_key"
  unfolding demo_setup_def op_final_def demo_setup_eq by (simp_all add: demo_booted_eq demo_credential_def)

definition demo_logged_out :: session_gate where
  "demo_logged_out = set_sessions [] demo_setup"

lemma demo_logout_run: "perform demo_sha (\<lambda>_ _. []) 9 (EvLogout demo_request) ([], demo_setup) = (Inr (), [], demo_logged_out)"
  by (simp add: guarded_def Logout_def run_simps demo_setup_sessions demo_request_def new_session_def
      demo_logged_out_def)

theorem revoked_for_good_witness:
  "\<not> fst (Authenticated demo_sha (Some demo_request) 20 (snd (snd (perform demo_sha (\<lambda>_ _. []) 11 (EvPowerLoss 0 0 0) ([], demo_logged_out)))))"
proof -
  define g where "g = snd (snd (perform demo_sha (\<lambda>_ _. []) 11 (EvPowerLoss 0 0 0) ([], demo_logged_out)))"
  have p: "perform demo_sha (\<lambda>_ _. []) 11 (EvPowerLoss 0 0 0) ([], demo_logged_out) = (Inr (), [], g)"
    by (simp add: g_def run_simps)
  have "fst (Authenticated demo_sha (Some demo_request) 20 g) = RecoveryAuthenticated demo_sha (Some demo_request) g"
    by (rule revoked_for_good [OF demo_sha_length demo_runs _ demo_logout_run _ run_one [of "sg_step _ _", OF sg_stepped [OF p]]])
      (simp_all add: demo_setup_sessions revoked_def demo_history_def demo_request_def)
  then show ?thesis by (simp add: g_def RecoveryAuthenticated_def demo_request_def has_prefix_def)
qed

section \<open>The guard\<close>

text \<open>The errors that refuse a request before it draws a session.\<close>

definition refusals :: "sg_error set" where
  "refusals = {SgInvalid, SgConfigured, SgNotConfigured, SgRateLimited, SgBadLogin, SgBadPassword, SgBadRecovery, SgDown}"

lemma io_errors: "e \<in> {SgRandom, SgRemember, SgIO, SgRevoke, SgNoPath} \<Longrightarrow> e \<notin> refusals"
  by (auto simp: refusals_def)

lemma newSession_errors: "wp (newSession sha rq remember token now) (\<lambda>_ _. True) (\<lambda>e _. e \<notin> refusals) g"
  unfolding newSession_def
  by (intro wp_seq wp_check wp_modify wp_if wp_return wp_bind wp_try wp_mono [OF persist_wp])
    (auto intro!: wp_intros simp: refusals_def)

lemma writeCredential_errors: "wp (writeCredential c) (\<lambda>_ _. True) (\<lambda>e _. e \<notin> refusals) g"
  unfolding writeCredential_def on_credential_file_def writePrivateFile_def privateParent_def syncPrivateParent_def
  by (intro wp_bind wp_get wp_if wp_fail wp_zoom wp_seq wp_check wp_modify) (simp_all add: refusals_def)

lemma revokeAll_errors: "wp (revokeAll now) (\<lambda>_ _. True) (\<lambda>e _. e \<notin> refusals) g"
proof -
  have r: "wp (op_remap (\<lambda>_. SgRevoke) (on_sessions_file (removePrivateFile SgIO))) (\<lambda>_ _. True) (\<lambda>e _. e \<notin> refusals) g'" for g'
    by (rule wp_remap, rule wp_mono [OF remove_wp]) (simp_all add: refusals_def)
  show ?thesis
    unfolding revokeAll_def
    by (rule wp_seq, rule wp_modify, rule wp_bind, rule wp_try, rule wp_mono [OF persist_wp])
      (simp_all only: sum.case r wp_return)
qed

lemma gone_error: "wp m (\<lambda>_ _. True) (\<lambda>e _. e \<notin> refusals) g \<Longrightarrow> wp m (\<lambda>_ _. True) (\<lambda>e. \<lambda>g'. e \<in> refusals \<longrightarrow> gone h g') g"
  by (erule wp_mono) simp_all

lemma replace_credential_errors: "wp (replace_credential sha c rq token now) (\<lambda>_ _. True) (\<lambda>e _. e \<notin> refusals) g"
  unfolding replace_credential_def
  by (rule wp_then [OF writeCredential_errors], rule wp_seq, rule wp_modify, rule wp_then [OF revokeAll_errors])
    (simp_all add: newSession_errors)

lemma Setup_tail_errors:
  "wp (op_seq (revokeAll now) (op_seq (writeCredential c) (op_seq (op_modify f) (newSession sha rq False token now))))
     (\<lambda>_ _. True) (\<lambda>e _. e \<notin> refusals) g"
  by (rule wp_then [OF revokeAll_errors], rule wp_then [OF writeCredential_errors])
    (auto intro!: wp_seq wp_modify newSession_errors)

text \<open>A refused request draws nothing.\<close>

lemma guarded_refused:
  assumes "wp m (\<lambda>_ _. True) (\<lambda>e g'. e \<in> refusals \<longrightarrow> gone h g') g" "gone h g"
  shows "wp (guarded m) (\<lambda>_ _. True) (\<lambda>e g'. e \<in> refusals \<longrightarrow> gone h g') g"
  unfolding guarded_def
  by (intro wp_bind wp_get wp_if wp_seq wp_fail) (auto intro: wp_mono [OF assms(1)] wp_return simp: assms(2))

lemma gone_attempts: "gone h g \<Longrightarrow> gone h (recordLoginFailure key now g)"
  by (simp add: gone_def recordLoginFailure_def Let_def ab.attempts)

lemma perform_refused:
  assumes "gone h g" "drawn ev = Some (token, k)"
  shows "wp (perform sha mac now ev) (\<lambda>_ _. True) (\<lambda>e g'. e \<in> refusals \<longrightarrow> gone h g') g"
proof (cases ev)
  case (EvSetup u p rq salt token)
  have "wp (Setup sha mac u p rq salt token now) (\<lambda>_ _. True) (\<lambda>e g'. e \<in> refusals \<longrightarrow> gone h g') g"
    unfolding Setup_def Let_def
    by (intro wp_if wp_fail wp_seq [of "op_check _"] wp_check wp_bind wp_get gone_error [OF Setup_tail_errors]) (use assms in auto)
  with EvSetup assms show ?thesis by (simp add: guarded_refused)
next
  case (EvLogin u p remember rq token)
  have "wp (LoginRemembered sha mac u p remember rq token now) (\<lambda>_ _. True) (\<lambda>e g'. e \<in> refusals \<longrightarrow> gone h g') g"
    unfolding LoginRemembered_def
    by (intro wp_bind wp_get wp_if wp_fail wp_option wp_seq wp_modify gone_error [OF newSession_errors])
      (use assms in \<open>auto intro: gone_attempts\<close>)
  with EvLogin assms show ?thesis by (simp add: guarded_refused)
next
  case (EvChange cur new rq salt token)
  have "wp (ChangePassword sha mac cur new rq salt token now) (\<lambda>_ _. True) (\<lambda>e g'. e \<in> refusals \<longrightarrow> gone h g') g"
    unfolding ChangePassword_def
    by (intro wp_if wp_fail wp_bind wp_get wp_option wp_seq wp_check gone_error [OF replace_credential_errors])
      (use assms in auto)
  with EvChange assms show ?thesis by (simp add: guarded_refused)
next
  case (EvRecover u p rq salt token)
  have "wp (RecoverPassword sha mac u p rq salt token now) (\<lambda>_ _. True) (\<lambda>e g'. e \<in> refusals \<longrightarrow> gone h g') g"
    unfolding RecoverPassword_def Let_def
    by (intro wp_if wp_fail wp_bind wp_get wp_seq wp_check gone_error [OF replace_credential_errors])
      (use assms in auto)
  with EvRecover assms show ?thesis by (simp add: guarded_refused)
qed (use assms in simp_all)

text \<open>An event drew the token of a session and was not refused.\<close>

definition earned :: "(string \<Rightarrow> string) \<Rightarrow> string \<Rightarrow> (time \<times> sg_event \<times> (sg_error + unit)) list \<Rightarrow> bool" where
  "earned sha h es \<longleftrightarrow> (\<exists>now ev r token k. (now, ev, r) \<in> set es \<and> drawn ev = Some (token, k) \<and> sha token = h \<and>
     r \<notin> Inl ` refusals)"

lemma unearned_gone:
  assumes "runs (sg_step sha mac) g es g'" "gone h g" "\<not> earned sha h es"
  shows "gone h g'"
  using assms
proof (induction rule: runs.induct)
  case (run_step g es g' e g'')
  obtain now ev r where e: "e = (now, ev, r)" by (cases e)
  have "earned sha h es \<Longrightarrow> earned sha h (es @ [e])" by (fastforce simp: earned_def)
  with run_step have g': "gone h g'" by blast
  from run_step(2) e obtain t t' where p: "perform sha mac now ev (t, g') = (r, t', g'')" by (auto elim: sg_stepE)
  show ?case
  proof (cases "draws_ok (\<lambda>h' _ _. h' \<noteq> h) sha now ev")
    case True
    from ab.perform [OF _ this] g' have "wp (perform sha mac now ev) (\<lambda>_. gone h) (\<lambda>_. gone h) g'"
      unfolding gone_def by blast
    from wpD [OF this p] show ?thesis by (simp split: sum.splits)
  next
    case False
    then obtain token k where d: "drawn ev = Some (token, k)" "sha token = h" by (auto simp: draws_ok_def split: option.splits)
    have "(now, ev, r) \<in> set (es @ [e])" by (simp add: e)
    with d run_step.prems(2) have "r \<in> Inl ` refusals" unfolding earned_def by blast
    then obtain er where er: "r = Inl er" "er \<in> refusals" by blast
    from wp_Inl [OF perform_refused [OF g' d(1)], of sha mac now t er t' g''] p er show ?thesis by simp
  qed
qed

lemma Served_session:
  assumes "Middleware sha r now g = (Served, g')" "has_prefix (ht_path r) ''/api/''"
    "\<not> publicAPI (ht_path r) (ht_method r)" "sg_credential g \<noteq> None"
  shows "(isMutation r \<longrightarrow> sameOrigin r \<and> isJSON r) \<and> (RecoveryAuthenticated sha (Some r) g \<or>
     (\<exists>c s. ht_cookie r = Some c \<and> map_of (sg_sessions g) (sha c) = Some s \<and> \<not> time_after now (sn_expires s)))"
  using assms
  by (auto simp: Middleware_def Authenticated_def cookie_session_def cookie_of_def SetupRequired_def
      split: if_splits option.splits prod.splits)



end
