(* ===== verification/Session_Account.thy ===== *)
theory Session_Account
  imports Session_Properties
begin

text \<open>
  The account behind the session gate: who may change its credential, how many
  passwords an address can try, the round trip of the remembered sessions, and
  the password hash as RFC 8018 defines it.
\<close>

section \<open>The credential\<close>

definition same_credential :: "session_gate \<Rightarrow> session_gate \<Rightarrow> bool" where
  "same_credential g g' \<longleftrightarrow> sg_credential g' = sg_credential g"

interpretation sc: kept_relation same_credential
  by unfold_locales (simp_all add: same_credential_def)

lemma sc_modify: "(\<And>g. sg_credential (f g) = sg_credential g) \<Longrightarrow> keeps same_credential (op_modify f)"
  by (rule sc.modify) (simp add: same_credential_def)

lemma sc_sessions_file: "keeps same_credential (on_sessions_file m)"
  unfolding keeps_def on_sessions_file_def by (auto intro!: wp_zoom wpI simp: same_credential_def)

lemma sc_credential_file: "keeps same_credential (on_credential_file m)"
  unfolding keeps_def on_credential_file_def by (auto intro!: wp_zoom wpI simp: same_credential_def)

lemma sc_token_file: "keeps same_credential (on_token_file m)"
  unfolding keeps_def on_token_file_def by (auto intro!: wp_zoom wpI simp: same_credential_def)

lemma sc_sum:
  "(\<And>e. keeps R (g e)) \<Longrightarrow> (\<And>x. keeps R (f x)) \<Longrightarrow> keeps R (case r of Inl e \<Rightarrow> g e | Inr x \<Rightarrow> f x)"
  by (simp split: sum.split)

lemmas sc_rules = sc.rules sc_modify sc_sessions_file sc_credential_file sc_token_file sc_sum keeps_option

lemma sc_persist: "keeps same_credential (persistRemembered now)"
  unfolding persistRemembered_def by (intro sc_rules)

lemma sc_revokeAll: "keeps same_credential (revokeAll now)"
  unfolding revokeAll_def by (intro sc_rules sc_persist) simp

lemma sc_newSession: "keeps same_credential (newSession sha rq remember token now)"
  unfolding newSession_def by (intro sc_rules sc_persist) simp_all

lemma sc_writeCredential: "keeps same_credential (writeCredential c)"
  unfolding writeCredential_def by (intro sc_rules)

lemma sc_Sessions: "keeps same_credential (Sessions sha rq now)"
  unfolding Sessions_def by (intro sc_rules) simp

lemma sc_RevokeSession: "keeps same_credential (RevokeSession sid now)"
  unfolding RevokeSession_def case_prod_unfold by (intro sc_rules sc_persist) simp_all

lemma sc_RevokeOtherSessions: "keeps same_credential (RevokeOtherSessions sha rq now)"
  unfolding RevokeOtherSessions_def Let_def by (intro sc_rules sc_persist) simp_all

lemma sc_Logout: "keeps same_credential (Logout sha rq now)"
  unfolding Logout_def by (intro sc_rules sc_persist) simp_all

lemma sc_Login: "keeps same_credential (LoginRemembered sha mac u p remember rq token now)"
  unfolding LoginRemembered_def by (intro sc_rules sc_newSession) (simp_all add: recordLoginFailure_def Let_def)

lemma sc_Rotate: "keeps same_credential (RotateRecoveryToken sha mac current token)"
  unfolding RotateRecoveryToken_def writeTokenAtomic_def by (intro sc_rules) simp_all

lemma sc_Middleware: "sg_credential (snd (Middleware sha rq now g)) = sg_credential g"
  by (simp add: Middleware_def Authenticated_def cookie_session_def split: option.split prod.split)

lemma sc_guarded: "keeps same_credential m \<Longrightarrow> keeps same_credential (guarded m)"
  unfolding guarded_def by (intro sc_rules)

text \<open>The credential before or after a replacement, whatever fails in between.\<close>

definition cred_in :: "credential option set \<Rightarrow> session_gate \<Rightarrow> bool" where
  "cred_in C g \<longleftrightarrow> sg_credential g \<in> C"

lemma cred_kept: "keeps same_credential m \<Longrightarrow> cred_in C g \<Longrightarrow> wp m (\<lambda>_. cred_in C) (\<lambda>_. cred_in C) g"
  by (auto simp: keeps_def same_credential_def cred_in_def elim!: allE [of _ g] wp_mono)

lemma replace_credential_cred:
  assumes "cred_in C g" "Some c \<in> C"
  shows "wp (replace_credential sha c rq token now) (\<lambda>_. cred_in C) (\<lambda>_. cred_in C) g"
  unfolding replace_credential_def
  by (rule wp_then [OF cred_kept [OF sc_writeCredential assms(1)]], rule wp_seq, rule wp_modify,
      rule wp_then [OF cred_kept [where C = C, OF sc_revokeAll]], (simp add: cred_in_def assms(2)), erule cred_kept [OF sc_newSession])

lemma Setup_cred:
  assumes "cred_in C g" "sg_credential g = None \<Longrightarrow> Some (new_credential mac (trim_space u) p salt) \<in> C"
  shows "wp (Setup sha mac u p rq salt token now) (\<lambda>_. cred_in C) (\<lambda>_. cred_in C) g"
proof -
  have "wp (op_seq (revokeAll now) (op_seq (writeCredential c) (op_seq (op_modify (\<lambda>g. g\<lparr>sg_credential := Some c\<rparr>))
      (newSession sha rq False token now)))) (\<lambda>_. cred_in C) (\<lambda>_. cred_in C) g" if "Some c \<in> C" for c
    by (rule wp_then [OF cred_kept [OF sc_revokeAll assms(1)]], rule wp_then [OF cred_kept [OF sc_writeCredential]], assumption,
        rule wp_seq, rule wp_modify, rule cred_kept [OF sc_newSession]) (use that in \<open>auto simp: cred_in_def\<close>)
  with assms show ?thesis
    unfolding Setup_def Let_def by (intro wp_if wp_fail wp_seq [of "op_check _"] wp_check wp_bind wp_get) auto
qed

lemma guarded_cred:
  "wp m (\<lambda>_. cred_in C) (\<lambda>_. cred_in C) g \<Longrightarrow> cred_in C g \<Longrightarrow> wp (guarded m) (\<lambda>_. cred_in C) (\<lambda>_. cred_in C) g"
  unfolding guarded_def by (intro wp_bind wp_get wp_if wp_seq wp_fail) (auto intro: wp_mono wp_return)

text \<open>The credentials an event may put in force.\<close>

definition authorised :: "(string \<Rightarrow> string) \<Rightarrow> (string \<Rightarrow> string \<Rightarrow> string) \<Rightarrow> session_gate \<Rightarrow> sg_event \<Rightarrow> credential set" where
  "authorised sha mac g ev = (case ev of
     EvSetup u p rq salt token \<Rightarrow>
       if sg_credential g = None \<and> validateNewPassword p then {new_credential mac (trim_space u) p salt} else {}
   | EvChange cur new rq salt token \<Rightarrow> (case sg_credential g of
       Some c \<Rightarrow> if password_ok mac cur c \<and> validateNewPassword new then {hash_password mac new salt c} else {}
     | None \<Rightarrow> {})
   | EvRecover u p rq salt token \<Rightarrow>
       if sg_credential g \<noteq> None \<and> RecoveryAuthenticated sha rq g \<and> validateNewPassword p
       then {new_credential mac (trim_space u) p salt} else {}
   | _ \<Rightarrow> {})"

lemma perform_cred:
  assumes "\<And>tp cp sp random. ev \<noteq> EvBoot tp cp sp random" "\<And>i j k. ev \<noteq> EvPowerLoss i j k"
  shows "wp (perform sha mac now ev) (\<lambda>_. cred_in (insert (sg_credential g) (Some ` authorised sha mac g ev)))
     (\<lambda>_. cred_in (insert (sg_credential g) (Some ` authorised sha mac g ev))) g"
proof -
  have g: "cred_in (insert (sg_credential g) C) g" for C by (simp add: cred_in_def)
  have kept: "wp (guarded m) (\<lambda>_. cred_in (insert (sg_credential g) C)) (\<lambda>_. cred_in (insert (sg_credential g) C)) g"
    if "keeps same_credential m" for m :: "'a sg_op" and C
    by (rule cred_kept [OF sc_guarded [OF that] g])
  show ?thesis
  proof (cases ev)
    case (EvSetup u p rq salt token)
    show ?thesis
    proof (cases "validateNewPassword p")
      case True
      show ?thesis unfolding EvSetup perform.simps
        by (rule guarded_cred [OF Setup_cred [OF g] g]) (simp add: authorised_def True)
    next
      case False
      then show ?thesis unfolding EvSetup perform.simps Setup_def Let_def
        by (intro guarded_cred wp_if wp_fail g) simp
    qed
  next
    case (EvChange cur new rq salt token)
    show ?thesis unfolding EvChange perform.simps ChangePassword_def
      by (intro guarded_cred wp_if wp_fail wp_bind wp_get wp_option wp_seq wp_check replace_credential_cred g)
        (auto simp: authorised_def)
  next
    case (EvRecover u p rq salt token)
    show ?thesis unfolding EvRecover perform.simps RecoverPassword_def Let_def
      by (intro guarded_cred wp_if wp_fail wp_bind wp_get wp_seq wp_check replace_credential_cred g)
        (auto simp: authorised_def)
  next
    case (EvRevoke sid)
    have "keeps same_credential (op_bind (RevokeSession sid now) (\<lambda>ok. if ok then op_return () else op_fail SgRevoke))"
      by (intro sc_rules sc_RevokeSession)
    with EvRevoke show ?thesis by (simp add: kept)
  qed (use assms g in \<open>auto simp: cred_in_def sc_Middleware intro!: wp_modify kept sc_Login sc_Rotate sc_Sessions sc_RevokeOtherSessions sc_Logout
      sc_modify\<close>)
qed

section \<open>The password hash\<close>

text \<open>
  PBKDF2 as RFC 8018 defines it: \<open>U\<close> iterates the keyed function, \<open>F\<close> is the
  exclusive or of the first \<open>c\<close> values, and the key is the concatenation of
  \<open>F\<close> for the blocks 1 to \<open>l\<close>, cut to its length.
\<close>

definition rfc_U :: "(string \<Rightarrow> string \<Rightarrow> string) \<Rightarrow> string \<Rightarrow> string \<Rightarrow> nat \<Rightarrow> nat \<Rightarrow> string" where
  "rfc_U mac P S i j = (mac P ^^ (j - 1)) (mac P (S @ be32 i))"

definition rfc_F :: "(string \<Rightarrow> string \<Rightarrow> string) \<Rightarrow> string \<Rightarrow> string \<Rightarrow> nat \<Rightarrow> nat \<Rightarrow> string" where
  "rfc_F mac P S c i = fold (\<lambda>j t. map2 xor_char t (rfc_U mac P S i j)) [2..<Suc c] (rfc_U mac P S i 1)"

definition rfc_PBKDF2 :: "(string \<Rightarrow> string \<Rightarrow> string) \<Rightarrow> string \<Rightarrow> string \<Rightarrow> nat \<Rightarrow> nat \<Rightarrow> string" where
  "rfc_PBKDF2 mac P S c dkLen = take dkLen (concat (map (rfc_F mac P S c) [1..<Suc ((dkLen + 31) div 32)]))"

lemma rounds_fold:
  "pbkdf2_rounds mac P n u t = fold (\<lambda>j t. map2 xor_char t ((mac P ^^ j) u)) [1..<Suc n] t"
proof (induction n arbitrary: u t)
  case (Suc n)
  have split: "[1..<Suc (Suc n)] = 1 # map Suc [1..<Suc n]" by (simp add: upt_conv_Cons map_Suc_upt del: upt_Suc)
  show ?case
    by (simp only: pbkdf2_rounds.simps Let_def Suc.IH split fold_simps fold_map)
      (simp add: comp_def funpow_swap1 del: upt_Suc)
qed simp

lemma block_rfc: "1 \<le> c \<Longrightarrow> pbkdf2_block mac P S c i = rfc_F mac P S c i"
proof -
  assume "1 \<le> c"
  then have split: "[2..<Suc c] = map Suc [1..<Suc (c - 1)]" by (simp add: map_Suc_upt numeral_2_eq_2 del: upt_Suc)
  show "pbkdf2_block mac P S c i = rfc_F mac P S c i"
    by (simp only: pbkdf2_block_def rfc_F_def Let_def rounds_fold split fold_map)
      (simp add: comp_def rfc_U_def del: upt_Suc)
qed

lemma rounds_length: "\<forall>k m. length (mac k m) = 32 \<Longrightarrow> length t = 32 \<Longrightarrow> length (pbkdf2_rounds mac P n u t) = 32"
  by (induction n arbitrary: u t) (simp_all add: Let_def)

lemma block_length: "\<forall>k m. length (mac k m) = 32 \<Longrightarrow> length (pbkdf2_block mac P S c i) = 32"
  by (simp add: pbkdf2_block_def Let_def rounds_length)

lemma blocks_length:
  "\<forall>k m. length (mac k m) = 32 \<Longrightarrow> length (concat (map (pbkdf2_block mac P S c) is)) = 32 * length is"
  by (induction "is") (simp_all add: block_length)

lemma loop_blocks:
  assumes "\<forall>k m. length (mac k m) = 32" "l = (keyLen + 31) div 32" "Suc l < 2 ^ 32"
    and "1 \<le> b" "b \<le> Suc l" "Suc l - b \<le> fuel"
  shows "pbkdf2_loop mac P S c keyLen fuel b (concat (map (pbkdf2_block mac P S c) [1..<b])) =
    concat (map (pbkdf2_block mac P S c) [1..<Suc l])"
  using assms(4-6)
proof (induction fuel arbitrary: b)
  case 0
  then have "b = Suc l" by simp
  then show ?case by simp
next
  case (Suc n)
  let ?r = "concat (map (pbkdf2_block mac P S c) [1..<b])"
  have len: "length ?r = 32 * (b - 1)" by (simp add: blocks_length [OF assms(1)])
  show ?case
  proof (cases "b = Suc l")
    case True
    with len have "\<not> length ?r < keyLen" using assms(2) by simp
    with True show ?thesis by simp
  next
    case False
    with Suc.prems have b: "b \<le> l" by simp
    then have lt: "length ?r < keyLen" unfolding len using assms(2) Suc.prems(1) by linarith
    have "(b + 1) mod 2 ^ 32 = Suc b" using b assms(3) by simp
    moreover have "?r @ pbkdf2_block mac P S c b = concat (map (pbkdf2_block mac P S c) [1..<Suc b])"
      using Suc.prems(1) by simp
    ultimately show ?thesis
      using lt Suc.IH [of "Suc b"] b Suc.prems(3) by simp
  qed
qed

lemma pbkdf2_blocks:
  assumes "\<forall>k m. length (mac k m) = 32" "1 \<le> iterations" "1 \<le> keyLen" "keyLen \<le> 32 * (2 ^ 32 - 2)"
  shows "pbkdf2SHA256 mac P S iterations keyLen = rfc_PBKDF2 mac P S (nat iterations) keyLen"
    "length (pbkdf2SHA256 mac P S iterations keyLen) = keyLen"
proof -
  let ?l = "(keyLen + 31) div 32"
  have l: "Suc ?l < 2 ^ 32" using assms(4) by simp
  have "pbkdf2_loop mac P S (nat iterations) keyLen keyLen 1 [] =
      concat (map (pbkdf2_block mac P S (nat iterations)) [1..<Suc ?l])"
    using loop_blocks [OF assms(1) refl l, of 1 keyLen P S "nat iterations"] assms(3) by simp
  then have e: "pbkdf2SHA256 mac P S iterations keyLen =
      take keyLen (concat (map (pbkdf2_block mac P S (nat iterations)) [1..<Suc ?l]))"
    using assms(2,3) by (simp add: pbkdf2SHA256_def del: upt_Suc)
  have "map (pbkdf2_block mac P S (nat iterations)) xs = map (rfc_F mac P S (nat iterations)) xs" for xs
    using assms(2) by (simp add: block_rfc)
  with e show "pbkdf2SHA256 mac P S iterations keyLen = rfc_PBKDF2 mac P S (nat iterations) keyLen"
    by (simp only: rfc_PBKDF2_def)
  show "length (pbkdf2SHA256 mac P S iterations keyLen) = keyLen"
    unfolding e length_take blocks_length [OF assms(1)] by (simp del: upt_Suc)
qed

text \<open>
  C27: the password hash is PBKDF2 of RFC 8018.  With a keyed function of 32
  bytes, the loops return exactly the key of the requested length the standard
  defines, for every number of iterations and every length up to 32 (2^32 - 2).
\<close>

theorem pbkdf2_rfc8018:
  assumes "\<forall>k m. length (mac k m) = 32" "1 \<le> iterations" "1 \<le> keyLen" "keyLen \<le> 32 * (2 ^ 32 - 2)"
  shows "pbkdf2SHA256 mac P S iterations keyLen = rfc_PBKDF2 mac P S (nat iterations) keyLen \<and>
     length (pbkdf2SHA256 mac P S iterations keyLen) = keyLen"
  by (intro conjI pbkdf2_blocks assms)

theorem pbkdf2_rfc8018_witness:
  "length (pbkdf2SHA256 (\<lambda>k m. demo_sha (k @ m)) ''secret'' ''salt'' passwordIterations 32) = 32"
  by (rule pbkdf2_rfc8018 [THEN conjunct2]) (simp_all add: demo_sha_length passwordIterations_def)

lemma hash_password_ok: "\<forall>k m. length (mac k m) = 32 \<Longrightarrow> password_ok mac p (hash_password mac p salt c)"
  using pbkdf2_blocks(2) [of mac passwordIterations 32 p salt]
  by (simp add: password_ok_def hash_password_def decoded_def Let_def passwordIterations_def)

section \<open>Who changes the account\<close>

definition chosen_password :: "sg_event \<Rightarrow> string" where
  "chosen_password ev = (case ev of
     EvSetup u p rq salt token \<Rightarrow> p | EvChange cur new rq salt token \<Rightarrow> new | EvRecover u p rq salt token \<Rightarrow> p | _ \<Rightarrow> [])"

lemma authorised_ok:
  "\<forall>k m. length (mac k m) = 32 \<Longrightarrow> c \<in> authorised sha mac g ev \<Longrightarrow> password_ok mac (chosen_password ev) c"
  by (auto simp: authorised_def chosen_password_def new_credential_def hash_password_ok split: sg_event.splits if_splits option.splits)



section \<open>Guessing\<close>

text \<open>The passwords tried from an address that were compared and refused.\<close>

definition guess :: "string \<Rightarrow> time \<times> sg_event \<times> (sg_error + unit) \<Rightarrow> bool" where
  "guess key e = (case e of
     (_, EvLogin u p remember rq token, Inl SgBadLogin) \<Rightarrow> requestIP rq = key
   | _ \<Rightarrow> False)"

text \<open>A step of a guesser: no restart, and no login from the address gets past the password.\<close>

definition guessing :: "string \<Rightarrow> time \<times> sg_event \<times> (sg_error + unit) \<Rightarrow> bool" where
  "guessing key e = (case e of
     (_, EvBoot tp cp sp random, _) \<Rightarrow> False
   | (_, EvPowerLoss i j k, _) \<Rightarrow> False
   | (_, EvLogin u p remember rq token, r) \<Rightarrow>
       requestIP rq = key \<longrightarrow> r \<noteq> Inr () \<and> r \<noteq> Inl SgRandom \<and> r \<noteq> Inl SgRemember
   | _ \<Rightarrow> True)"

definition same_attempts :: "session_gate \<Rightarrow> session_gate \<Rightarrow> bool" where
  "same_attempts g g' \<longleftrightarrow> sg_attempts g' = sg_attempts g \<and> sg_window g' = sg_window g \<and>
     sg_lockout g' = sg_lockout g \<and> sg_login_max g' = sg_login_max g"

interpretation sa: kept_relation same_attempts
  by unfold_locales (simp_all add: same_attempts_def)

lemma sa_modify:
  "(\<And>g. sg_attempts (f g) = sg_attempts g) \<Longrightarrow> (\<And>g. sg_window (f g) = sg_window g) \<Longrightarrow>
   (\<And>g. sg_lockout (f g) = sg_lockout g) \<Longrightarrow> (\<And>g. sg_login_max (f g) = sg_login_max g) \<Longrightarrow>
   keeps same_attempts (op_modify f)"
  by (rule sa.modify) (simp add: same_attempts_def)

lemma sa_files:
  "keeps same_attempts (on_sessions_file m)" "keeps same_attempts (on_credential_file m')" "keeps same_attempts (on_token_file m'')"
  unfolding keeps_def on_sessions_file_def on_credential_file_def on_token_file_def
  by (auto intro!: wp_zoom wpI simp: same_attempts_def)

lemma set_sessions_config [simp]:
  "sg_window (set_sessions ss g) = sg_window g" "sg_lockout (set_sessions ss g) = sg_lockout g"
  "sg_login_max (set_sessions ss g) = sg_login_max g"
  by (simp_all add: set_sessions_def)

lemmas sa_rules = sa.rules sa_modify sa_files sc_sum keeps_option

lemma sa_persist: "keeps same_attempts (persistRemembered now)"
  unfolding persistRemembered_def by (intro sa_rules)

lemma sa_revokeAll: "keeps same_attempts (revokeAll now)"
  unfolding revokeAll_def by (intro sa_rules sa_persist) simp_all

lemma sa_newSession: "keeps same_attempts (newSession sha rq remember token now)"
  unfolding newSession_def by (intro sa_rules sa_persist) simp_all

lemma sa_writeCredential: "keeps same_attempts (writeCredential c)"
  unfolding writeCredential_def by (intro sa_rules)

lemma sa_replace_credential: "keeps same_attempts (replace_credential sha c rq token now)"
  unfolding replace_credential_def by (intro sa_rules sa_writeCredential sa_revokeAll sa_newSession) simp_all

lemma sa_guarded: "keeps same_attempts m \<Longrightarrow> keeps same_attempts (guarded m)"
  unfolding guarded_def by (intro sa_rules)

lemma sa_perform:
  assumes "\<And>tp cp sp random. ev \<noteq> EvBoot tp cp sp random" "\<And>i j k. ev \<noteq> EvPowerLoss i j k"
    "\<And>u p remember rq token. ev \<noteq> EvLogin u p remember rq token"
  shows "keeps same_attempts (perform sha mac now ev)"
proof (cases ev)
  case (EvSetup u p rq salt token)
  show ?thesis unfolding EvSetup perform.simps Setup_def Let_def
    by (intro sa_guarded sa_rules sa_revokeAll sa_writeCredential sa_newSession) simp_all
next
  case (EvChange cur new rq salt token)
  show ?thesis unfolding EvChange perform.simps ChangePassword_def
    by (intro sa_guarded sa_rules sa_replace_credential)
next
  case (EvRecover u p rq salt token)
  show ?thesis unfolding EvRecover perform.simps RecoverPassword_def Let_def
    by (intro sa_guarded sa_rules sa_replace_credential)
next
  case (EvRotate cur token)
  show ?thesis unfolding EvRotate perform.simps RotateRecoveryToken_def writeTokenAtomic_def
    by (intro sa_guarded sa_rules) simp_all
next
  case (EvSessions rq)
  show ?thesis unfolding EvSessions perform.simps Sessions_def
    by (intro sa_guarded sa_rules) simp_all
next
  case (EvRevoke sid)
  show ?thesis unfolding EvRevoke perform.simps RevokeSession_def case_prod_unfold
    by (intro sa_guarded sa_rules sa_persist) simp_all
next
  case (EvRevokeOthers rq)
  show ?thesis unfolding EvRevokeOthers perform.simps RevokeOtherSessions_def Let_def
    by (intro sa_guarded sa_rules sa_persist) simp_all
next
  case (EvLogout rq)
  show ?thesis unfolding EvLogout perform.simps Logout_def
    by (intro sa_guarded sa_rules sa_persist) simp_all
next
  case (EvRequest rq)
  have "same_attempts g (snd (Middleware sha rq now g))" for g
    by (simp add: same_attempts_def Middleware_def Authenticated_def cookie_session_def split: option.split prod.split)
  with EvRequest show ?thesis by (simp add: sa_guarded sa.modify)
next
  case EvRemoveAccount
  then show ?thesis by (simp add: sa_modify)
qed (use assms in simp_all)

text \<open>
  The state of an address after \<open>n\<close> guesses since \<open>t0\<close>, at time \<open>tn\<close>: a window
  holds at most 15, because from the fifth on each locks the address for a
  minute and a window lasts ten.
\<close>

definition attempt_inv :: "time \<Rightarrow> time \<Rightarrow> int \<Rightarrow> login_attempt \<Rightarrow> bool" where
  "attempt_inv t0 tn n a \<longleftrightarrow> t0 \<le> la_first a \<and> la_first a \<le> tn \<and> 1 \<le> la_failures a \<and> la_failures a \<le> 15 \<and>
     (5 \<le> la_failures a \<longrightarrow> la_first a + (int (la_failures a) - 4) * defaultLoginLockout \<le> la_locked a) \<and>
     n \<le> 15 * ((la_first a - t0) div defaultLoginWindow) + int (la_failures a)"

definition guess_inv :: "string \<Rightarrow> time \<Rightarrow> time \<Rightarrow> int \<Rightarrow> session_gate \<Rightarrow> bool" where
  "guess_inv key t0 tn n g \<longleftrightarrow> sg_window g = defaultLoginWindow \<and> sg_lockout g = defaultLoginLockout \<and>
     sg_login_max g = defaultLoginMax \<and> distinct (map fst (sg_attempts g)) \<and>
     (case map_of (sg_attempts g) key of
        Some a \<Rightarrow> attempt_inv t0 tn n a
      | None \<Rightarrow> n = 0 \<or> (\<exists>lf \<ge> t0. lf + defaultLoginWindow < tn \<and> n \<le> 15 * ((lf - t0) div defaultLoginWindow) + 15))"

lemmas login_defs = defaultLoginWindow_def defaultLoginLockout_def defaultLoginMax_def duration_defs

lemma in_window: "time_sub now first > defaultLoginWindow \<longleftrightarrow> now - first > defaultLoginWindow"
  using time_sub_le_iff [of defaultLoginWindow now first] by (auto simp: login_defs not_le [symmetric])

lemma next_window: "t0 \<le> lf \<Longrightarrow> lf + defaultLoginWindow < now \<Longrightarrow>
   (lf - t0) div defaultLoginWindow + 1 \<le> (now - t0) div defaultLoginWindow"
proof -
  assume a: "t0 \<le> lf" "lf + defaultLoginWindow < now"
  have "(lf - t0) div defaultLoginWindow + 1 = (lf - t0 + defaultLoginWindow) div defaultLoginWindow"
    by (simp add: login_defs)
  also have "\<dots> \<le> (now - t0) div defaultLoginWindow"
    using a by (intro zdiv_mono1) (simp_all add: login_defs)
  finally show ?thesis .
qed

text \<open>A first failure in a new window.\<close>

lemma first_attempt:
  assumes "t0 \<le> now" "n \<le> 15 * ((now - t0) div defaultLoginWindow)" "la_first a = zero_time \<or> now - la_first a > defaultLoginWindow"
  shows "attempt_inv t0 now (n + 1) (next_attempt defaultLoginWindow defaultLoginLockout defaultLoginMax now a)"
  using assms by (simp add: attempt_inv_def next_attempt_def Let_def in_window defaultLoginMax_def)

lemma more_attempt:
  assumes "attempt_inv t0 tn n a" "tn \<le> now" "0 < t0" "\<not> now - la_first a > defaultLoginWindow" "la_locked a \<le> now"
  shows "attempt_inv t0 now (n + 1) (next_attempt defaultLoginWindow defaultLoginLockout defaultLoginMax now a)"
proof -
  let ?f = "int (la_failures a)"
  have z: "la_first a \<noteq> zero_time" using assms(1,3) by (simp add: attempt_inv_def zero_time_def)
  have lt: "5 \<le> la_failures a \<Longrightarrow> ?f \<le> 14"
    using assms(1,4,5) by (simp add: attempt_inv_def login_defs)
  have lock: "5 \<le> la_failures a \<Longrightarrow> la_first a + (?f - 4) * defaultLoginLockout \<le> now"
    using assms(1,5) by (simp add: attempt_inv_def)
  have w: "\<not> time_sub now (la_first a) > defaultLoginWindow" using assms(4) by (simp add: in_window)
  from assms z w lt lock show ?thesis
    by (auto simp: attempt_inv_def next_attempt_def Let_def login_defs)
qed

lemma map_of_kept:
  "distinct (map fst m) \<Longrightarrow> map_of (filter (\<lambda>(_, a). q a) m) k = (case map_of m k of Some a \<Rightarrow> if q a then Some a else None | None \<Rightarrow> None)"
  by (induction m) (auto simp: map_of_eq_None_iff split: option.splits)

lemma guess_mono: "guess_inv key t0 tn n g \<Longrightarrow> tn \<le> now \<Longrightarrow> guess_inv key t0 now n g"
  by (cases "map_of (sg_attempts g) key") (auto simp: guess_inv_def attempt_inv_def intro: less_le_trans)

lemma guess_same: "guess_inv key t0 tn n g \<Longrightarrow> same_attempts g g' \<Longrightarrow> guess_inv key t0 tn n g'"
  by (simp add: guess_inv_def same_attempts_def)

text \<open>The number of guesses made before a window that starts now.\<close>

lemma before_window:
  assumes "guess_inv key t0 tn n g" "t0 \<le> now" "tn \<le> now"
    and "\<And>a. map_of (sg_attempts g) key = Some a \<Longrightarrow> now - la_first a > defaultLoginWindow"
  shows "n \<le> 15 * ((now - t0) div defaultLoginWindow)"
proof -
  have w: "n \<le> 15 * ((now - t0) div defaultLoginWindow)"
    if "t0 \<le> lf" "lf + defaultLoginWindow < now" "n \<le> 15 * ((lf - t0) div defaultLoginWindow) + 15" for lf
    using next_window [OF that(1,2)] that(3) by simp
  show ?thesis
  proof (cases "map_of (sg_attempts g) key")
    case None
    with assms(1) have "n = 0 \<or> (\<exists>lf \<ge> t0. lf + defaultLoginWindow < tn \<and> n \<le> 15 * ((lf - t0) div defaultLoginWindow) + 15)"
      by (simp add: guess_inv_def)
    then show ?thesis
    proof
      assume "n = 0"
      have "0 \<le> (now - t0) div defaultLoginWindow"
        using assms(2) by (intro div_int_pos_iff [THEN iffD2]) (simp add: login_defs)
      with \<open>n = 0\<close> show ?thesis by simp
    next
      assume "\<exists>lf \<ge> t0. lf + defaultLoginWindow < tn \<and> n \<le> 15 * ((lf - t0) div defaultLoginWindow) + 15"
      with assms(3) w show ?thesis by force
    qed
  next
    case (Some a)
    with assms(1) have "attempt_inv t0 tn n a" by (simp add: guess_inv_def)
    with assms(4) [OF Some] show ?thesis by (intro w [of "la_first a"]) (simp_all add: attempt_inv_def)
  qed
qed

lemma record_guess:
  assumes "guess_inv key t0 tn n g" "tn \<le> now" "t0 \<le> now" "0 < t0" "la_locked (attempt_of (sg_attempts g) key) \<le> now"
  shows "guess_inv key t0 now (n + 1) (recordLoginFailure key now g)"
proof -
  let ?kept = "filter (\<lambda>(_, a). \<not> stale_attempt (sg_window g) now a) (sg_attempts g)"
  have c: "sg_window g = defaultLoginWindow" "sg_lockout g = defaultLoginLockout" "sg_login_max g = defaultLoginMax"
    "distinct (map fst (sg_attempts g))" using assms(1) by (simp_all add: guess_inv_def)
  have "attempt_inv t0 now (n + 1)
      (next_attempt defaultLoginWindow defaultLoginLockout defaultLoginMax now (attempt_of ?kept key))"
  proof (cases "map_of ?kept key")
    case None
    have "n \<le> 15 * ((now - t0) div defaultLoginWindow)"
      by (rule before_window [OF assms(1,3,2)])
        (use None c in \<open>auto simp: map_of_kept stale_attempt_def in_window split: if_splits\<close>)
    then show ?thesis by (intro first_attempt assms(3)) (simp_all add: attempt_of_def None no_attempt_def)
  next
    case (Some a)
    with c(4) have a: "map_of (sg_attempts g) key = Some a" "\<not> stale_attempt (sg_window g) now a"
      by (auto simp: map_of_kept split: option.splits if_splits)
    have "attempt_inv t0 tn n a" using assms(1) a(1) by (simp add: guess_inv_def)
    moreover have "la_locked a \<le> now" using assms(5) a(1) by (simp add: attempt_of_def)
    moreover from this a(2) c(1) have "\<not> now - la_first a > defaultLoginWindow"
      by (auto simp: stale_attempt_def in_window time_before_def)
    ultimately show ?thesis using assms(2,4) more_attempt by (simp add: attempt_of_def Some)
  qed
  moreover have "distinct (map fst ?kept)" using c(4) by (rule distinct_map_filter)
  ultimately show ?thesis using c
    by (simp add: guess_inv_def recordLoginFailure_def Let_def AList.update_Some_unfold AList.distinct_update AList.update_conv')
qed

lemma record_other:
  assumes "guess_inv key t0 tn n g" "tn \<le> now" "k \<noteq> key"
  shows "guess_inv key t0 now n (recordLoginFailure k now g)"
proof -
  let ?kept = "filter (\<lambda>(_, a). \<not> stale_attempt (sg_window g) now a) (sg_attempts g)"
  have c: "sg_window g = defaultLoginWindow" "distinct (map fst (sg_attempts g))" using assms(1) by (simp_all add: guess_inv_def)
  note m = guess_mono [OF assms(1,2)]
  have "case map_of ?kept key of Some a \<Rightarrow> attempt_inv t0 now n a
     | None \<Rightarrow> n = 0 \<or> (\<exists>lf \<ge> t0. lf + defaultLoginWindow < now \<and> n \<le> 15 * ((lf - t0) div defaultLoginWindow) + 15)"
  proof (cases "map_of (sg_attempts g) key")
    case None
    with m c show ?thesis by (simp add: map_of_kept guess_inv_def)
  next
    case (Some a)
    with m have a: "attempt_inv t0 now n a" by (simp add: guess_inv_def)
    have "\<exists>lf \<ge> t0. lf + defaultLoginWindow < now \<and> n \<le> 15 * ((lf - t0) div defaultLoginWindow) + 15"
      if "stale_attempt defaultLoginWindow now a"
      using a that by (intro exI [of _ "la_first a"]) (auto simp: attempt_inv_def stale_attempt_def in_window)
    with a Some c show ?thesis by (simp add: map_of_kept)
  qed
  with m c assms(3) show ?thesis
    by (simp add: guess_inv_def recordLoginFailure_def Let_def AList.update_conv' distinct_map_filter AList.distinct_update)
qed

text \<open>What a login does to the attempts.\<close>

lemma newSession_err: "wp (newSession sha rq remember token now) (\<lambda>_. same_attempts g)
    (\<lambda>e g'. e \<in> {SgRandom, SgRemember} \<and> same_attempts g g') g"
proof -
  have "wp (newSession sha rq remember token now) (\<lambda>_ _. True) (\<lambda>e _. e \<in> {SgRandom, SgRemember}) g"
    unfolding newSession_def
    by (intro wp_seq wp_check wp_modify wp_if wp_return wp_bind wp_try wp_mono [OF persist_wp]) (auto intro!: wp_intros)
  from wp_conj [OF this] sa_newSession show ?thesis by (force simp: keeps_def)
qed

definition login_result :: "string \<Rightarrow> time \<Rightarrow> session_gate \<Rightarrow> sg_error option \<Rightarrow> session_gate \<Rightarrow> bool" where
  "login_result k now g e g' \<longleftrightarrow>
     (if e = Some SgBadLogin then la_locked (attempt_of (sg_attempts g) k) \<le> now \<and> g' = recordLoginFailure k now g
      else if e \<in> {None, Some SgRandom, Some SgRemember}
      then same_attempts (g\<lparr>sg_attempts := AList.delete k (sg_attempts g)\<rparr>) g'
      else g' = g)"

lemma Login_wp:
  "wp (LoginRemembered sha mac u p remember rq token now) (\<lambda>_. login_result (requestIP rq) now g None)
     (\<lambda>e. login_result (requestIP rq) now g (Some e)) g"
  unfolding LoginRemembered_def
  by (intro wp_bind wp_get wp_if wp_fail wp_option wp_seq wp_modify wp_mono [OF newSession_err])
    (auto simp: login_result_def time_before_def)

lemma guarded_login:
  "wp (guarded (LoginRemembered sha mac u p remember rq token now)) (\<lambda>_. login_result (requestIP rq) now g None)
     (\<lambda>e. login_result (requestIP rq) now g (Some e)) g"
  unfolding guarded_def
  by (intro wp_bind wp_get wp_if wp_seq wp_mono [OF Login_wp] wp_fail) (auto intro: wp_return simp: login_result_def)

lemma guess_step:
  assumes "sg_step sha mac g (now, ev, r) g'" "guess_inv key t0 tn n g" "guessing key (now, ev, r)"
    "tn \<le> now" "t0 \<le> now" "0 < t0"
  shows "guess_inv key t0 now (n + (if guess key (now, ev, r) then 1 else 0)) g'"
proof -
  from assms(1) obtain t t' where p: "perform sha mac now ev (t, g) = (r, t', g')" by (auto elim: sg_stepE)
  note m = guess_mono [OF assms(2,4)]
  show ?thesis
  proof (cases "\<exists>u p remember rq token. ev = EvLogin u p remember rq token")
    case True
    then obtain u pw remember rq token where ev: "ev = EvLogin u pw remember rq token" by blast
    have l: "login_result (requestIP rq) now g (case r of Inl e \<Rightarrow> Some e | Inr _ \<Rightarrow> None) g'"
      using wpD [OF guarded_login p [unfolded ev perform.simps]] by (simp split: sum.splits)
    have del: "guess_inv key t0 now n g'" if "requestIP rq \<noteq> key"
      "same_attempts (g\<lparr>sg_attempts := AList.delete (requestIP rq) (sg_attempts g)\<rparr>) g'"
      by (rule guess_same [OF _ that(2)])
        (use m that(1) in \<open>simp add: guess_inv_def AList.delete_conv' AList.distinct_delete\<close>)
    show ?thesis
    proof (cases "r = Inl SgBadLogin")
      case True
      with l have l: "la_locked (attempt_of (sg_attempts g) (requestIP rq)) \<le> now"
        "g' = recordLoginFailure (requestIP rq) now g" by (simp_all add: login_result_def)
      show ?thesis
      proof (cases "requestIP rq = key")
        case True
        with l record_guess [OF assms(2,4,5,6)] \<open>r = Inl SgBadLogin\<close> show ?thesis by (simp add: guess_def ev)
      next
        case False
        with l record_other [OF assms(2,4)] \<open>r = Inl SgBadLogin\<close> show ?thesis by (simp add: guess_def ev)
      qed
    next
      case False
      then have "\<not> guess key (now, ev, r)" by (simp add: guess_def split: sum.splits sg_event.splits sg_error.splits)
      moreover have "guess_inv key t0 now n g'"
        using l False assms(3) del m by (cases r) (auto simp: login_result_def guessing_def ev split: if_splits)
      ultimately show ?thesis by simp
    qed
  next
    case False
    have "keeps same_attempts (perform sha mac now ev)"
      by (rule sa_perform) (use assms(3) False in \<open>auto simp: guessing_def\<close>)
    then have "wp (perform sha mac now ev) (\<lambda>_. same_attempts g) (\<lambda>_. same_attempts g) g" by (simp add: keeps_def)
    from wpD [OF this p] have "same_attempts g g'" by (simp split: sum.splits)
    moreover have "\<not> guess key (now, ev, r)" using False by (auto simp: guess_def split: sg_event.splits)
    ultimately show ?thesis using guess_same [OF m] by simp
  qed
qed

lemma guess_run:
  assumes "runs (sg_step sha mac) g es g'" "guess_inv key t0 t0 0 g" "0 < t0"
    "\<forall>e \<in> set es. guessing key e \<and> t0 \<le> fst e" "sorted (map fst es)"
  shows "guess_inv key t0 (if es = [] then t0 else fst (last es)) (int (length (filter (guess key) es))) g'"
  using assms
proof (induction rule: runs.induct)
  case (run_step g es g' e g'')
  obtain now ev r where e: "e = (now, ev, r)" by (cases e)
  from run_step have IH: "guess_inv key t0 (if es = [] then t0 else fst (last es)) (int (length (filter (guess key) es))) g'"
    by (auto simp: sorted_append)
  have le: "(if es = [] then t0 else fst (last es)) \<le> now" using run_step.prems(3,4) e by (auto simp: sorted_append)
  have "guess_inv key t0 now (int (length (filter (guess key) es)) + (if guess key (now, ev, r) then 1 else 0)) g''"
    by (rule guess_step [OF _ IH]) (use run_step e le in auto)
  then show ?case by (auto simp: e)
qed simp

lemma boot_attempts:
  "wp (boot sha tp cp sp random now) (\<lambda>_ g. sg_attempts g = [] \<and> sg_window g = defaultLoginWindow \<and>
     sg_lockout g = defaultLoginLockout \<and> sg_login_max g = defaultLoginMax) (\<lambda>_ _. True) g"
proof -
  let ?I = "\<lambda>g. sg_attempts g = [] \<and> sg_window g = defaultLoginWindow \<and> sg_lockout g = defaultLoginLockout \<and>
    sg_login_max g = defaultLoginMax"
  have t: "wp (LoadOrCreateToken sha tp random) (\<lambda>_. ?I) (\<lambda>_ _. True) g" for g
    unfolding LoadOrCreateToken_def NewGate_def Let_def on_token_file_def
    by (intro wp_if wp_fail wp_seq wp_check wp_bind wp_get wp_content wp_modify wp_return wp_zoom wp_try wp_effect wp_sum) simp_all
  have c: "wp (ConfigureCredentials cp) (\<lambda>_. ?I) (\<lambda>_ _. True) g" if "?I g" for g
    unfolding ConfigureCredentials_def
    by (intro wp_if wp_fail wp_seq wp_check wp_bind wp_get wp_content wp_modify) (use that in simp_all)
  have s: "wp (ConfigureRememberedSessions sp now) (\<lambda>_. ?I) (\<lambda>_. ?I) g" if "?I g" for g
    unfolding ConfigureRememberedSessions_def
    by (intro wp_if wp_fail wp_seq wp_check wp_bind wp_get wp_content wp_modify wp_return) (use that in simp_all)
  show ?thesis
    unfolding boot_def
    by (rule wp_seq, rule wp_modify, rule wp_then [OF t], rule wp_then [OF c], assumption)
      (auto intro!: wp_seq wp_try wp_modify wp_mono [OF s])
qed


definition demo_guess :: session_gate where
  "demo_guess = recordLoginFailure ''192.168.1.5'' 9 demo_setup"

lemma demo_guess_run:
  "perform demo_sha (\<lambda>_ _. []) 9 (EvLogin ''guest'' ''secret'' False (Some demo_request) ''other'') ([], demo_setup) =
     (Inl SgBadLogin, [], demo_guess)"
proof -
  have "sg_attempts demo_setup = []"
    unfolding demo_setup_def op_final_def demo_setup_eq by (simp add: demo_booted_eq)
  then show ?thesis
    by (simp add: guarded_def LoginRemembered_def run_simps demo_setup_sessions attempt_of_def no_attempt_def
        time_before_def zero_time_def demo_credential_def new_credential_def hash_password_def demo_guess_def
        requestIP_def demo_request_def)
qed


section \<open>Round trip of the remembered sessions\<close>

definition restored :: "session \<Rightarrow> session" where
  "restored s = s\<lparr>sn_ip := boundedText (sn_ip s) 64, sn_agent := boundedText (sn_agent s) 160\<rparr>"

lemma load_remembered:
  assumes "length h = 32" "sn_id s = hex_encode (take 8 h)" "sn_remembered s"
    "sn_expires s - sn_created s \<le> rememberedSessionLifetime"
  shows "load_session now (remembered_of (h, s)) acc = (if now < sn_expires s then AList.update h (restored s) acc else acc)"
proof -
  have "\<not> time_sub (sn_expires s) (sn_created s) > rememberedSessionLifetime"
    using time_sub_le_iff [of rememberedSessionLifetime "sn_expires s" "sn_created s"] assms(4)
    by (simp add: not_less rememberedSessionLifetime_def duration_defs)
  with assms(1-3) show ?thesis
    by (cases s) (simp add: load_session_def remembered_of_def hex_decode_encode restored_def time_before_def)
qed

lemma fold_load_lookup:
  assumes "distinct (map fst ps)" "\<forall>(h, s) \<in> set ps. length h = 32 \<and> sn_id s = hex_encode (take 8 h) \<and> sn_remembered s \<and>
      sn_expires s - sn_created s \<le> rememberedSessionLifetime"
  shows "map_of (fold (load_session now) (map remembered_of ps) acc) h =
    (case map_of ps h of Some s \<Rightarrow> if now < sn_expires s then Some (restored s) else map_of acc h | None \<Rightarrow> map_of acc h)"
  using assms
proof (induction ps arbitrary: acc)
  case (Cons p ps)
  obtain h0 s0 where p: "p = (h0, s0)" by (cases p)
  have l: "load_session now (remembered_of p) acc = (if now < sn_expires s0 then AList.update h0 (restored s0) acc else acc)"
    unfolding p by (rule load_remembered) (use Cons.prems(2) in \<open>auto simp: p\<close>)
  have "map_of ps h0 = None" using Cons.prems(1) by (simp add: p map_of_eq_None_iff)
  with Cons show ?case by (auto simp: l [unfolded p] p AList.update_conv' split: option.split)
qed simp

lemma insort_key_map: "insort_key f (g x) (map g xs) = map g (insort_key (\<lambda>x. f (g x)) x xs)"
  by (induction xs) simp_all

lemma sort_key_map: "sort_key f (map g xs) = map g (sort_key (\<lambda>x. f (g x)) xs)"
  by (induction xs) (simp_all add: insort_key_map)

lemma reload_document:
  assumes "within_bound ss"
  shows "map_of (fold (load_session now') (rd_sessions (remembered_document_of now ss)) []) h =
    (case map_of ss h of Some s \<Rightarrow> if sn_remembered s \<and> now < sn_expires s \<and> now' < sn_expires s then Some (restored s) else None
     | None \<Rightarrow> None)"
proof -
  let ?q = "\<lambda>s. sn_remembered s \<and> time_before now (sn_expires s)"
  let ?ps = "filter (\<lambda>(_, s). ?q s) ss"
  let ?sp = "sort_key (\<lambda>p. rm_created (remembered_of p)) ?ps"
  have d: "distinct (map fst ss)" using assms by (simp add: within_bound_def)
  then have dp: "distinct (map fst ?ps)" by (rule distinct_map_filter)
  have "mset (map fst ?sp) = mset (map fst ?ps)" by simp
  from mset_eq_imp_distinct_iff [OF this] dp have ds: "distinct (map fst ?sp)" by blast
  have "\<forall>(h, s) \<in> set ss. length h = 32 \<and> sn_id s = hex_encode (take 8 h) \<and>
      (sn_remembered s \<longrightarrow> sn_expires s - sn_created s \<le> rememberedSessionLifetime)"
    using assms by (simp add: within_bound_def)
  then have pre: "\<forall>(h, s) \<in> set ?sp. length h = 32 \<and> sn_id s = hex_encode (take 8 h) \<and> sn_remembered s \<and>
      sn_expires s - sn_created s \<le> rememberedSessionLifetime"
    by auto
  have "rd_sessions (remembered_document_of now ss) = map remembered_of ?sp"
    by (simp add: remembered_document_of_def sort_key_map)
  then have "map_of (fold (load_session now') (rd_sessions (remembered_document_of now ss)) []) h =
      (case map_of ?sp h of Some s \<Rightarrow> if now' < sn_expires s then Some (restored s) else None | None \<Rightarrow> None)"
    using fold_load_lookup [OF ds pre, of now' "[]" h] by (simp split: option.split)
  moreover have "map_of ?sp = map_of ?ps" using ds dp by (intro map_of_inject_set [THEN iffD2]) simp_all
  ultimately show ?thesis by (simp add: map_of_kept [OF d] time_before_def split: option.split)
qed



section \<open>A session that is dropped but not forgotten\<close>

text \<open>
  Making room for one more remembered session drops the oldest one from memory
  before the file is rewritten.  When the rewrite fails the login fails and
  the new session is taken back, but the dropped one is not: it is gone from
  memory, so nothing lists or revokes it, and still in the file, so the next
  start accepts its cookie again.
\<close>

definition full_sessions :: "(string \<times> session) list" where
  "full_sessions = map (\<lambda>i. (replicate (Suc i) CHR ''A'', \<lparr>sn_id = [], sn_created = int i, sn_expires = 100, sn_seen = int i,
     sn_ip = [], sn_agent = [], sn_remembered = True\<rparr>)) [0..<16]"

definition full_gate :: session_gate where
  "full_gate = demo_setup\<lparr>sg_sessions := full_sessions,
     sg_sessions_file := new_file (Parsed (remembered_document_of 20 full_sessions))\<rparr>"

lemma full_sessions_eq: "full_sessions = map (\<lambda>i. (replicate (Suc i) CHR ''A'', \<lparr>sn_id = [], sn_created = int i, sn_expires = 100,
    sn_seen = int i, sn_ip = [], sn_agent = [], sn_remembered = True\<rparr>)) [0, 1, 2, 3, 4, 5, 6, 7, 8, 9, 10, 11, 12, 13, 14, 15]"
  by (simp add: full_sessions_def upt_rec numeral_eq_Suc)

lemma dropped_from_memory: "absent ''A'' (dropRememberedOverflow full_sessions)"
  by (simp add: full_sessions_eq dropRememberedOverflow_def maxRememberedSessions_def absent_def numeral_eq_Suc)

lemma dropped_session_kept_on_disk:
  "fst (newSession demo_sha None True ''new'' 20 ([Go, Refuse], full_gate)) = Inl SgRemember \<and>
   absent ''A'' (sg_sessions (op_final (newSession demo_sha None True ''new'' 20) [Go, Refuse] full_gate)) \<and>
   sg_sessions_file (op_final (newSession demo_sha None True ''new'' 20) [Go, Refuse] full_gate) =
     new_file (Parsed (remembered_document_of 20 full_sessions)) \<and>
   \<not> unlisted ''A'' (remembered_document_of 20 full_sessions)"
proof -
  have e: "drop_expired 20 full_sessions = full_sessions"
    by (simp add: full_sessions_eq drop_expired_def time_after_def)
  have "demo_sha ''new'' \<noteq> ''A''" by (simp add: demo_sha_def)
  then have a: "absent ''A'' (AList.delete (demo_sha ''new'') (AList.update (demo_sha ''new'') s (dropRememberedOverflow full_sessions)))" for s
    using dropped_from_memory by (force simp: absent_def AList.delete_eq dest!: AList_update_set [THEN subsetD])
  have r: "newSession demo_sha None True ''new'' 20 ([Go, Refuse], full_gate) =
    (Inl SgRemember, [], set_sessions (AList.delete (demo_sha ''new'') (AList.update (demo_sha ''new'')
       (new_session (demo_sha ''new'') None True 20) (dropRememberedOverflow full_sessions))) full_gate)"
    by (simp add: newSession_def persistRemembered_def on_sessions_file_def writePrivateFile_def privateParent_def
        run_simps op_check_def op_ask_def full_gate_def e demo_setup_sessions set_sessions_def)
  have "remembered_of (''A'', snd (hd full_sessions)) \<in> set (rd_sessions (remembered_document_of 20 full_sessions))"
    unfolding document_of_iff
    by (rule exI [of _ "''A''"], rule exI [of _ "snd (hd full_sessions)"]) (simp add: full_sessions_eq)
  then have "\<not> unlisted ''A'' (remembered_document_of 20 full_sessions)"
    by (force simp: unlisted_def hex_decode_encode simp del: hex_decode.simps hex_encode.simps)
  with r a show ?thesis by (simp add: op_final_def full_gate_def)
qed

end
