(* ===== verification/Net_Address.thy ===== *)
theory Net_Address
  imports Prelude "HOL-Library.Word"
begin

text \<open>
  The addresses and prefixes of \<open>net/netip\<close> as the policy packages use them: an
  address is invalid, a 32-bit or a 128-bit word with a zone; a prefix has an
  address without zone and a length, -1 when it is invalid.
\<close>

section \<open>Addresses\<close>

datatype ip_addr = NoAddr | V4 "32 word" | V6 "128 word" string

definition addr_valid :: "ip_addr \<Rightarrow> bool" where
  "addr_valid a \<longleftrightarrow> a \<noteq> NoAddr"

definition addr_zone :: "ip_addr \<Rightarrow> string" where
  "addr_zone a = (case a of V6 _ z \<Rightarrow> z | _ \<Rightarrow> [])"

definition is_4in6 :: "ip_addr \<Rightarrow> bool" where
  "is_4in6 a = (case a of V6 w _ \<Rightarrow> drop_bit 32 w = 0xFFFF | _ \<Rightarrow> False)"

definition addr_unmap :: "ip_addr \<Rightarrow> ip_addr" where
  "addr_unmap a = (case a of V6 w _ \<Rightarrow> if is_4in6 a then V4 (ucast w) else a | _ \<Rightarrow> a)"

definition is_v6 :: "ip_addr \<Rightarrow> bool" where
  "is_v6 a = (case a of V6 _ _ \<Rightarrow> True | _ \<Rightarrow> False)"

definition bit_length :: "ip_addr \<Rightarrow> nat" where
  "bit_length a = (case a of NoAddr \<Rightarrow> 0 | V4 _ \<Rightarrow> 32 | V6 _ _ \<Rightarrow> 128)"

definition is_unspecified :: "ip_addr \<Rightarrow> bool" where
  "is_unspecified a \<longleftrightarrow> a = V4 0 \<or> a = V6 0 []"

definition is_loopback :: "ip_addr \<Rightarrow> bool" where
  "is_loopback a = (case addr_unmap a of V4 w \<Rightarrow> drop_bit 24 w = 127 | V6 w _ \<Rightarrow> w = 1 | NoAddr \<Rightarrow> False)"

definition is_multicast :: "ip_addr \<Rightarrow> bool" where
  "is_multicast a = (case addr_unmap a of V4 w \<Rightarrow> drop_bit 28 w = 0xE | V6 w _ \<Rightarrow> drop_bit 120 w = 0xFF | NoAddr \<Rightarrow> False)"

definition is_link_local :: "ip_addr \<Rightarrow> bool" where
  "is_link_local a = (case addr_unmap a of V4 w \<Rightarrow> drop_bit 16 w = 0xA9FE | V6 w _ \<Rightarrow> drop_bit 118 w = 0x3FA | NoAddr \<Rightarrow> False)"

section \<open>Prefixes\<close>

record prefix =
  px_addr :: ip_addr
  px_bits :: int

definition no_prefix :: prefix where
  "no_prefix = \<lparr>px_addr = NoAddr, px_bits = -1\<rparr>"

definition prefix_valid :: "prefix \<Rightarrow> bool" where
  "prefix_valid p \<longleftrightarrow> 0 \<le> px_bits p"

text \<open>The address with all but the first \<open>n\<close> bits cleared.\<close>

definition keep_bits :: "nat \<Rightarrow> ip_addr \<Rightarrow> ip_addr" where
  "keep_bits n a = (case a of
     NoAddr \<Rightarrow> NoAddr
   | V4 w \<Rightarrow> V4 (push_bit (32 - n) (drop_bit (32 - n) w))
   | V6 w _ \<Rightarrow> V6 (push_bit (128 - n) (drop_bit (128 - n) w)) [])"

definition prefix_from :: "ip_addr \<Rightarrow> nat \<Rightarrow> prefix" where
  "prefix_from a n = (if a = NoAddr \<or> bit_length a < n then no_prefix
     else \<lparr>px_addr = (case a of V6 w _ \<Rightarrow> V6 w [] | _ \<Rightarrow> a), px_bits = int n\<rparr>)"

definition prefix_masked :: "prefix \<Rightarrow> prefix" where
  "prefix_masked p = (if prefix_valid p then p\<lparr>px_addr := keep_bits (nat (px_bits p)) (px_addr p)\<rparr> else no_prefix)"

definition prefix_contains :: "prefix \<Rightarrow> ip_addr \<Rightarrow> bool" where
  "prefix_contains p a \<longleftrightarrow> prefix_valid p \<and> addr_zone a = [] \<and>
     bit_length (px_addr p) \<noteq> 0 \<and> bit_length (px_addr p) = bit_length a \<and>
     keep_bits (nat (px_bits p)) (px_addr p) = keep_bits (nat (px_bits p)) a"

definition prefix_overlaps :: "prefix \<Rightarrow> prefix \<Rightarrow> bool" where
  "prefix_overlaps p q \<longleftrightarrow> prefix_valid p \<and> prefix_valid q \<and>
     (p = q \<or> is_v6 (px_addr p) = is_v6 (px_addr q) \<and>
       (let n = nat (min (px_bits p) (px_bits q)) in
        n = 0 \<or> keep_bits n (px_addr p) = keep_bits n (px_addr q)))"

text \<open>A prefix as the parser and the constructors make it.\<close>

definition wf_prefix :: "prefix \<Rightarrow> bool" where
  "wf_prefix p \<longleftrightarrow> px_addr p \<noteq> NoAddr \<and> addr_zone (px_addr p) = [] \<and> 0 \<le> px_bits p \<and>
     px_bits p \<le> int (bit_length (px_addr p))"

lemma keep_keep:
  fixes w :: "'a::len word"
  assumes "push_bit (LENGTH('a) - n) (drop_bit (LENGTH('a) - n) w) = push_bit (LENGTH('a) - n) (drop_bit (LENGTH('a) - n) v)" "m \<le> n"
  shows "push_bit (LENGTH('a) - m) (drop_bit (LENGTH('a) - m) w) = push_bit (LENGTH('a) - m) (drop_bit (LENGTH('a) - m) v)"
proof (rule bit_word_eqI)
  fix i assume i: "i < LENGTH('a)"
  have eq: "bit w k = bit v k" if "LENGTH('a) - n \<le> k" "k < LENGTH('a)" for k
    using arg_cong [OF assms(1), of "\<lambda>u. bit u k"] that by (simp add: bit_push_bit_iff bit_drop_bit_eq)
  show "bit (push_bit (LENGTH('a) - m) (drop_bit (LENGTH('a) - m) w)) i =
      bit (push_bit (LENGTH('a) - m) (drop_bit (LENGTH('a) - m) v)) i"
    using i assms(2) eq [of i] by (auto simp: bit_push_bit_iff bit_drop_bit_eq)
qed

lemmas keep_keep32 = keep_keep [where 'a = 32, simplified]
lemmas keep_keep128 = keep_keep [where 'a = 128, simplified]

lemma keep_bits_le:
  assumes "keep_bits n a = keep_bits n b" "m \<le> n"
  shows "keep_bits m a = keep_bits m b"
  using assms by (cases a; cases b) (auto simp: keep_bits_def intro: keep_keep32 keep_keep128)

text \<open>Two prefixes that contain a common address overlap.\<close>

lemma contains_overlaps:
  assumes "prefix_contains p a" "prefix_contains q a"
  shows "prefix_overlaps p q"
proof -
  let ?n = "nat (min (px_bits p) (px_bits q))"
  have "keep_bits ?n (px_addr p) = keep_bits ?n a" "keep_bits ?n (px_addr q) = keep_bits ?n a"
    using assms by (auto simp: prefix_contains_def intro: keep_bits_le)
  moreover have "is_v6 (px_addr p) = is_v6 (px_addr q)"
    using assms by (auto simp: prefix_contains_def is_v6_def bit_length_def split: ip_addr.splits)
  ultimately show ?thesis using assms by (simp add: prefix_overlaps_def prefix_contains_def Let_def)
qed

lemma contains_single:
  assumes "addr_zone a = []" "a \<noteq> NoAddr"
  shows "prefix_contains (prefix_from a (bit_length a)) a"
  using assms by (cases a) (simp_all add: prefix_contains_def prefix_from_def bit_length_def prefix_valid_def addr_zone_def)

end
