(* ===== verification/Network_Policy.thy ===== *)
theory Network_Policy
  imports Net_Address "HOL-Library.Product_Lexorder"
begin

text \<open>
  \<open>internal/config/network_policy.go\<close> and the pure part of
  \<open>resource_exclusions.go\<close>: the home network policy, its validity, the overlap
  of rules, and the effective negatives.  The parsers and canonical forms the
  code calls (\<open>net/netip\<close>, \<open>net\<close>, \<open>idna\<close>, \<open>publicsuffix\<close>, \<open>encoding/json\<close> with
  \<open>sha256\<close>) are the fields of \<open>net_text\<close>, an argument of the definitions.  A
  nil slice and an empty one are the same list.
\<close>

section \<open>Data\<close>

datatype policy_error = ErrNetworkPolicy | ErrResourceExclusions | ErrRevisionChanged

record resource_match =
  mt_kind :: string
  mt_value :: string

record russian_snapshot =
  rs_catalog :: string
  rs_revision :: "64 word"
  rs_digest :: string
  rs_entries :: "resource_match list"

record resource_exclusions =
  rx_schema :: int
  rx_revision :: "64 word"
  rx_manual :: "resource_match list"
  rx_snapshot :: "russian_snapshot option"

record client_scope =
  cs_mode :: string
  cs_segments :: "string list"
  cs_devices :: "string list"
  cs_excluded_devices :: "string list"
  cs_excluded_cidrs :: "string list"
  cs_new_devices :: string

record traffic_selection =
  tf_mode :: string
  tf_default_route :: string
  tf_all_except_allowed :: bool
  tf_auto_hostlist :: bool
  tf_unavailable :: string

record network_rule =
  nr_id :: string
  nr_revision :: "64 word"
  nr_kind :: string
  nr_value :: string
  nr_action :: string
  nr_mandatory :: bool
  nr_devices :: "string list"

record russian_exclusions =
  ru_enabled :: bool
  ru_auto_update :: bool
  ru_catalog :: string
  ru_revision :: "64 word"
  ru_digest :: string
  ru_services :: "string list"
  ru_tlds :: "string list"

record network_policy =
  np_schema :: int
  np_revision :: "64 word"
  np_clients :: client_scope
  np_traffic :: traffic_selection
  np_rules :: "network_rule list"
  np_russian :: russian_exclusions
  np_exclusions :: "resource_exclusions option"

record effective_set =
  ef_policy_revision :: "64 word"
  ef_revision :: "64 word"
  ef_clients :: client_scope
  ef_russian_enabled :: bool
  ef_snapshot :: "russian_snapshot option"
  ef_legacy_russian :: russian_exclusions
  ef_manual :: "resource_match list"
  ef_russian :: "resource_match list"
  ef_legacy_rules :: "network_rule list"
  ef_tlds :: "string list"
  ef_digest :: string

text \<open>
  \<open>nt_parse_mac\<close> gives the bytes of a hardware address; \<open>nt_digest\<close> and
  \<open>nt_snapshot_digest\<close> are \<open>exclusionDigest\<close> of the two documents.
\<close>

record net_text =
  nt_parse_addr :: "string \<Rightarrow> ip_addr option"
  nt_format_addr :: "ip_addr \<Rightarrow> string"
  nt_parse_prefix :: "string \<Rightarrow> prefix option"
  nt_valid_utf8 :: "string \<Rightarrow> bool"
  nt_trim_space :: "string \<Rightarrow> string"
  nt_to_ascii :: "string \<Rightarrow> string option"
  nt_public_suffix :: "string \<Rightarrow> string"
  nt_parse_mac :: "string \<Rightarrow> nat list option"
  nt_digest :: "effective_set \<Rightarrow> string"
  nt_snapshot_digest :: "russian_snapshot \<Rightarrow> string"

section \<open>Names\<close>

definition alnum :: "char \<Rightarrow> bool" where
  "alnum c \<longleftrightarrow> is_digit c \<or> is_lower c \<or> is_upper c"

definition policyIdentifier :: "string \<Rightarrow> bool" where
  "policyIdentifier s = (case s of [] \<Rightarrow> False
     | c # r \<Rightarrow> alnum c \<and> length r \<le> 127 \<and> list_all (\<lambda>x. alnum x \<or> x \<in> {CHR ''_'', CHR ''.'', CHR ''-''}) r)"

definition consentHex :: "string \<Rightarrow> nat \<Rightarrow> bool" where
  "consentHex s n \<longleftrightarrow> length s = n \<and> list_all is_hex s"

fun split_on :: "char \<Rightarrow> string \<Rightarrow> string list" where
  "split_on d [] = [[]]"
| "split_on d (c # s) = (if c = d then [] # split_on d s
     else (case split_on d s of [] \<Rightarrow> [[c]] | w # ws \<Rightarrow> (c # w) # ws))"

definition trim_suffix :: "string \<Rightarrow> string \<Rightarrow> string" where
  "trim_suffix s p = (if has_suffix s p then take (length s - length p) s else s)"

definition valid_label :: "string \<Rightarrow> bool" where
  "valid_label l \<longleftrightarrow> l \<noteq> [] \<and> length l \<le> 63 \<and> hd l \<noteq> CHR ''-'' \<and> last l \<noteq> CHR ''-'' \<and>
     list_all (\<lambda>c. is_lower c \<or> is_digit c \<or> c = CHR ''-'') l"

definition ResourceHostname :: "net_text \<Rightarrow> string \<Rightarrow> string option" where
  "ResourceHostname L v =
     (if v = [] \<or> \<not> nt_valid_utf8 L v \<or> nt_trim_space L v \<noteq> v \<or> list_ex (\<lambda>c. c \<in> set ''/:@?#*'' \<or> c = CHR 0x5C) v then None
      else case nt_to_ascii L (trim_suffix v ''.'') of
        None \<Rightarrow> None
      | Some raw \<Rightarrow>
          if length raw > 253 then None
          else (let name = to_lower raw in
            if nt_parse_addr L name \<noteq> None then None
            else if \<not> list_all valid_label (split_on CHR ''.'' name) then None
            else if CHR ''.'' \<notin> set name then None
            else Some name))"

definition PolicyDomain :: "net_text \<Rightarrow> string \<Rightarrow> string option" where
  "PolicyDomain L v = (case ResourceHostname L v of
     None \<Rightarrow> None
   | Some name \<Rightarrow> if nt_public_suffix L name = name then None else Some name)"

definition policyIDs :: "string list \<Rightarrow> nat \<Rightarrow> bool" where
  "policyIDs vs limit \<longleftrightarrow> length vs \<le> limit \<and> list_all policyIdentifier vs \<and> distinct vs"

text \<open>The classes of addresses no policy may name.\<close>

definition special_addr :: "ip_addr \<Rightarrow> bool" where
  "special_addr a \<longleftrightarrow> is_4in6 a \<or> addr_zone a \<noteq> [] \<or> is_unspecified a \<or> is_multicast a \<or> is_loopback a \<or> is_link_local a"

definition policyPrefix :: "net_text \<Rightarrow> string \<Rightarrow> prefix option" where
  "policyPrefix L v = (case nt_parse_prefix L v of
     None \<Rightarrow> None
   | Some p \<Rightarrow>
       if p \<noteq> prefix_masked p \<or> special_addr (px_addr p) then None
       else if (if is_v6 (px_addr p) then 16 else 8) \<le> px_bits p then Some p else None)"

definition policy_addr :: "net_text \<Rightarrow> string \<Rightarrow> bool" where
  "policy_addr L v = (case nt_parse_addr L v of
     None \<Rightarrow> False
   | Some a \<Rightarrow> nt_format_addr L a = v \<and> \<not> special_addr a)"

definition prefix_string :: "net_text \<Rightarrow> prefix \<Rightarrow> string" where
  "prefix_string L p = (if prefix_valid p then nt_format_addr L (px_addr p) @ ''/'' @ dec (nat (px_bits p)) else ''invalid Prefix'')"

section \<open>Negative selectors\<close>

definition normalizeResourceMatch :: "net_text \<Rightarrow> resource_match \<Rightarrow> resource_match option" where
  "normalizeResourceMatch L m =
     (if mt_kind m = ''service'' then (if policyIdentifier (mt_value m) then Some m else None)
      else if mt_kind m = ''exact'' \<or> mt_kind m = ''suffix'' then
        (case PolicyDomain L (mt_value m) of None \<Rightarrow> None | Some n \<Rightarrow> Some (m\<lparr>mt_value := n\<rparr>))
      else if mt_kind m = ''ip'' then (if policy_addr L (mt_value m) then Some m else None)
      else if mt_kind m = ''cidr'' then (if policyPrefix L (mt_value m) \<noteq> None then Some m else None)
      else None)"

fun normalize_loop :: "net_text \<Rightarrow> resource_match list \<Rightarrow> resource_match list \<Rightarrow> resource_match list option" where
  "normalize_loop L out [] = Some out"
| "normalize_loop L out (m # ms) = (case normalizeResourceMatch L m of
     None \<Rightarrow> None
   | Some n \<Rightarrow> if n \<in> set out then None else normalize_loop L (out @ [n]) ms)"

definition NormalizeResourceMatches :: "net_text \<Rightarrow> resource_match list \<Rightarrow> resource_match list option" where
  "NormalizeResourceMatches L ms =
     (if length ms > 4096 then None
      else map_option (sort_key (\<lambda>m. (mt_kind m, mt_value m))) (normalize_loop L [] ms))"

definition RussianSnapshotDigest :: "net_text \<Rightarrow> russian_snapshot \<Rightarrow> string" where
  "RussianSnapshotDigest L s = (case NormalizeResourceMatches L (rs_entries s) of
     None \<Rightarrow> []
   | Some es \<Rightarrow> nt_snapshot_digest L (s\<lparr>rs_entries := es, rs_digest := []\<rparr>))"

definition canonical_matches :: "net_text \<Rightarrow> resource_match list \<Rightarrow> bool" where
  "canonical_matches L ms \<longleftrightarrow> NormalizeResourceMatches L ms \<noteq> None \<and>
     list_all (\<lambda>m. normalizeResourceMatch L m = Some m) ms"

definition valid_snapshot :: "net_text \<Rightarrow> russian_snapshot \<Rightarrow> bool" where
  "valid_snapshot L s \<longleftrightarrow> policyIdentifier (rs_catalog s) \<and> rs_revision s \<noteq> 0 \<and> rs_revision s \<noteq> -1 \<and> rs_entries s \<noteq> [] \<and>
     consentHex (rs_digest s) 64 \<and> rs_digest s = RussianSnapshotDigest L s \<and> canonical_matches L (rs_entries s)"

definition ValidateResourceExclusions :: "net_text \<Rightarrow> resource_exclusions option \<Rightarrow> bool" where
  "ValidateResourceExclusions L x = (case x of
     None \<Rightarrow> True
   | Some d \<Rightarrow> rx_schema d = 1 \<and> rx_revision d \<noteq> 0 \<and> rx_revision d \<noteq> -1 \<and> length (rx_manual d) \<le> 512 \<and>
       canonical_matches L (rx_manual d) \<and>
       (case rx_snapshot d of None \<Rightarrow> True | Some s \<Rightarrow> valid_snapshot L s))"

section \<open>Rules and their overlap\<close>

definition domain_matches :: "network_rule \<Rightarrow> string \<Rightarrow> bool" where
  "domain_matches r name \<longleftrightarrow> nr_value r = name \<or> nr_kind r = ''suffix'' \<and> has_suffix name (CHR ''.'' # nr_value r)"

definition domain_rule :: "network_rule \<Rightarrow> bool" where
  "domain_rule r \<longleftrightarrow> nr_kind r = ''exact'' \<or> nr_kind r = ''suffix''"

definition rule_prefix :: "net_text \<Rightarrow> network_rule \<Rightarrow> prefix option" where
  "rule_prefix L r =
     (if nr_kind r = ''ip'' then map_option (\<lambda>a. prefix_from a (bit_length a)) (nt_parse_addr L (nr_value r))
      else if nr_kind r = ''cidr'' then nt_parse_prefix L (nr_value r)
      else None)"

definition NetworkRulesOverlap :: "net_text \<Rightarrow> network_rule \<Rightarrow> network_rule \<Rightarrow> bool" where
  "NetworkRulesOverlap L a b =
     (if nr_devices a \<noteq> [] \<and> nr_devices b \<noteq> [] \<and> \<not> list_ex (\<lambda>d. d \<in> set (nr_devices b)) (nr_devices a) then False
      else if nr_kind a = ''service'' \<or> nr_kind b = ''service'' then nr_kind a = nr_kind b \<and> nr_value a = nr_value b
      else if domain_rule a \<and> domain_rule b then domain_matches a (nr_value b) \<or> domain_matches b (nr_value a)
      else (case (rule_prefix L a, rule_prefix L b) of
        (Some p, Some q) \<Rightarrow> prefix_overlaps p q
      | _ \<Rightarrow> False))"

section \<open>Validity of a policy\<close>

definition valid_clients :: "net_text \<Rightarrow> client_scope \<Rightarrow> bool" where
  "valid_clients L s \<longleftrightarrow>
     cs_mode s \<in> {''selected_devices'', ''lan_except''} \<and> cs_new_devices s \<in> {''inherit'', ''base''} \<and>
     cs_segments s \<noteq> [] \<and> policyIDs (cs_segments s) 16 \<and> policyIDs (cs_devices s) 128 \<and>
     policyIDs (cs_excluded_devices s) 128 \<and> length (cs_excluded_cidrs s) \<le> 64 \<and>
     \<not> (cs_mode s = ''selected_devices'' \<and> (cs_devices s = [] \<or> cs_new_devices s \<noteq> ''base'')) \<and>
     \<not> (cs_mode s = ''lan_except'' \<and> cs_devices s \<noteq> []) \<and>
     list_all (\<lambda>v. policyPrefix L v \<noteq> None) (cs_excluded_cidrs s) \<and> distinct (cs_excluded_cidrs s)"

definition validDefaultRoute :: "string \<Rightarrow> int \<Rightarrow> bool" where
  "validDefaultRoute route schema =
     (if route \<in> {''usque'', ''warp-wg'', ''xray''} then True
      else if route \<in> {''amneziawg'', ''wireguard'', ''auto''} then 2 \<le> schema
      else has_prefix route ''sing-box:node-'' \<and> policyIdentifier (drop (length ''sing-box:'') route))"

definition valid_traffic :: "int \<Rightarrow> traffic_selection \<Rightarrow> bool" where
  "valid_traffic schema t \<longleftrightarrow>
     tf_mode t \<in> {''selected_services'', ''all_except''} \<and>
     (tf_unavailable t \<in> {''retain'', ''base''} \<or> 2 \<le> schema \<and> tf_unavailable t = ''block'') \<and>
     \<not> (tf_mode t = ''selected_services'' \<and> (tf_default_route t \<noteq> [] \<or> tf_all_except_allowed t)) \<and>
     \<not> (tf_mode t = ''all_except'' \<and> (\<not> tf_all_except_allowed t \<or> \<not> validDefaultRoute (tf_default_route t) schema))"

definition valid_rule :: "net_text \<Rightarrow> network_rule \<Rightarrow> bool" where
  "valid_rule L r \<longleftrightarrow>
     policyIdentifier (nr_id r) \<and> nr_revision r \<noteq> 0 \<and> nr_revision r \<noteq> -1 \<and> policyIDs (nr_devices r) 128 \<and>
     nr_action r \<in> {''direct'', ''bypass''} \<and> \<not> (nr_action r = ''direct'' \<and> \<not> nr_mandatory r) \<and>
     (if nr_kind r = ''service'' then policyIdentifier (nr_value r)
      else if domain_rule r then PolicyDomain L (nr_value r) = Some (nr_value r)
      else if nr_kind r = ''ip'' then policy_addr L (nr_value r)
      else if nr_kind r = ''cidr'' then policyPrefix L (nr_value r) \<noteq> None
      else False)"

fun rules_conflict :: "net_text \<Rightarrow> network_rule list \<Rightarrow> bool" where
  "rules_conflict L [] = False"
| "rules_conflict L (a # rs) =
     (list_ex (\<lambda>b. nr_mandatory a \<and> nr_mandatory b \<and> nr_action a \<noteq> nr_action b \<and> NetworkRulesOverlap L a b) rs \<or>
      rules_conflict L rs)"

definition valid_russian :: "bool \<Rightarrow> russian_exclusions \<Rightarrow> bool" where
  "valid_russian typed r \<longleftrightarrow>
     policyIDs (ru_services r) 128 \<and> length (ru_tlds r) \<le> 3 \<and>
     (if ru_enabled r then
        (let legacy = (ru_catalog r \<noteq> [] \<or> ru_revision r \<noteq> 0 \<or> ru_digest r \<noteq> [] \<or> ru_services r \<noteq> [] \<or> ru_tlds r \<noteq> []) in
         \<not> ((\<not> typed \<or> legacy) \<and> (\<not> policyIdentifier (ru_catalog r) \<or> ru_revision r = 0 \<or> \<not> consentHex (ru_digest r) 64 \<or>
            ru_services r = [] \<and> ru_tlds r = [])))
      else \<not> (ru_auto_update r \<or> ru_tlds r \<noteq> [] \<and>
            (\<not> policyIdentifier (ru_catalog r) \<or> ru_revision r = 0 \<or> \<not> consentHex (ru_digest r) 64))) \<and>
     list_all (\<lambda>t. t \<in> {''ru'', ''xn--p1ai'', ''su''}) (ru_tlds r) \<and> distinct (ru_tlds r)"

definition ValidateNetworkPolicy :: "net_text \<Rightarrow> network_policy option \<Rightarrow> policy_error + unit" where
  "ValidateNetworkPolicy L policy = (case policy of
     None \<Rightarrow> Inr ()
   | Some p \<Rightarrow>
       if np_schema p \<notin> {1, 2} \<or> np_revision p = 0 \<or> np_revision p = -1 then Inl ErrNetworkPolicy
       else if \<not> valid_clients L (np_clients p) then Inl ErrNetworkPolicy
       else if \<not> valid_traffic (np_schema p) (np_traffic p) then Inl ErrNetworkPolicy
       else if length (np_rules p) > 256 then Inl ErrNetworkPolicy
       else if \<not> list_all (valid_rule L) (np_rules p) \<or> \<not> distinct (map nr_id (np_rules p)) then Inl ErrNetworkPolicy
       else if tf_mode (np_traffic p) = ''all_except'' \<and> rules_conflict L (np_rules p) then Inl ErrNetworkPolicy
       else if \<not> ValidateResourceExclusions L (np_exclusions p) then Inl ErrResourceExclusions
       else if \<not> valid_russian (case np_exclusions p of None \<Rightarrow> False | Some x \<Rightarrow> rx_snapshot x \<noteq> None) (np_russian p)
         then Inl ErrNetworkPolicy
       else Inr ())"

definition ValidateAppliedNetworkPolicy :: "net_text \<Rightarrow> network_policy option \<Rightarrow> policy_error + unit" where
  "ValidateAppliedNetworkPolicy L policy = (case ValidateNetworkPolicy L policy of
     Inl e \<Rightarrow> Inl e
   | Inr _ \<Rightarrow> (case policy of
       Some p \<Rightarrow> if tf_default_route (np_traffic p) = ''auto'' then Inl ErrNetworkPolicy else Inr ()
     | None \<Rightarrow> Inr ()))"

definition ValidateListNetworkPolicy :: "net_text \<Rightarrow> network_policy option \<Rightarrow> policy_error + unit" where
  "ValidateListNetworkPolicy L policy = (case ValidateNetworkPolicy L policy of
     Inl e \<Rightarrow> Inl e
   | Inr _ \<Rightarrow> (case policy of
       Some p \<Rightarrow> if tf_mode (np_traffic p) \<noteq> ''selected_services'' then Inl ErrNetworkPolicy else Inr ()
     | None \<Rightarrow> Inr ()))"

section \<open>Effective negatives\<close>

definition no_clients :: client_scope where
  "no_clients = \<lparr>cs_mode = [], cs_segments = [], cs_devices = [], cs_excluded_devices = [], cs_excluded_cidrs = [],
     cs_new_devices = []\<rparr>"

definition no_russian :: russian_exclusions where
  "no_russian = \<lparr>ru_enabled = False, ru_auto_update = False, ru_catalog = [], ru_revision = 0, ru_digest = [],
     ru_services = [], ru_tlds = []\<rparr>"

definition no_effective :: effective_set where
  "no_effective = \<lparr>ef_policy_revision = 0, ef_revision = 0, ef_clients = no_clients, ef_russian_enabled = False,
     ef_snapshot = None, ef_legacy_russian = no_russian, ef_manual = [], ef_russian = [], ef_legacy_rules = [],
     ef_tlds = [], ef_digest = []\<rparr>"

text \<open>A failed normalisation leaves a nil slice.\<close>

definition normalized :: "net_text \<Rightarrow> resource_match list \<Rightarrow> resource_match list" where
  "normalized L ms = (case NormalizeResourceMatches L ms of None \<Rightarrow> [] | Some ns \<Rightarrow> ns)"

fun add_services :: "string list \<Rightarrow> resource_match list \<Rightarrow> resource_match list" where
  "add_services [] ms = ms"
| "add_services (i # is) ms = (let m = \<lparr>mt_kind = ''service'', mt_value = i\<rparr> in
     add_services is (if m \<in> set ms then ms else ms @ [m]))"

definition direct_rules :: "network_rule list \<Rightarrow> network_rule list" where
  "direct_rules rs = map (\<lambda>r. r\<lparr>nr_devices := sort (nr_devices r)\<rparr>) (filter (\<lambda>r. nr_action r = ''direct'') rs)"

definition sorted_clients :: "client_scope \<Rightarrow> client_scope" where
  "sorted_clients c = c\<lparr>cs_segments := sort (cs_segments c), cs_devices := sort (cs_devices c),
     cs_excluded_devices := sort (cs_excluded_devices c), cs_excluded_cidrs := sort (cs_excluded_cidrs c)\<rparr>"

definition effective_of :: "net_text \<Rightarrow> network_policy \<Rightarrow> effective_set" where
  "effective_of L p =
     (let enabled = ru_enabled (np_russian p);
          snapshot = Option.bind (np_exclusions p) rx_snapshot;
          base = (case snapshot of Some s \<Rightarrow> if enabled then rs_entries s else [] | None \<Rightarrow> []);
          legacy = (np_russian p)\<lparr>ru_services := sort (ru_services (np_russian p)), ru_tlds := sort (ru_tlds (np_russian p))\<rparr> in
      \<lparr>ef_policy_revision = np_revision p,
       ef_revision = (case np_exclusions p of Some x \<Rightarrow> rx_revision x | None \<Rightarrow> 0),
       ef_clients = sorted_clients (np_clients p),
       ef_russian_enabled = enabled,
       ef_snapshot = (if enabled then map_option (\<lambda>s. s\<lparr>rs_entries := normalized L (rs_entries s)\<rparr>) snapshot else None),
       ef_legacy_russian = (if enabled then legacy else no_russian),
       ef_manual = (case np_exclusions p of Some x \<Rightarrow> normalized L (rx_manual x) | None \<Rightarrow> []),
       ef_russian = normalized L (if enabled then add_services (ru_services legacy) base else base),
       ef_legacy_rules = sort_key nr_id (direct_rules (np_rules p)),
       ef_tlds = (if enabled then ru_tlds legacy else []),
       ef_digest = []\<rparr>)"

definition EffectiveResourceExclusions :: "net_text \<Rightarrow> network_policy option \<Rightarrow> policy_error + effective_set" where
  "EffectiveResourceExclusions L policy = (case ValidateNetworkPolicy L policy of
     Inl e \<Rightarrow> Inl e
   | Inr _ \<Rightarrow> (let v = (case policy of None \<Rightarrow> no_effective | Some p \<Rightarrow> effective_of L p) in
       Inr (v\<lparr>ef_digest := nt_digest L v\<rparr>)))"

section \<open>Matching a resource\<close>

record resource_target =
  tg_service :: string
  tg_domain :: string
  tg_device :: string
  tg_addr :: ip_addr

definition normalizeResourceTarget :: "net_text \<Rightarrow> resource_target \<Rightarrow> resource_target option" where
  "normalizeResourceTarget L t =
     (if tg_service t = [] \<and> tg_domain t = [] \<and> \<not> addr_valid (tg_addr t) \<or>
         tg_service t \<noteq> [] \<and> \<not> policyIdentifier (tg_service t) \<or> tg_device t \<noteq> [] \<and> \<not> policyIdentifier (tg_device t) then None
      else case (if tg_domain t = [] then Some t
                 else map_option (\<lambda>n. t\<lparr>tg_domain := n\<rparr>) (ResourceHostname L (tg_domain t))) of
        None \<Rightarrow> None
      | Some t' \<Rightarrow> if addr_valid (tg_addr t') \<and> special_addr (tg_addr t') then None else Some t')"

definition resourceMatches :: "net_text \<Rightarrow> resource_match \<Rightarrow> resource_target \<Rightarrow> bool" where
  "resourceMatches L m t =
     (if mt_kind m = ''service'' then tg_service t \<noteq> [] \<and> tg_service t = mt_value m
      else if mt_kind m = ''exact'' then tg_domain t \<noteq> [] \<and> tg_domain t = mt_value m
      else if mt_kind m = ''suffix'' then
        tg_domain t \<noteq> [] \<and> (tg_domain t = mt_value m \<or> has_suffix (tg_domain t) (CHR ''.'' # mt_value m))
      else if mt_kind m = ''ip'' then
        addr_valid (tg_addr t) \<and> (case nt_parse_addr L (mt_value m) of None \<Rightarrow> NoAddr | Some a \<Rightarrow> a) = tg_addr t
      else if mt_kind m = ''cidr'' then
        addr_valid (tg_addr t) \<and> prefix_contains (case nt_parse_prefix L (mt_value m) of None \<Rightarrow> no_prefix | Some p \<Rightarrow> p) (tg_addr t)
      else False)"

definition rule_match :: "network_rule \<Rightarrow> resource_match" where
  "rule_match r = \<lparr>mt_kind = nr_kind r, mt_value = nr_value r\<rparr>"

fun match_rules :: "net_text \<Rightarrow> resource_target \<Rightarrow> network_rule list \<Rightarrow> policy_error + bool" where
  "match_rules L t [] = Inr False"
| "match_rules L t (r # rs) =
     (if \<not> resourceMatches L (rule_match r) t then match_rules L t rs
      else if nr_devices r \<noteq> [] \<and> tg_device t = [] then Inl ErrResourceExclusions
      else if nr_devices r \<noteq> [] \<and> tg_device t \<notin> set (nr_devices r) then match_rules L t rs
      else Inr True)"

definition effective_ok :: "net_text \<Rightarrow> effective_set \<Rightarrow> bool" where
  "effective_ok L v \<longleftrightarrow> canonical_matches L (ef_manual v) \<and> canonical_matches L (ef_russian v) \<and>
     list_all (\<lambda>r. canonical_matches L [rule_match r] \<and> nr_action r = ''direct'' \<and> policyIDs (nr_devices r) 128) (ef_legacy_rules v) \<and>
     list_all (\<lambda>t. t \<in> {''ru'', ''xn--p1ai'', ''su''}) (ef_tlds v)"

definition Matches :: "net_text \<Rightarrow> effective_set \<Rightarrow> resource_target \<Rightarrow> policy_error + bool" where
  "Matches L v target =
     (if \<not> effective_ok L v then Inl ErrResourceExclusions
      else case normalizeResourceTarget L target of
        None \<Rightarrow> Inl ErrResourceExclusions
      | Some t \<Rightarrow>
          if list_ex (\<lambda>m. resourceMatches L m t) (ef_manual v @ ef_russian v) then Inr True
          else (case match_rules L t (ef_legacy_rules v) of
            Inl e \<Rightarrow> Inl e
          | Inr True \<Rightarrow> Inr True
          | Inr False \<Rightarrow>
              Inr (list_ex (\<lambda>tld. tg_domain t \<noteq> [] \<and> has_suffix (tg_domain t) (CHR ''.'' # tld)) (ef_tlds v))))"

definition ResourceExcluded :: "net_text \<Rightarrow> network_policy option \<Rightarrow> resource_target \<Rightarrow> policy_error + bool" where
  "ResourceExcluded L policy t = (case EffectiveResourceExclusions L policy of
     Inl e \<Rightarrow> Inl e
   | Inr v \<Rightarrow> Matches L v t)"

section \<open>Canonical prefixes\<close>

text \<open>What the code relies on of \<open>net/netip\<close>: parsed prefixes are well formed and canonical text parses back.\<close>

definition go_text :: "net_text \<Rightarrow> bool" where
  "go_text L \<longleftrightarrow> (\<forall>v p. nt_parse_prefix L v = Some p \<longrightarrow> wf_prefix p) \<and>
     (\<forall>p. wf_prefix p \<and> p = prefix_masked p \<longrightarrow>
        nt_parse_prefix L (prefix_string L p) = Some p \<and> nt_trim_space L (prefix_string L p) = prefix_string L p)"

lemma keep_twice: "push_bit k (drop_bit k (push_bit k (drop_bit k w))) = push_bit k (drop_bit k w)"
  for w :: "'a::len word"
  by (rule bit_word_eqI) (auto simp: bit_push_bit_iff bit_drop_bit_eq)

lemma keep_keep_bits: "keep_bits n (keep_bits n a) = keep_bits n a"
  by (cases a) (simp_all add: keep_bits_def keep_twice)

lemma masked_wf:
  assumes "wf_prefix p"
  shows "wf_prefix (prefix_masked p)" "prefix_masked (prefix_masked p) = prefix_masked p"
  using assms
  by (cases "px_addr p"; simp add: wf_prefix_def prefix_masked_def prefix_valid_def keep_keep_bits; simp add: keep_bits_def addr_zone_def bit_length_def)+

lemma prefix_from_wf: "a \<noteq> NoAddr \<Longrightarrow> wf_prefix (prefix_from a (bit_length a))"
  by (cases a) (simp_all add: wf_prefix_def prefix_from_def bit_length_def addr_zone_def)

end
