(* ===== verification/Network_Decision.thy ===== *)
theory Network_Decision
  imports Network_Policy "HOL-Library.Multiset"
begin

text \<open>
  \<open>internal/autonomy/network_policy.go\<close>: what one packet of a home client gets
  under the policy and a confirmed observation of the home network, and the
  rejection of address sets that would decide two ways.  The observation is an
  input; the argument \<open>D\<close> stands for \<open>json.Marshal\<close> and \<open>sha256\<close> of the canonical
  policy and observation.
\<close>

section \<open>Data\<close>

record home_segment =
  sg_id :: string
  sg_interface :: string
  sg_prefixes :: "prefix list"
  sg_home :: bool
  sg_wan :: bool

record device_binding =
  dv_id :: string
  dv_mac :: string
  dv_interface :: string
  dv_segment :: string
  dv_confirmed :: bool

record scope_observation =
  so_boot :: string
  so_network :: string
  so_revision :: "64 word"
  so_observed :: time
  so_fresh_until :: time
  so_segments :: "home_segment list"
  so_devices :: "device_binding list"

record client_packet =
  cp_address :: ip_addr
  cp_mac :: string
  cp_interface :: string
  cp_segment :: string

record traffic_question =
  tq_client :: client_packet
  tq_domain :: string
  tq_address :: ip_addr
  tq_service :: string
  tq_selected :: bool
  tq_sources :: "string list"
  tq_explicit :: bool
  tq_protected :: bool
  tq_coverage :: string

record network_decision =
  nd_action :: string
  nd_target :: string
  nd_reason :: string
  nd_rule :: string
  nd_rule_revision :: "64 word"
  nd_policy_revision :: "64 word"
  nd_exclusion_revision :: "64 word"
  nd_exclusion_digest :: string
  nd_scope_digest :: string
  nd_device :: string

type_synonym scope_digest = "network_policy \<times> scope_observation \<Rightarrow> string"

section \<open>Hardware addresses\<close>

definition mac_digit :: "nat \<Rightarrow> char" where
  "mac_digit k = ''0123456789abcdef'' ! (k mod 16)"

fun mac_string :: "nat list \<Rightarrow> string" where
  "mac_string [] = []"
| "mac_string [b] = [mac_digit (b div 16), mac_digit b]"
| "mac_string (b # c # bs) = mac_digit (b div 16) # mac_digit b # CHR '':'' # mac_string (c # bs)"

definition validMAC :: "net_text \<Rightarrow> string \<Rightarrow> string option" where
  "validMAC L value = (case nt_parse_mac L value of
     None \<Rightarrow> None
   | Some mac \<Rightarrow>
       if length mac \<noteq> 6 \<or> odd (mac ! 0) \<or> mac_string mac = ''00:00:00:00:00:00'' then None else Some (mac_string mac))"

definition sameMAC :: "net_text \<Rightarrow> string \<Rightarrow> string \<Rightarrow> bool" where
  "sameMAC L a b = (case (validMAC L a, validMAC L b) of (Some x, Some y) \<Rightarrow> x = y | _ \<Rightarrow> False)"

section \<open>The client\<close>

definition observation_unavailable :: "scope_observation \<Rightarrow> time \<Rightarrow> bool" where
  "observation_unavailable ob now \<longleftrightarrow>
     so_boot ob = [] \<or> so_network ob = [] \<or> so_revision ob = 0 \<or> time_before now (so_observed ob) \<or>
     \<not> time_before now (so_fresh_until ob) \<or> time_sub (so_fresh_until ob) (so_observed ob) > 2 * minute \<or>
     length (so_segments ob) > 16 \<or> length (so_devices ob) > 512"

definition client_segment :: "scope_observation \<Rightarrow> client_packet \<Rightarrow> home_segment option" where
  "client_segment ob client = (case filter (\<lambda>s. sg_id s = cp_segment client) (so_segments ob) of
     [s] \<Rightarrow>
       if \<not> sg_home s \<or> sg_wan s \<or> sg_interface s = [] \<or> sg_interface s \<noteq> cp_interface client \<or>
          sg_prefixes s = [] \<or> length (sg_prefixes s) > 16 then None
       else if list_ex (\<lambda>p. px_bits p = 0 \<or> \<not> prefix_valid p \<or> p \<noteq> prefix_masked p) (sg_prefixes s) then None
       else Some s
   | _ \<Rightarrow> None)"

definition client_inside :: "home_segment \<Rightarrow> ip_addr \<Rightarrow> bool" where
  "client_inside s a \<longleftrightarrow> list_ex (\<lambda>p. prefix_contains p a) (sg_prefixes s) \<and>
     addr_valid a \<and> \<not> is_4in6 a \<and> addr_zone a = [] \<and> \<not> is_loopback a \<and> \<not> is_multicast a \<and> \<not> is_unspecified a"

definition client_device :: "net_text \<Rightarrow> home_segment \<Rightarrow> client_packet \<Rightarrow> device_binding \<Rightarrow> bool" where
  "client_device L s client b \<longleftrightarrow>
     dv_confirmed b \<and> dv_segment b = sg_id s \<and> dv_interface b = cp_interface client \<and> sameMAC L (dv_mac b) (cp_mac client)"

fun scan_devices :: "net_text \<Rightarrow> home_segment \<Rightarrow> client_packet \<Rightarrow> (string \<rightharpoonup> device_binding) \<Rightarrow> string \<Rightarrow>
    device_binding list \<Rightarrow> ((string \<rightharpoonup> device_binding) \<times> string) option" where
  "scan_devices L s client bindings device [] = Some (bindings, device)"
| "scan_devices L s client bindings device (b # bs) =
     (if bindings (dv_id b) \<noteq> None then None
      else if client_device L s client b then
        (if device \<noteq> [] then None else scan_devices L s client (bindings(dv_id b \<mapsto> b)) (dv_id b) bs)
      else scan_devices L s client (bindings(dv_id b \<mapsto> b)) device bs)"

definition negative_devices :: "network_policy \<Rightarrow> string list" where
  "negative_devices p = cs_excluded_devices (np_clients p) @
     concat (map nr_devices (filter (\<lambda>r. nr_action r = ''direct'') (np_rules p)))"

definition unresolved_negative :: "net_text \<Rightarrow> home_segment \<Rightarrow> (string \<rightharpoonup> device_binding) \<Rightarrow> string \<Rightarrow> bool" where
  "unresolved_negative L s bindings i = (case bindings i of
     None \<Rightarrow> True
   | Some b \<Rightarrow>
       (\<not> dv_confirmed b \<or> validMAC L (dv_mac b) = None \<or> dv_interface b = [] \<or> dv_segment b = [] \<or>
        dv_segment b = sg_id s \<and> dv_interface b \<noteq> sg_interface s) \<and>
       (dv_segment b = [] \<or> dv_segment b = sg_id s))"

definition prefix_or_none :: "net_text \<Rightarrow> string \<Rightarrow> prefix" where
  "prefix_or_none L v = (case nt_parse_prefix L v of None \<Rightarrow> no_prefix | Some p \<Rightarrow> p)"

definition clientScope :: "net_text \<Rightarrow> network_policy \<Rightarrow> scope_observation \<Rightarrow> client_packet \<Rightarrow> time \<Rightarrow> string \<times> string" where
  "clientScope L p ob client now =
     (if observation_unavailable ob now then (''SCOPE_UNAVAILABLE'', [])
      else if cp_segment client \<notin> set (cs_segments (np_clients p)) then (''OUTSIDE_SCOPE'', [])
      else if validMAC L (cp_mac client) = None then (''SCOPE_UNAVAILABLE'', [])
      else case client_segment ob client of
        None \<Rightarrow> (''SCOPE_UNAVAILABLE'', [])
      | Some s \<Rightarrow>
          if \<not> client_inside s (cp_address client) then (''OUTSIDE_SCOPE'', [])
          else case scan_devices L s client Map.empty [] (so_devices ob) of
            None \<Rightarrow> (''SCOPE_UNAVAILABLE'', [])
          | Some (bindings, device) \<Rightarrow>
              if list_ex (unresolved_negative L s bindings) (negative_devices p) then (''SCOPE_UNAVAILABLE'', device)
              else if device \<in> set (cs_excluded_devices (np_clients p)) then (''DEVICE_EXCLUDED'', device)
              else if list_ex (\<lambda>v. prefix_contains (prefix_or_none L v) (cp_address client)) (cs_excluded_cidrs (np_clients p))
                then (''ADDRESS_EXCLUDED'', device)
              else if cs_mode (np_clients p) = ''selected_devices'' \<and> device \<notin> set (cs_devices (np_clients p)) \<or>
                  cs_mode (np_clients p) = ''lan_except'' \<and> cs_new_devices (np_clients p) = ''base'' \<and> device = []
                then (''OUTSIDE_SCOPE'', device)
              else ([], device))"

section \<open>Rules\<close>

definition ruleMatches :: "net_text \<Rightarrow> network_rule \<Rightarrow> traffic_question \<Rightarrow> string \<Rightarrow> bool" where
  "ruleMatches L r q device =
     (if nr_devices r \<noteq> [] \<and> device \<notin> set (nr_devices r) then False
      else if nr_kind r = ''service'' then tq_service q \<noteq> [] \<and> tq_service q = nr_value r
      else if nr_kind r = ''exact'' then tq_domain q = nr_value r
      else if nr_kind r = ''suffix'' then tq_domain q = nr_value r \<or> has_suffix (tq_domain q) (CHR ''.'' # nr_value r)
      else if nr_kind r = ''ip'' then tq_address q = (case nt_parse_addr L (nr_value r) of None \<Rightarrow> NoAddr | Some a \<Rightarrow> a)
      else if nr_kind r = ''cidr'' then prefix_contains (prefix_or_none L (nr_value r)) (tq_address q)
      else False)"

text \<open>The loop over the rules keeps, for either action, the matching rule of the smallest identifier.\<close>

definition smaller_rule :: "network_rule \<Rightarrow> network_rule option \<Rightarrow> network_rule option" where
  "smaller_rule r best = (case best of None \<Rightarrow> Some r | Some b \<Rightarrow> if nr_id r < nr_id b then Some r else Some b)"

fun pick_rules :: "(network_rule \<Rightarrow> bool) \<Rightarrow> network_rule option \<times> network_rule option \<Rightarrow> network_rule list \<Rightarrow>
    network_rule option \<times> network_rule option" where
  "pick_rules m best [] = best"
| "pick_rules m (direct, bypass) (r # rs) =
     (if \<not> m r then pick_rules m (direct, bypass) rs
      else if nr_action r = ''direct'' then pick_rules m (smaller_rule r direct, bypass) rs
      else pick_rules m (direct, smaller_rule r bypass) rs)"

definition russian_match :: "network_policy \<Rightarrow> traffic_question \<Rightarrow> bool" where
  "russian_match p q \<longleftrightarrow> ru_enabled (np_russian p) \<and>
     (tq_service q \<noteq> [] \<and> tq_service q \<in> set (ru_services (np_russian p)) \<or>
      list_ex (\<lambda>tld. tq_domain q \<noteq> [] \<and> has_suffix (tq_domain q) (CHR ''.'' # tld)) (ru_tlds (np_russian p)))"

definition source_bad :: "net_text \<Rightarrow> string \<Rightarrow> bool" where
  "source_bad L v = (case nt_parse_prefix L v of
     None \<Rightarrow> True
   | Some p \<Rightarrow> \<not> prefix_valid p \<or> px_bits p = 0 \<or> p \<noteq> prefix_masked p \<or> is_4in6 (px_addr p))"

section \<open>The scope digest\<close>

definition canonical_policy :: "network_policy \<Rightarrow> network_policy" where
  "canonical_policy p = p\<lparr>np_clients := sorted_clients (np_clients p),
     np_russian := (np_russian p)\<lparr>ru_services := sort (ru_services (np_russian p)), ru_tlds := sort (ru_tlds (np_russian p))\<rparr>,
     np_rules := sort_key nr_id (map (\<lambda>r. r\<lparr>nr_devices := sort (nr_devices r)\<rparr>) (np_rules p))\<rparr>"

definition canonical_observation :: "net_text \<Rightarrow> scope_observation \<Rightarrow> scope_observation" where
  "canonical_observation L ob = ob\<lparr>so_observed := zero_time, so_fresh_until := zero_time,
     so_segments := sort_key sg_id (map (\<lambda>s. s\<lparr>sg_prefixes := sort_key (prefix_string L) (sg_prefixes s)\<rparr>) (so_segments ob)),
     so_devices := sort_key dv_id (map (\<lambda>b. case validMAC L (dv_mac b) of None \<Rightarrow> b | Some m \<Rightarrow> b\<lparr>dv_mac := m\<rparr>) (so_devices ob))\<rparr>"

definition networkScopeDigest :: "net_text \<Rightarrow> scope_digest \<Rightarrow> network_policy \<Rightarrow> scope_observation \<Rightarrow> string" where
  "networkScopeDigest L D p ob = D (canonical_policy p, canonical_observation L ob)"

section \<open>The decision\<close>

definition routeDecision :: "network_policy \<Rightarrow> traffic_question \<Rightarrow> network_decision \<Rightarrow> string \<Rightarrow> network_decision" where
  "routeDecision p q d reason =
     (if tf_mode (np_traffic p) \<noteq> ''selected_services'' \<or> \<not> tq_selected q \<or> tq_service q = []
      then d\<lparr>nd_action := ''unavailable'', nd_reason := ''LIST_ROUTE_UNAVAILABLE''\<rparr>
      else d\<lparr>nd_action := ''bypass'', nd_target := ''service'', nd_reason := reason\<rparr>)"

definition refused :: network_decision where
  "refused = \<lparr>nd_action = ''unavailable'', nd_target = [], nd_reason = ''POLICY_INVALID'', nd_rule = [], nd_rule_revision = 0,
     nd_policy_revision = 0, nd_exclusion_revision = 0, nd_exclusion_digest = [], nd_scope_digest = [], nd_device = []\<rparr>"

text \<open>The part after the negatives: the list mode, the sources of the service, the positive rules.\<close>

definition decide_positive :: "net_text \<Rightarrow> network_policy \<Rightarrow> traffic_question \<Rightarrow> network_rule option \<Rightarrow> network_decision \<Rightarrow> network_decision" where
  "decide_positive L p q bypass d =
     (if tf_mode (np_traffic p) \<noteq> ''selected_services'' then d\<lparr>nd_reason := ''LIST_MODE_REQUIRED''\<rparr>
      else if length (tq_sources q) > 128 \<or> list_ex (source_bad L) (tq_sources q) then d\<lparr>nd_reason := ''SCOPE_UNAVAILABLE''\<rparr>
      else let mismatch = tq_sources q \<noteq> [] \<and>
                 \<not> list_ex (\<lambda>v. prefix_contains (prefix_or_none L v) (cp_address (tq_client q))) (tq_sources q);
               q = (if mismatch then q\<lparr>tq_selected := False\<rparr> else q);
               d = (if mismatch then d\<lparr>nd_reason := ''SERVICE_SCOPE_MISMATCH''\<rparr> else d)
        in case bypass of
          Some r \<Rightarrow> routeDecision p q (d\<lparr>nd_rule := nr_id r, nd_rule_revision := nr_revision r\<rparr>) ''MANUAL_BYPASS_OVERRIDE''
        | None \<Rightarrow>
            if tq_explicit q then routeDecision p q d ''MANUAL_BYPASS_OVERRIDE''
            else if tq_selected q then routeDecision p q d ''SERVICE_OVERRIDE''
            else d\<lparr>nd_action := ''base'', nd_reason := (if mismatch then nd_reason d else ''UNSELECTED_DESTINATION'')\<rparr>)"

definition question_target :: "traffic_question \<Rightarrow> string \<Rightarrow> resource_target" where
  "question_target q device = \<lparr>tg_service = tq_service q, tg_domain = tq_domain q, tg_device = device, tg_addr = tq_address q\<rparr>"

definition decide_question :: "net_text \<Rightarrow> network_policy \<Rightarrow> traffic_question \<Rightarrow> string \<Rightarrow> network_decision \<Rightarrow> network_decision" where
  "decide_question L p q device d = (case EffectiveResourceExclusions L (Some p) of
     Inl _ \<Rightarrow> d\<lparr>nd_reason := ''RESOURCE_EXCLUSIONS_UNAVAILABLE''\<rparr>
   | Inr ex \<Rightarrow>
       let d = d\<lparr>nd_exclusion_revision := ef_revision ex, nd_exclusion_digest := ef_digest ex\<rparr> in
       case pick_rules (\<lambda>r. ruleMatches L r q device) (None, None) (np_rules p) of
         (Some r, _) \<Rightarrow> d\<lparr>nd_action := ''base'', nd_reason := ''MANUAL_DIRECT'', nd_rule := nr_id r, nd_rule_revision := nr_revision r\<rparr>
       | (None, bypass) \<Rightarrow>
           if russian_match p q then d\<lparr>nd_action := ''base'', nd_reason := ''RU_CATALOG_DIRECT'',
             nd_rule := ru_catalog (np_russian p), nd_rule_revision := ru_revision (np_russian p)\<rparr>
           else case (if tq_service q \<noteq> [] \<or> tq_domain q \<noteq> [] \<or> addr_valid (tq_address q)
                      then Matches L ex (question_target q device) else Inr False) of
             Inl _ \<Rightarrow> d\<lparr>nd_reason := ''RESOURCE_IDENTITY_UNAVAILABLE''\<rparr>
           | Inr True \<Rightarrow> d\<lparr>nd_action := ''base'', nd_reason := ''RESOURCE_EXCLUDED'', nd_rule_revision := ef_revision ex\<rparr>
           | Inr False \<Rightarrow> decide_positive L p q bypass d)"

definition normal_question :: "net_text \<Rightarrow> traffic_question \<Rightarrow> traffic_question option" where
  "normal_question L q =
     (if tq_domain q = [] then Some q
      else map_option (\<lambda>n. q\<lparr>tq_domain := n\<rparr>) (PolicyDomain L (tq_domain q)))"

definition DecideNetworkPolicy :: "net_text \<Rightarrow> scope_digest \<Rightarrow> network_policy option \<Rightarrow> scope_observation \<Rightarrow> traffic_question \<Rightarrow> time \<Rightarrow> network_decision" where
  "DecideNetworkPolicy L D policy ob q now = (case policy of
     None \<Rightarrow> refused
   | Some p \<Rightarrow>
       if ValidateNetworkPolicy L policy \<noteq> Inr () then refused
       else let d = refused\<lparr>nd_policy_revision := np_revision p\<rparr> in
         if tq_protected q then d\<lparr>nd_action := ''base'', nd_reason := ''PROTECTED_DESTINATION''\<rparr>
         else case clientScope L p ob (tq_client q) now of (reason, device) \<Rightarrow>
           let d = d\<lparr>nd_device := device\<rparr> in
           if reason \<noteq> [] then
             d\<lparr>nd_reason := reason, nd_action := (if reason = ''SCOPE_UNAVAILABLE'' then nd_action d else ''base'')\<rparr>
           else let d = d\<lparr>nd_scope_digest := networkScopeDigest L D p ob\<rparr> in
             case normal_question L q of
               None \<Rightarrow> d\<lparr>nd_reason := ''DOMAIN_IDENTITY_UNAVAILABLE''\<rparr>
             | Some q' \<Rightarrow> decide_question L p q' device d)"

section \<open>Shared addresses\<close>

record address_decision =
  ad_interface :: string
  ad_sources :: "prefix list"
  ad_mac :: string
  ad_address :: ip_addr
  ad_domain :: string
  ad_action :: string

record seen_entry =
  se_source :: prefix
  se_mac :: string
  se_action :: string

type_synonym seen_key = "string \<times> ip_addr"
type_synonym seen_map = "seen_key \<Rightarrow> seen_entry list"

definition entries_conflict :: "seen_entry \<Rightarrow> seen_entry \<Rightarrow> bool" where
  "entries_conflict new previous \<longleftrightarrow> se_action previous \<noteq> se_action new \<and>
     (se_mac previous = [] \<or> se_mac new = [] \<or> se_mac previous = se_mac new) \<and>
     prefix_overlaps (se_source new) (se_source previous)"

text \<open>\<open>None\<close> is the early return of true.\<close>

fun add_sources :: "seen_key \<Rightarrow> string \<Rightarrow> string \<Rightarrow> prefix list \<Rightarrow> seen_map \<times> nat \<Rightarrow> (seen_map \<times> nat) option" where
  "add_sources k mac action [] st = Some st"
| "add_sources k mac action (source # ss) (seen, n) =
     (if \<not> prefix_valid source \<or> px_bits source = 0 \<or> source \<noteq> prefix_masked source \<or> is_4in6 (px_addr source) then None
      else if n + 1 > 32768 \<or> length (seen k) \<ge> 256 then None
      else let e = \<lparr>se_source = source, se_mac = mac, se_action = action\<rparr> in
        if list_ex (entries_conflict e) (seen k) then None
        else add_sources k mac action ss (seen(k := seen k @ [e]), n + 1))"

definition decision_mac :: "net_text \<Rightarrow> address_decision \<Rightarrow> string option" where
  "decision_mac L d = (if ad_mac d = [] then Some [] else validMAC L (ad_mac d))"

definition decision_ok :: "address_decision \<Rightarrow> bool" where
  "decision_ok d \<longleftrightarrow> ad_interface d \<noteq> [] \<and> addr_valid (ad_address d) \<and> addr_zone (ad_address d) = [] \<and>
     ad_action d \<in> {''base'', ''bypass''} \<and> ad_sources d \<noteq> [] \<and> length (ad_sources d) \<le> 32"

fun conflict_loop :: "net_text \<Rightarrow> address_decision list \<Rightarrow> seen_map \<times> nat \<Rightarrow> bool" where
  "conflict_loop L [] st = False"
| "conflict_loop L (d # ds) st =
     (if \<not> decision_ok d then True
      else case decision_mac L d of
        None \<Rightarrow> True
      | Some mac \<Rightarrow> (case add_sources (ad_interface d, addr_unmap (ad_address d)) mac (ad_action d) (ad_sources d) st of
          None \<Rightarrow> True
        | Some st' \<Rightarrow> conflict_loop L ds st'))"

definition SharedAddressConflict :: "net_text \<Rightarrow> address_decision list \<Rightarrow> bool" where
  "SharedAddressConflict L ds = (if length ds > 8192 then True else conflict_loop L ds (\<lambda>_. [], 0))"

end
