(* ===== verification/Network_Properties.thy ===== *)
theory Network_Properties
  imports Network_Decision
begin

text \<open>
  What the network policy decides: a bypass only for a client and a question
  the policy and the observation cover, the same decision in whatever order
  rules, segments and devices are listed, and the exact meaning of a conflict
  between shared addresses.
\<close>

section \<open>The client scope\<close>

definition device_of_client :: "net_text \<Rightarrow> client_packet \<Rightarrow> device_binding \<Rightarrow> bool" where
  "device_of_client L client b \<longleftrightarrow>
     dv_confirmed b \<and> dv_segment b = cp_segment client \<and> dv_interface b = cp_interface client \<and> sameMAC L (dv_mac b) (cp_mac client)"

lemma scan_devices_some:
  assumes "scan_devices L s c B dv bs = Some (B', dv')"
  shows "(dv' = dv \<or> (\<exists>b\<in>set bs. client_device L s c b \<and> dv_id b = dv')) \<and>
    (dv \<noteq> [] \<longrightarrow> dv' = dv) \<and> (\<forall>b\<in>set bs. client_device L s c b \<and> dv_id b \<noteq> [] \<longrightarrow> dv_id b = dv')"
  using assms
proof (induction bs arbitrary: B dv)
  case (Cons b bs)
  show ?case
  proof (cases "client_device L s c b")
    case True
    with Cons.prems have "dv = []" "scan_devices L s c (B(dv_id b \<mapsto> b)) (dv_id b) bs = Some (B', dv')"
      by (auto split: if_splits)
    from Cons.IH [OF this(2)] True \<open>dv = []\<close> show ?thesis by auto
  next
    case False
    with Cons.prems have "scan_devices L s c (B(dv_id b \<mapsto> b)) dv bs = Some (B', dv')" by (auto split: if_splits)
    from Cons.IH [OF this] False show ?thesis by auto
  qed
qed simp

text \<open>What the scope promises of a client it admits.\<close>

definition client_admitted :: "net_text \<Rightarrow> network_policy \<Rightarrow> scope_observation \<Rightarrow> client_packet \<Rightarrow> time \<Rightarrow> bool" where
  "client_admitted L p ob c now \<longleftrightarrow>
     so_observed ob \<le> now \<and> now < so_fresh_until ob \<and> so_fresh_until ob - so_observed ob \<le> 2 * minute \<and>
     cp_segment c \<in> set (cs_segments (np_clients p)) \<and>
     (\<exists>s\<in>set (so_segments ob). sg_id s = cp_segment c \<and> sg_interface s = cp_interface c \<and> sg_home s \<and> \<not> sg_wan s \<and>
        (\<exists>x\<in>set (sg_prefixes s). px_bits x \<noteq> 0 \<and> prefix_contains x (cp_address c))) \<and>
     (\<forall>b\<in>set (so_devices ob). device_of_client L c b \<longrightarrow> dv_id b \<notin> set (cs_excluded_devices (np_clients p))) \<and>
     (\<forall>v\<in>set (cs_excluded_cidrs (np_clients p)). \<not> prefix_contains (prefix_or_none L v) (cp_address c)) \<and>
     (cs_mode (np_clients p) = ''selected_devices'' \<longrightarrow>
        (\<exists>b\<in>set (so_devices ob). device_of_client L c b \<and> dv_id b \<in> set (cs_devices (np_clients p))))"

lemma client_segment_some:
  assumes "client_segment ob c = Some s"
  shows "s \<in> set (so_segments ob) \<and> sg_id s = cp_segment c \<and> sg_interface s = cp_interface c \<and> sg_home s \<and> \<not> sg_wan s \<and>
    (\<forall>x\<in>set (sg_prefixes s). px_bits x \<noteq> 0)"
proof -
  from assms obtain t where t: "filter (\<lambda>s. sg_id s = cp_segment c) (so_segments ob) = [t]"
    by (auto simp: client_segment_def split: list.splits)
  then have "t \<in> set (so_segments ob) \<and> sg_id t = cp_segment c"
    using filter_set [of "\<lambda>s. sg_id s = cp_segment c" "so_segments ob"] by (auto simp: set_eq_iff)
  with t assms show ?thesis by (auto simp: client_segment_def list_ex_iff simp del: filter_eq_Cons_iff split: if_splits)
qed

lemma clientScope_admitted:
  assumes "clientScope L p ob c now = ([], dv)" "valid_clients L (np_clients p)"
  shows "client_admitted L p ob c now"
proof -
  from assms(1) obtain s B where s: "client_segment ob c = Some s" and inside: "client_inside s (cp_address c)"
    and scan: "scan_devices L s c Map.empty [] (so_devices ob) = Some (B, dv)"
    and rest: "\<not> observation_unavailable ob now" "cp_segment c \<in> set (cs_segments (np_clients p))"
      "dv \<notin> set (cs_excluded_devices (np_clients p))"
      "\<not> list_ex (\<lambda>v. prefix_contains (prefix_or_none L v) (cp_address c)) (cs_excluded_cidrs (np_clients p))"
      "cs_mode (np_clients p) = ''selected_devices'' \<longrightarrow> dv \<in> set (cs_devices (np_clients p))"
    by (auto simp: clientScope_def split: if_splits option.splits)
  from assms(2) have ids: "[] \<notin> set (cs_excluded_devices (np_clients p))" "[] \<notin> set (cs_devices (np_clients p))"
    by (auto simp: valid_clients_def policyIDs_def policyIdentifier_def list_all_iff split: list.splits)
  note seg = client_segment_some [OF s]
  have dev: "client_device L s c b = device_of_client L c b" for b
    using seg by (simp add: client_device_def device_of_client_def)
  from rest(1) have time: "so_observed ob \<le> now" "now < so_fresh_until ob" "so_fresh_until ob - so_observed ob \<le> 2 * minute"
    by (auto simp: observation_unavailable_def time_before_def time_sub_le_iff minute_def second_def not_less)
  from inside seg have "\<exists>x\<in>set (sg_prefixes s). px_bits x \<noteq> 0 \<and> prefix_contains x (cp_address c)"
    by (auto simp: client_inside_def list_ex_iff)
  then have segment: "\<exists>t\<in>set (so_segments ob). sg_id t = cp_segment c \<and> sg_interface t = cp_interface c \<and> sg_home t \<and>
      \<not> sg_wan t \<and> (\<exists>x\<in>set (sg_prefixes t). px_bits x \<noteq> 0 \<and> prefix_contains x (cp_address c))"
    using seg by blast
  have bound: "(dv = [] \<or> (\<exists>b\<in>set (so_devices ob). device_of_client L c b \<and> dv_id b = dv)) \<and>
      (\<forall>b\<in>set (so_devices ob). device_of_client L c b \<and> dv_id b \<noteq> [] \<longrightarrow> dv_id b = dv)"
    using scan_devices_some [OF scan] by (simp add: dev)
  then have "\<forall>b\<in>set (so_devices ob). device_of_client L c b \<longrightarrow> dv_id b \<notin> set (cs_excluded_devices (np_clients p))"
    using ids(1) rest(3) by metis
  moreover have "cs_mode (np_clients p) = ''selected_devices'' \<longrightarrow>
      (\<exists>b\<in>set (so_devices ob). device_of_client L c b \<and> dv_id b \<in> set (cs_devices (np_clients p)))"
    using bound ids(2) rest(5) by metis
  ultimately show ?thesis
    using time segment rest(2,4) by (simp add: client_admitted_def list_ex_iff)
qed

section \<open>A bypass is earned\<close>

lemma pick_rules_direct:
  "fst (pick_rules m (d, b) rs) = None \<longleftrightarrow> d = None \<and> (\<forall>r\<in>set rs. m r \<longrightarrow> nr_action r \<noteq> ''direct'')"
  by (induction rs arbitrary: d b) (auto simp: smaller_rule_def split: option.splits)

lemma routeDecision_bypass:
  assumes "nd_action (routeDecision p q d reason) = ''bypass''"
  shows "tf_mode (np_traffic p) = ''selected_services'' \<and> tq_selected q \<and> tq_service q \<noteq> []"
  using assms by (auto simp: routeDecision_def split: if_splits)

lemma decide_positive_bypass:
  assumes "nd_action (decide_positive L p q bypass d) = ''bypass''" "nd_action d \<noteq> ''bypass''"
  shows "tf_mode (np_traffic p) = ''selected_services'' \<and> tq_selected q \<and> tq_service q \<noteq> [] \<and>
    (tq_sources q = [] \<or> (\<exists>v\<in>set (tq_sources q). prefix_contains (prefix_or_none L v) (cp_address (tq_client q))))"
  using assms
  by (auto simp: decide_positive_def Let_def list_ex_iff split: if_splits option.splits dest!: routeDecision_bypass)

lemma decide_question_bypass:
  assumes "nd_action (decide_question L p q dv d) = ''bypass''" "nd_action d \<noteq> ''bypass''"
  shows "(\<forall>r\<in>set (np_rules p). nr_action r = ''direct'' \<longrightarrow> \<not> ruleMatches L r q dv) \<and> \<not> russian_match p q \<and>
    ResourceExcluded L (Some p) (question_target q dv) = Inr False \<and>
    tf_mode (np_traffic p) = ''selected_services'' \<and> tq_selected q \<and> tq_service q \<noteq> [] \<and>
    (tq_sources q = [] \<or> (\<exists>v\<in>set (tq_sources q). prefix_contains (prefix_or_none L v) (cp_address (tq_client q))))"
proof -
  from assms obtain ex where ex: "EffectiveResourceExclusions L (Some p) = Inr ex"
    by (auto simp: decide_question_def split: sum.splits)
  let ?d = "d\<lparr>nd_exclusion_revision := ef_revision ex, nd_exclusion_digest := ef_digest ex\<rparr>"
  obtain direct bypass where pick: "pick_rules (\<lambda>r. ruleMatches L r q dv) (None, None) (np_rules p) = (direct, bypass)" by force
  have direct: "direct = None"
    using assms ex pick by (auto simp: decide_question_def Let_def split: option.splits)
  then have rules: "\<forall>r\<in>set (np_rules p). nr_action r = ''direct'' \<longrightarrow> \<not> ruleMatches L r q dv"
    using pick_rules_direct [of "\<lambda>r. ruleMatches L r q dv" None None "np_rules p"] pick by auto
  have ru: "\<not> russian_match p q"
    using assms ex pick direct by (auto simp: decide_question_def Let_def)
  obtain m where m: "(if tq_service q \<noteq> [] \<or> tq_domain q \<noteq> [] \<or> addr_valid (tq_address q)
      then Matches L ex (question_target q dv) else Inr False) = Inr m"
    using assms ex pick direct ru by (auto simp: decide_question_def Let_def split: sum.splits)
  have "\<not> m"
    using assms ex pick direct ru m by (auto simp: decide_question_def Let_def)
  then have "nd_action (decide_positive L p q bypass ?d) = ''bypass''"
    using assms ex pick direct ru m by (simp add: decide_question_def Let_def)
  from decide_positive_bypass [OF this] assms(2) rules ru m \<open>\<not> m\<close> ex show ?thesis
    by (simp add: ResourceExcluded_def split: if_splits)
qed

lemma decide_positive_device: "nd_device (decide_positive L p q bypass d) = nd_device d"
  by (simp add: decide_positive_def routeDecision_def Let_def split: option.splits)

lemma decide_question_device: "nd_device (decide_question L p q dv d) = nd_device d"
  by (auto simp: decide_question_def Let_def decide_positive_device split: sum.splits option.splits prod.splits bool.splits)

lemma valid_policy_clients:
  "ValidateNetworkPolicy L (Some p) = Inr () \<Longrightarrow> valid_clients L (np_clients p)"
  by (simp add: ValidateNetworkPolicy_def split: if_splits)

text \<open>
  C31: a bypass is decided only under a valid policy in list mode, for an
  unprotected destination, a client the fresh observation admits (on a home
  segment of the policy, with no excluded device or address), a service that
  is selected and whose sources cover the client, and when no direct rule and
  no resource exclusion matches the question with its domain normalised.
\<close>

theorem bypass_earned:
  assumes "nd_action (DecideNetworkPolicy L D policy ob q now) = ''bypass''"
  shows "\<exists>p q' dv. policy = Some p \<and> ValidateNetworkPolicy L policy = Inr () \<and>
    tf_mode (np_traffic p) = ''selected_services'' \<and> \<not> tq_protected q \<and>
    client_admitted L p ob (tq_client q) now \<and> normal_question L q = Some q' \<and>
    tq_selected q \<and> tq_service q \<noteq> [] \<and>
    (tq_sources q = [] \<or> (\<exists>v\<in>set (tq_sources q). prefix_contains (prefix_or_none L v) (cp_address (tq_client q)))) \<and>
    (\<forall>r\<in>set (np_rules p). nr_action r = ''direct'' \<longrightarrow> \<not> ruleMatches L r q' dv) \<and>
    dv = nd_device (DecideNetworkPolicy L D policy ob q now) \<and>
    ResourceExcluded L policy (question_target q' dv) = Inr False"
proof -
  from assms obtain p where p: "policy = Some p" "ValidateNetworkPolicy L (Some p) = Inr ()"
    by (auto simp: DecideNetworkPolicy_def refused_def split: option.splits if_splits)
  with assms have protected: "\<not> tq_protected q"
    by (auto simp: DecideNetworkPolicy_def refused_def)
  obtain reason dv where scope: "clientScope L p ob (tq_client q) now = (reason, dv)" by force
  with assms p protected have reason: "reason = []"
    by (auto simp: DecideNetworkPolicy_def refused_def Let_def split: if_splits)
  with assms p protected scope obtain q' where q': "normal_question L q = Some q'"
    by (auto simp: DecideNetworkPolicy_def refused_def Let_def split: option.splits)
  from assms p protected scope reason q' have
    "nd_action (decide_question L p q' dv (refused\<lparr>nd_policy_revision := np_revision p, nd_device := dv,
       nd_scope_digest := networkScopeDigest L D p ob\<rparr>)) = ''bypass''"
    by (simp add: DecideNetworkPolicy_def Let_def)
  from decide_question_bypass [OF this] have earned: "(\<forall>r\<in>set (np_rules p). nr_action r = ''direct'' \<longrightarrow> \<not> ruleMatches L r q' dv) \<and>
    ResourceExcluded L (Some p) (question_target q' dv) = Inr False \<and>
    tf_mode (np_traffic p) = ''selected_services'' \<and> tq_selected q' \<and> tq_service q' \<noteq> [] \<and>
    (tq_sources q' = [] \<or> (\<exists>v\<in>set (tq_sources q'). prefix_contains (prefix_or_none L v) (cp_address (tq_client q'))))"
    by (simp add: refused_def)
  have device: "nd_device (DecideNetworkPolicy L D policy ob q now) = dv"
    using p protected scope reason q' by (simp add: DecideNetworkPolicy_def Let_def decide_question_device)
  from q' have "tq_selected q' = tq_selected q" "tq_service q' = tq_service q" "tq_sources q' = tq_sources q" "tq_client q' = tq_client q"
    by (auto simp: normal_question_def split: if_splits)
  with earned device p protected q' clientScope_admitted [OF _ valid_policy_clients [OF p(2)]] scope reason show ?thesis
    by auto
qed

section \<open>Order independence\<close>

lemma prefix_overlaps_sym: "prefix_overlaps p q = prefix_overlaps q p"
  by (auto simp: prefix_overlaps_def Let_def min.commute)

lemma NetworkRulesOverlap_sym: "NetworkRulesOverlap L a b = NetworkRulesOverlap L b a"
proof -
  have devices: "list_ex (\<lambda>d. d \<in> set (nr_devices b)) (nr_devices a) = list_ex (\<lambda>d. d \<in> set (nr_devices a)) (nr_devices b)"
    by (auto simp: list_ex_iff)
  show ?thesis
  proof (cases "rule_prefix L a")
    case None
    then show ?thesis unfolding NetworkRulesOverlap_def devices by (cases "rule_prefix L b") auto
  next
    case (Some x)
    then show ?thesis
      unfolding NetworkRulesOverlap_def devices by (cases "rule_prefix L b") (auto simp: prefix_overlaps_sym)
  qed
qed

lemma rules_conflict_iff:
  "rules_conflict L rs \<longleftrightarrow>
     (\<exists>a\<in>set rs. \<exists>b\<in>set rs. nr_mandatory a \<and> nr_mandatory b \<and> nr_action a \<noteq> nr_action b \<and> NetworkRulesOverlap L a b)"
  by (induction rs) (auto simp: list_ex_iff NetworkRulesOverlap_sym)

lemma rules_conflict_mset:
  assumes "mset rs' = mset rs"
  shows "rules_conflict L rs' = rules_conflict L rs"
  using mset_eq_setD [OF assms] by (simp add: rules_conflict_iff)

text \<open>The smallest matching rule does not depend on the order of distinct identifiers.\<close>

definition least_rule :: "(network_rule \<Rightarrow> bool) \<Rightarrow> network_rule set \<Rightarrow> network_rule option \<Rightarrow> bool" where
  "least_rule P S best = (case best of
     None \<Rightarrow> \<forall>r\<in>S. \<not> P r
   | Some b \<Rightarrow> b \<in> S \<and> P b \<and> (\<forall>r\<in>S. P r \<longrightarrow> nr_id b \<le> nr_id r))"

lemma least_rule_smaller:
  "least_rule P S best \<Longrightarrow> P r \<Longrightarrow> least_rule P (insert r S) (smaller_rule r best)"
  by (fastforce simp: least_rule_def smaller_rule_def split: option.splits)

lemma least_rule_skip: "least_rule P S best \<Longrightarrow> \<not> P r \<Longrightarrow> least_rule P (insert r S) best"
  by (auto simp: least_rule_def split: option.splits)

lemma pick_rules_least:
  assumes "least_rule (\<lambda>r. m r \<and> nr_action r = ''direct'') S d" "least_rule (\<lambda>r. m r \<and> nr_action r \<noteq> ''direct'') S b"
    "pick_rules m (d, b) rs = (d', b')"
  shows "least_rule (\<lambda>r. m r \<and> nr_action r = ''direct'') (S \<union> set rs) d' \<and>
    least_rule (\<lambda>r. m r \<and> nr_action r \<noteq> ''direct'') (S \<union> set rs) b'"
  using assms
proof (induction rs arbitrary: S d b)
  case (Cons r rs)
  let ?d = "if m r \<and> nr_action r = ''direct'' then smaller_rule r d else d"
  let ?b = "if m r \<and> nr_action r \<noteq> ''direct'' then smaller_rule r b else b"
  have "pick_rules m (?d, ?b) rs = (d', b')"
    using Cons.prems(3) by (auto split: if_splits)
  moreover have "least_rule (\<lambda>r. m r \<and> nr_action r = ''direct'') (insert r S) ?d"
    using least_rule_smaller [OF Cons.prems(1), of r] least_rule_skip [OF Cons.prems(1), of r] by simp
  moreover have "least_rule (\<lambda>r. m r \<and> nr_action r \<noteq> ''direct'') (insert r S) ?b"
    using least_rule_smaller [OF Cons.prems(2), of r] least_rule_skip [OF Cons.prems(2), of r] by simp
  ultimately show ?case using Cons.IH [of "insert r S" ?d ?b] by simp
qed simp

lemma least_rule_unique:
  assumes "least_rule P S x" "least_rule P S y" "inj_on nr_id S"
  shows "x = y"
proof (cases x)
  case None
  with assms show ?thesis by (cases y) (auto simp: least_rule_def)
next
  case (Some b)
  with assms(1,2) obtain c where c: "y = Some c" by (cases y) (auto simp: least_rule_def)
  with Some assms have "nr_id b = nr_id c" "b \<in> S" "c \<in> S" by (auto simp: least_rule_def intro: antisym)
  with assms(3) c Some show ?thesis by (simp add: inj_on_eq_iff)
qed

lemma pick_rules_mset:
  assumes "mset rs' = mset rs" "distinct (map nr_id rs)"
  shows "pick_rules m (None, None) rs' = pick_rules m (None, None) rs"
proof -
  obtain d b d' b' where eq: "pick_rules m (None, None) rs = (d, b)" "pick_rules m (None, None) rs' = (d', b')"
    by force
  have start: "least_rule P {} None" for P by (simp add: least_rule_def)
  have inj: "inj_on nr_id (set rs)" "set rs' = set rs"
    using assms(2) mset_eq_setD [OF assms(1)] by (simp_all add: distinct_map)
  note least = pick_rules_least [OF start start eq(1)] pick_rules_least [OF start start eq(2)]
  have "d' = d"
    by (rule least_rule_unique [OF _ _ inj(1)]) (use least inj(2) in auto)
  moreover have "b' = b"
    by (rule least_rule_unique [OF _ _ inj(1)]) (use least inj(2) in auto)
  ultimately show ?thesis by (simp add: eq)
qed

lemma sort_key_mset:
  assumes "mset xs = mset ys" "distinct (map f ys)"
  shows "sort_key f xs = sort_key f ys"
proof (rule sort_key_inj_key_eq)
  show "mset xs = mset (sort_key f ys)" using assms(1) by simp
  show "inj_on f (set xs)" using assms mset_eq_setD [OF assms(1)] by (simp add: distinct_map)
qed simp

lemma distinct_map_mset: "mset xs = mset ys \<Longrightarrow> distinct (map f xs) = distinct (map f ys)"
  by (metis mset_eq_imp_distinct_iff mset_map)

lemma list_all_mset:
  assumes "mset xs = mset ys"
  shows "list_all P xs = list_all P ys" "list_ex P xs = list_ex P ys"
  using mset_eq_setD [OF assms] by (simp_all add: list_all_iff list_ex_iff)

lemma valid_mset:
  assumes "mset rs = mset (np_rules p)"
  shows "ValidateNetworkPolicy L (Some (p\<lparr>np_rules := rs\<rparr>)) = ValidateNetworkPolicy L (Some p)"
  using mset_eq_length [OF assms] list_all_mset(1) [OF assms, of "valid_rule L"] distinct_map_mset [OF assms, of nr_id]
    rules_conflict_mset [OF assms, of L]
  by (simp add: ValidateNetworkPolicy_def)

lemma effective_mset:
  assumes "mset rs = mset (np_rules p)" "distinct (map nr_id (np_rules p))"
  shows "effective_of L (p\<lparr>np_rules := rs\<rparr>) = effective_of L p"
proof -
  have "mset (direct_rules rs) = mset (direct_rules (np_rules p))"
    using assms(1) by (simp add: direct_rules_def mset_filter)
  moreover have "distinct (map nr_id (direct_rules (np_rules p)))"
    using assms(2) by (simp add: direct_rules_def comp_def distinct_map_filter)
  ultimately have "sort_key nr_id (direct_rules rs) = sort_key nr_id (direct_rules (np_rules p))"
    by (rule sort_key_mset)
  then show ?thesis by (simp add: effective_of_def)
qed

text \<open>The device scan without its accumulators.\<close>

definition scanned :: "net_text \<Rightarrow> home_segment \<Rightarrow> client_packet \<Rightarrow> device_binding list \<Rightarrow> ((string \<rightharpoonup> device_binding) \<times> string) option" where
  "scanned L s c bs =
     (if distinct (map dv_id bs) \<and> length (filter (client_device L s c) bs) \<le> 1
      then Some (map_of (map (\<lambda>b. (dv_id b, b)) bs), concat (map dv_id (filter (client_device L s c) bs)))
      else None)"

lemma scan_devices_eq:
  assumes "[] \<notin> dv_id ` set bs" "\<forall>b\<in>set bs. B (dv_id b) = None" "distinct (map dv_id bs)"
  shows "scan_devices L s c B dv bs =
    (if length (filter (client_device L s c) bs) \<le> (if dv = [] then 1 else 0)
     then Some (B ++ map_of (map (\<lambda>b. (dv_id b, b)) bs), dv @ concat (map dv_id (filter (client_device L s c) bs)))
     else None)"
  using assms
proof (induction bs arbitrary: B dv)
  case (Cons b bs)
  have keys: "dom (map_of (map (\<lambda>b. (dv_id b, b)) bs)) = dv_id ` set bs" by (simp add: dom_map_of_conv_image_fst image_image)
  have merge: "B(dv_id b \<mapsto> b) ++ map_of (map (\<lambda>b. (dv_id b, b)) bs) = B ++ map_of (map (\<lambda>b. (dv_id b, b)) (b # bs))"
    using Cons.prems(3) keys by (simp add: map_add_upd_left)
  have IH: "scan_devices L s c (B(dv_id b \<mapsto> b)) dw bs =
    (if length (filter (client_device L s c) bs) \<le> (if dw = [] then 1 else 0)
     then Some (B(dv_id b \<mapsto> b) ++ map_of (map (\<lambda>b. (dv_id b, b)) bs), dw @ concat (map dv_id (filter (client_device L s c) bs)))
     else None)" for dw
    using Cons.prems by (intro Cons.IH) (auto simp: image_iff)
  from Cons.prems have "dv_id b \<noteq> []" by auto
  with Cons.prems show ?case
    unfolding merge [symmetric] by (simp add: IH)
qed simp

lemma scan_devices_repeated:
  assumes "\<not> (distinct (map dv_id bs) \<and> (\<forall>b\<in>set bs. B (dv_id b) = None))"
  shows "scan_devices L s c B dv bs = None"
  using assms
proof (induction bs arbitrary: B dv)
  case (Cons b bs)
  then have "B (dv_id b) = None \<Longrightarrow> scan_devices L s c (B(dv_id b \<mapsto> b)) dw bs = None" for dw
    by (intro Cons.IH) auto
  then show ?case by simp
qed simp

lemma scan_devices_scanned:
  assumes "[] \<notin> dv_id ` set bs"
  shows "scan_devices L s c Map.empty [] bs = scanned L s c bs"
proof (cases "distinct (map dv_id bs)")
  case True
  with assms show ?thesis by (simp add: scanned_def scan_devices_eq)
next
  case False
  then show ?thesis by (simp add: scanned_def scan_devices_repeated)
qed

lemma single_mset: "mset xs = mset ys \<Longrightarrow> length ys \<le> 1 \<Longrightarrow> xs = ys"
  by (cases ys; cases "list.tl ys") auto

lemma scanned_mset:
  assumes "mset bs' = mset bs"
  shows "scanned L s c bs' = scanned L s c bs"
proof -
  have m: "mset (filter (client_device L s c) bs') = mset (filter (client_device L s c) bs)"
    using assms by (simp add: mset_filter)
  have "map_of (map (\<lambda>b. (dv_id b, b)) bs') = map_of (map (\<lambda>b. (dv_id b, b)) bs)" if "distinct (map dv_id bs)"
    using that distinct_map_mset [OF assms, of dv_id] mset_eq_setD [OF assms]
    by (subst map_of_inject_set) (simp_all add: comp_def)
  moreover have "filter (client_device L s c) bs' = filter (client_device L s c) bs"
    if "length (filter (client_device L s c) bs) \<le> 1"
    using single_mset [OF m that] .
  ultimately show ?thesis
    using distinct_map_mset [OF assms, of dv_id] mset_eq_length [OF m] unfolding scanned_def by simp
qed

definition reordered :: "scope_observation \<Rightarrow> scope_observation \<Rightarrow> bool" where
  "reordered ob' ob \<longleftrightarrow> so_boot ob' = so_boot ob \<and> so_network ob' = so_network ob \<and> so_revision ob' = so_revision ob \<and>
     so_observed ob' = so_observed ob \<and> so_fresh_until ob' = so_fresh_until ob \<and>
     mset (so_segments ob') = mset (so_segments ob) \<and> mset (so_devices ob') = mset (so_devices ob)"

lemma client_segment_reordered:
  assumes "reordered ob' ob"
  shows "client_segment ob' c = client_segment ob c"
proof -
  let ?f = "filter (\<lambda>s. sg_id s = cp_segment c)"
  have m: "mset (?f (so_segments ob')) = mset (?f (so_segments ob))"
    using assms by (simp add: reordered_def mset_filter)
  show ?thesis
  proof (cases "length (?f (so_segments ob)) \<le> 1")
    case True
    from single_mset [OF m this] show ?thesis by (simp add: client_segment_def)
  next
    case False
    with mset_eq_length [OF m] show ?thesis by (auto simp: client_segment_def split: list.splits)
  qed
qed

lemma negative_devices_mset:
  assumes "mset rs = mset (np_rules p)"
  shows "set (negative_devices (p\<lparr>np_rules := rs\<rparr>)) = set (negative_devices p)"
  using mset_eq_setD [OF assms] by (auto simp: negative_devices_def)

lemma clientScope_reordered:
  assumes "mset rs = mset (np_rules p)" "reordered ob' ob" "[] \<notin> dv_id ` set (so_devices ob)"
  shows "clientScope L (p\<lparr>np_rules := rs\<rparr>) ob' c now = clientScope L p ob c now"
proof -
  from assms(2) have devices: "mset (so_devices ob') = mset (so_devices ob)" and segments: "mset (so_segments ob') = mset (so_segments ob)"
    unfolding reordered_def by blast+
  have len: "observation_unavailable ob' now = observation_unavailable ob now"
    using assms(2) mset_eq_length [OF segments] mset_eq_length [OF devices]
    unfolding reordered_def observation_unavailable_def by (elim conjE) presburger
  have scan: "scan_devices L s c Map.empty [] (so_devices ob') = scan_devices L s c Map.empty [] (so_devices ob)" for s
    using assms(3) mset_eq_setD [OF devices] by (simp add: scan_devices_scanned scanned_mset [OF devices])
  have neg: "list_ex Q (negative_devices (p\<lparr>np_rules := rs\<rparr>)) = list_ex Q (negative_devices p)" for Q
    using negative_devices_mset [OF assms(1)] by (simp add: list_ex_iff)
  have clients: "np_clients (p\<lparr>np_rules := rs\<rparr>) = np_clients p" by simp
  show ?thesis
    unfolding clientScope_def len scan neg client_segment_reordered [OF assms(2)] clients by (rule refl)
qed

lemma canonical_policy_mset:
  assumes "mset rs = mset (np_rules p)" "distinct (map nr_id (np_rules p))"
  shows "canonical_policy (p\<lparr>np_rules := rs\<rparr>) = canonical_policy p"
proof -
  let ?f = "map (\<lambda>r. r\<lparr>nr_devices := sort (nr_devices r)\<rparr>)"
  have "sort_key nr_id (?f rs) = sort_key nr_id (?f (np_rules p))"
    by (rule sort_key_mset) (use assms in \<open>simp_all add: comp_def\<close>)
  then show ?thesis by (simp add: canonical_policy_def)
qed

lemma canonical_observation_reordered:
  assumes "reordered ob' ob" "distinct (map sg_id (so_segments ob))" "distinct (map dv_id (so_devices ob))"
  shows "canonical_observation L ob' = canonical_observation L ob"
proof -
  from assms(1) have m: "mset (so_devices ob') = mset (so_devices ob)" "mset (so_segments ob') = mset (so_segments ob)"
    and same: "so_boot ob' = so_boot ob" "so_network ob' = so_network ob" "so_revision ob' = so_revision ob"
    unfolding reordered_def by blast+
  let ?f = "\<lambda>s. s\<lparr>sg_prefixes := sort_key (prefix_string L) (sg_prefixes s)\<rparr>"
  let ?g = "\<lambda>b. case validMAC L (dv_mac b) of None \<Rightarrow> b | Some m \<Rightarrow> b\<lparr>dv_mac := m\<rparr>"
  have id: "dv_id (?g b) = dv_id b" for b by (cases "validMAC L (dv_mac b)") simp_all
  have "sort_key sg_id (map ?f (so_segments ob')) = sort_key sg_id (map ?f (so_segments ob))"
    by (rule sort_key_mset) (use m(2) assms(2) in \<open>simp_all add: comp_def\<close>)
  moreover have "sort_key dv_id (map ?g (so_devices ob')) = sort_key dv_id (map ?g (so_devices ob))"
    by (rule sort_key_mset) (use m(1) assms(3) in \<open>simp_all add: comp_def id\<close>)
  ultimately show ?thesis
    by (cases ob, cases ob') (use same in \<open>simp add: canonical_observation_def\<close>)
qed

lemma scope_devices_distinct:
  assumes "clientScope L p ob c now = ([], dv)"
  shows "distinct (map dv_id (so_devices ob))"
proof -
  from assms obtain s B where "scan_devices L s c Map.empty [] (so_devices ob) = Some (B, dv)"
    by (auto simp: clientScope_def split: if_splits option.splits)
  then show ?thesis
    using scan_devices_repeated [of "so_devices ob" Map.empty L s c "[]"] by auto
qed

lemma decide_question_mset:
  assumes "mset rs = mset (np_rules p)" "distinct (map nr_id (np_rules p))"
  shows "decide_question L (p\<lparr>np_rules := rs\<rparr>) q dv d = decide_question L p q dv d"
proof -
  let ?p = "p\<lparr>np_rules := rs\<rparr>"
  have exclusions: "EffectiveResourceExclusions L (Some ?p) = EffectiveResourceExclusions L (Some p)"
    by (cases "ValidateNetworkPolicy L (Some p)")
      (simp_all add: EffectiveResourceExclusions_def valid_mset [OF assms(1)] effective_mset [OF assms])
  have rest: "np_traffic ?p = np_traffic p" "np_russian ?p = np_russian p" "np_rules ?p = rs" by simp_all
  show ?thesis
    unfolding decide_question_def decide_positive_def routeDecision_def russian_match_def exclusions rest
      pick_rules_mset [OF assms] by (rule refl)
qed

lemma valid_policy_ids:
  "ValidateNetworkPolicy L (Some p) = Inr () \<Longrightarrow> distinct (map nr_id (np_rules p))"
  by (simp add: ValidateNetworkPolicy_def split: if_splits)


section \<open>Shared addresses\<close>

text \<open>The entries of a decision, and of a list of decisions, as the loop keeps them.\<close>

definition entries_of :: "net_text \<Rightarrow> address_decision \<Rightarrow> (seen_key \<times> seen_entry) list" where
  "entries_of L d = map (\<lambda>s. ((ad_interface d, addr_unmap (ad_address d)),
     \<lparr>se_source = s, se_mac = (case decision_mac L d of None \<Rightarrow> [] | Some m \<Rightarrow> m), se_action = ad_action d\<rparr>)) (ad_sources d)"

definition source_ok :: "prefix \<Rightarrow> bool" where
  "source_ok s \<longleftrightarrow> prefix_valid s \<and> px_bits s \<noteq> 0 \<and> s = prefix_masked s \<and> \<not> is_4in6 (px_addr s)"

definition decision_well :: "net_text \<Rightarrow> address_decision \<Rightarrow> bool" where
  "decision_well L d \<longleftrightarrow> decision_ok d \<and> decision_mac L d \<noteq> None \<and> list_all source_ok (ad_sources d)"

text \<open>A list the routine refuses whatever it decides: malformed or past a bound.\<close>

definition refused_set :: "net_text \<Rightarrow> address_decision list \<Rightarrow> bool" where
  "refused_set L ds \<longleftrightarrow> length ds > 8192 \<or> \<not> list_all (decision_well L) ds \<or>
     length (concat (map (entries_of L) ds)) > 32768 \<or>
     (\<exists>k. length (filter (\<lambda>(k', e). k' = k) (concat (map (entries_of L) ds))) > 256)"

definition seen_of :: "(seen_key \<times> seen_entry) list \<Rightarrow> seen_map" where
  "seen_of es k = map snd (filter (\<lambda>(k', e). k' = k) es)"

fun add_entries :: "(seen_key \<times> seen_entry) list \<Rightarrow> (seen_key \<times> seen_entry) list \<Rightarrow> bool" where
  "add_entries done' [] = True"
| "add_entries done' ((k, e) # es) =
     (Suc (length done') \<le> 32768 \<and> length (seen_of done' k) < 256 \<and> \<not> list_ex (entries_conflict e) (seen_of done' k) \<and>
      add_entries (done' @ [(k, e)]) es)"

lemma seen_of_snoc: "seen_of (es @ [(k, e)]) = (seen_of es)(k := seen_of es k @ [e])"
  by (auto simp: seen_of_def)

lemma add_entries_append: "add_entries xs (ys @ zs) \<longleftrightarrow> add_entries xs ys \<and> add_entries (xs @ ys) zs"
  by (induction ys arbitrary: xs) auto

lemma add_sources_entries:
  "add_sources k mac action ss (seen_of es, length es) =
    (let new = map (\<lambda>s. (k, \<lparr>se_source = s, se_mac = mac, se_action = action\<rparr>)) ss in
     if list_all source_ok ss \<and> add_entries es new then Some (seen_of (es @ new), length (es @ new)) else None)"
proof (induction ss arbitrary: es)
  case (Cons s ss)
  let ?e = "\<lparr>se_source = s, se_mac = mac, se_action = action\<rparr>"
  have step: "add_sources k mac action (s # ss) (seen_of es, length es) =
      (if source_ok s \<and> Suc (length es) \<le> 32768 \<and> length (seen_of es k) < 256 \<and> \<not> list_ex (entries_conflict ?e) (seen_of es k)
       then add_sources k mac action ss (seen_of (es @ [(k, ?e)]), length (es @ [(k, ?e)])) else None)"
    by (simp add: Let_def source_ok_def seen_of_snoc not_le)
  show ?case unfolding step Cons by (simp add: Let_def)
qed simp

lemma conflict_loop_entries:
  "conflict_loop L ds (seen_of es, length es) \<longleftrightarrow>
    \<not> (list_all (decision_well L) ds \<and> add_entries es (concat (map (entries_of L) ds)))"
proof (induction ds arbitrary: es)
  case (Cons d ds)
  have unfold: "conflict_loop L (d # ds) (seen_of es, length es) =
      (if decision_well L d \<and> add_entries es (entries_of L d)
       then conflict_loop L ds (seen_of (es @ entries_of L d), length (es @ entries_of L d)) else True)"
    by (cases "decision_mac L d") (auto simp: decision_well_def entries_of_def add_sources_entries Let_def)
  show ?case
    unfolding unfold Cons.IH by (auto simp: add_entries_append)
qed simp

lemma conflict_sym: "entries_conflict a b = entries_conflict b a"
  by (auto simp: entries_conflict_def prefix_overlaps_sym)

lemma seen_of_mem: "e \<in> set (seen_of es k) \<longleftrightarrow> (k, e) \<in> set es"
  by (force simp: seen_of_def)

lemma seen_of_length: "length (seen_of (es @ [(k', e)]) k) = length (seen_of es k) + (if k' = k then 1 else 0)"
  by (simp add: seen_of_def)

lemma add_entries_iff:
  "add_entries [] ys \<longleftrightarrow> length ys \<le> 32768 \<and> (\<forall>k. length (seen_of ys k) \<le> 256) \<and>
    (\<forall>k e e'. (k, e) \<in> set ys \<longrightarrow> (k, e') \<in> set ys \<longrightarrow> \<not> entries_conflict e e')"
proof (induction ys rule: rev_induct)
  case (snoc y ys)
  obtain k e where y: "y = (k, e)" by (cases y)
  have bound: "(\<forall>j. length (seen_of (ys @ [(k, e)]) j) \<le> 256) \<longleftrightarrow> (\<forall>j. length (seen_of ys j) \<le> 256) \<and> length (seen_of ys k) < 256"
  proof -
    have "length (seen_of (ys @ [(k, e)]) j) \<le> 256 \<longleftrightarrow> length (seen_of ys j) \<le> 256 \<and> (j = k \<longrightarrow> length (seen_of ys k) < 256)" for j
      by (auto simp: seen_of_length)
    then show ?thesis by blast
  qed
  have irrefl: "\<not> entries_conflict e e" by (simp add: entries_conflict_def)
  have pairs: "(\<forall>j a b. (j, a) \<in> set (ys @ [(k, e)]) \<longrightarrow> (j, b) \<in> set (ys @ [(k, e)]) \<longrightarrow> \<not> entries_conflict a b) \<longleftrightarrow>
      (\<forall>j a b. (j, a) \<in> set ys \<longrightarrow> (j, b) \<in> set ys \<longrightarrow> \<not> entries_conflict a b) \<and>
      (\<forall>b. (k, b) \<in> set ys \<longrightarrow> \<not> entries_conflict e b)" (is "?all \<longleftrightarrow> ?old \<and> ?new")
  proof
    assume *: ?all
    then have "\<not> entries_conflict e b" if "(k, b) \<in> set ys" for b
      using spec [OF spec [OF spec [OF *, of k], of e], of b] that by simp
    moreover have ?old using * by (metis Un_iff set_append)
    ultimately show "?old \<and> ?new" by blast
  next
    assume *: "?old \<and> ?new"
    show ?all
    proof (intro allI impI)
      fix j a b
      assume "(j, a) \<in> set (ys @ [(k, e)])" "(j, b) \<in> set (ys @ [(k, e)])"
      then consider "(j, a) \<in> set ys" "(j, b) \<in> set ys" | "(j, a) \<in> set ys" "j = k" "b = e"
        | "(j, b) \<in> set ys" "j = k" "a = e" | "a = e" "b = e" by auto
      then show "\<not> entries_conflict a b"
        using * irrefl conflict_sym [of a e] by cases blast+
    qed
  qed
  show ?case
    unfolding y add_entries_append snoc.IH bound pairs
    by (simp add: list_ex_iff Ball_def seen_of_mem) auto
qed (simp add: seen_of_def)

lemma SharedAddressConflict_entries:
  "SharedAddressConflict L ds \<longleftrightarrow> refused_set L ds \<or>
     (\<exists>d\<in>set ds. \<exists>d'\<in>set ds. \<exists>k e e'. (k, e) \<in> set (entries_of L d) \<and> (k, e') \<in> set (entries_of L d') \<and> entries_conflict e e')"
proof -
  have start: "(\<lambda>_. [], 0) = (seen_of [], length ([] :: (seen_key \<times> seen_entry) list))" by (simp add: seen_of_def fun_eq_iff)
  have len: "length (seen_of es k) = length (filter (\<lambda>(k', e). k' = k) es)" for es k by (simp add: seen_of_def)
  have mem: "x \<in> set (concat (map (entries_of L) ds)) \<longleftrightarrow> (\<exists>d\<in>set ds. x \<in> set (entries_of L d))" for x by auto
  show ?thesis
    unfolding SharedAddressConflict_def start conflict_loop_entries add_entries_iff refused_set_def append_Nil mem len
    by (simp only: not_le [symmetric]) (simp, blast)
qed

text \<open>A packet of a client with a canonical hardware address, to a destination, is one the decision is about.\<close>

definition decides_packet :: "net_text \<Rightarrow> address_decision \<Rightarrow> client_packet \<Rightarrow> ip_addr \<Rightarrow> bool" where
  "decides_packet L d pk dest \<longleftrightarrow> ad_interface d = cp_interface pk \<and> addr_unmap (ad_address d) = addr_unmap dest \<and>
     (decision_mac L d = Some [] \<or> decision_mac L d = Some (cp_mac pk)) \<and>
     (\<exists>s\<in>set (ad_sources d). prefix_contains s (cp_address pk))"

lemma masked_zone: "addr_zone (px_addr (prefix_masked p)) = []"
  by (cases "px_addr p") (simp_all add: prefix_masked_def keep_bits_def addr_zone_def no_prefix_def)

lemma keep_bits_v6: "is_v6 (keep_bits n a) = is_v6 a" "keep_bits n a = NoAddr \<longleftrightarrow> a = NoAddr"
  by (cases a; simp add: keep_bits_def is_v6_def)+

lemma overlap_common:
  assumes "prefix_overlaps p q" "source_ok p" "source_ok q" "px_addr p \<noteq> NoAddr" "px_addr q \<noteq> NoAddr" "px_bits p \<le> px_bits q"
  shows "prefix_contains p (px_addr q) \<and> prefix_contains q (px_addr q)"
proof -
  have "addr_zone (px_addr q) = []"
    using assms(3) masked_zone [of q] by (simp add: source_ok_def)
  moreover have "is_v6 (px_addr p) = is_v6 (px_addr q)" "keep_bits (nat (px_bits p)) (px_addr p) = keep_bits (nat (px_bits p)) (px_addr q)"
    using assms by (auto simp: prefix_overlaps_def source_ok_def prefix_valid_def Let_def min_def)
  ultimately show ?thesis
    using assms by (auto simp: prefix_contains_def source_ok_def is_v6_def bit_length_def split: ip_addr.splits)
qed

lemma entries_of_mem:
  "(k, e) \<in> set (entries_of L d) \<longleftrightarrow> k = (ad_interface d, addr_unmap (ad_address d)) \<and> se_source e \<in> set (ad_sources d) \<and>
     se_mac e = (case decision_mac L d of None \<Rightarrow> [] | Some m \<Rightarrow> m) \<and> se_action e = ad_action d"
  by (auto simp: entries_of_def intro: rev_image_eqI)

lemma decision_mac_nonempty: "decision_mac L d = Some [] \<or> (\<exists>m. decision_mac L d = Some m \<and> m \<noteq> []) \<or> decision_mac L d = None"
  by (cases "decision_mac L d") auto

lemma conflict_packet:
  assumes d: "decision_well L d" "decision_well L d'" "\<forall>s\<in>set (ad_sources d) \<union> set (ad_sources d'). px_addr s \<noteq> NoAddr"
    and e: "(k, e) \<in> set (entries_of L d)" "(k, e') \<in> set (entries_of L d')" "entries_conflict e e'"
  shows "\<exists>pk dest. decides_packet L d pk dest \<and> decides_packet L d' pk dest \<and> ad_action d \<noteq> ad_action d'"
proof -
  from d(1,2) obtain m m' where m: "decision_mac L d = Some m" "decision_mac L d' = Some m'"
    by (auto simp: decision_well_def)
  define mac where "mac = (if m = [] then m' else m)"
  from e m have mac: "m = [] \<or> m = mac" "m' = [] \<or> m' = mac" "ad_action d \<noteq> ad_action d'"
    and over: "prefix_overlaps (se_source e) (se_source e')"
    by (auto simp: entries_conflict_def entries_of_mem mac_def)
  have src: "se_source e \<in> set (ad_sources d)" "se_source e' \<in> set (ad_sources d')" using e by (simp_all add: entries_of_mem)
  have ok: "source_ok (se_source e)" "source_ok (se_source e')" using src d by (auto simp: decision_well_def list_all_iff)
  obtain a where a: "prefix_contains (se_source e) a" "prefix_contains (se_source e') a"
  proof (cases "px_bits (se_source e) \<le> px_bits (se_source e')")
    case True
    from overlap_common [OF over ok _ _ True] src d(3) that show ?thesis by blast
  next
    case False
    from overlap_common [OF over [unfolded prefix_overlaps_sym [of "se_source e"]] ok(2,1)] False src d(3) that show ?thesis by auto
  qed
  let ?pk = "\<lparr>cp_address = a, cp_mac = mac, cp_interface = ad_interface d, cp_segment = []\<rparr>"
  have "decides_packet L d ?pk (ad_address d)" "decides_packet L d' ?pk (ad_address d)"
    using e src a m mac by (auto simp: decides_packet_def entries_of_mem)
  with mac(3) show ?thesis by blast
qed

lemma packet_conflict:
  assumes "decides_packet L d pk dest" "decides_packet L d' pk dest" "ad_action d \<noteq> ad_action d'"
  shows "\<exists>k e e'. (k, e) \<in> set (entries_of L d) \<and> (k, e') \<in> set (entries_of L d') \<and> entries_conflict e e'"
proof -
  from assms obtain s s' where s: "s \<in> set (ad_sources d)" "prefix_contains s (cp_address pk)"
      "s' \<in> set (ad_sources d')" "prefix_contains s' (cp_address pk)"
    by (auto simp: decides_packet_def)
  let ?e = "\<lambda>s d. \<lparr>se_source = s, se_mac = (case decision_mac L d of None \<Rightarrow> [] | Some m \<Rightarrow> m), se_action = ad_action d\<rparr>"
  have "entries_conflict (?e s d) (?e s' d')"
    using assms contains_overlaps [OF s(2,4)] by (auto simp: entries_conflict_def decides_packet_def)
  with s assms show ?thesis
    by (intro exI [of _ "(ad_interface d, addr_unmap (ad_address d))"] exI [of _ "?e s d"] exI [of _ "?e s' d'"])
      (auto simp: entries_of_mem decides_packet_def)
qed

text \<open>
  C33: over prefixes that have an address, the routine reports a conflict exactly for a malformed or oversized list and
  for one in which some packet is decided both ways.
\<close>

theorem shared_conflict_exact:
  assumes "\<forall>d\<in>set ds. \<forall>s\<in>set (ad_sources d). px_addr s \<noteq> NoAddr"
  shows "SharedAddressConflict L ds \<longleftrightarrow> refused_set L ds \<or>
    (\<exists>d\<in>set ds. \<exists>d'\<in>set ds. \<exists>pk dest. decides_packet L d pk dest \<and> decides_packet L d' pk dest \<and> ad_action d \<noteq> ad_action d')"
proof (cases "refused_set L ds")
  case False
  then have "decision_well L d" if "d \<in> set ds" for d
    using that by (auto simp: refused_set_def list_all_iff)
  with assms have "(\<exists>k e e'. (k, e) \<in> set (entries_of L d) \<and> (k, e') \<in> set (entries_of L d') \<and> entries_conflict e e') \<longleftrightarrow>
      (\<exists>pk dest. decides_packet L d pk dest \<and> decides_packet L d' pk dest \<and> ad_action d \<noteq> ad_action d')"
    if "d \<in> set ds" "d' \<in> set ds" for d d'
    using that packet_conflict [of L d _ _ d'] conflict_packet [of L d d'] by (metis Un_iff)
  with False show ?thesis unfolding SharedAddressConflict_entries by simp
qed (simp add: SharedAddressConflict_entries)

section \<open>Witnesses\<close>

definition demo_text :: net_text where
  "demo_text = \<lparr>nt_parse_addr = (\<lambda>_. None), nt_format_addr = (\<lambda>_. []), nt_parse_prefix = (\<lambda>_. None), nt_valid_utf8 = (\<lambda>_. True),
     nt_trim_space = trim_space, nt_to_ascii = Some, nt_public_suffix = (\<lambda>_. []), nt_parse_mac = (\<lambda>s. if s = ''client'' then Some [2, 0, 0, 0, 0, 1] else None),
     nt_digest = (\<lambda>_. ''d''), nt_snapshot_digest = (\<lambda>_. ''s'')\<rparr>"

definition demo_rule :: "string \<Rightarrow> string \<Rightarrow> string \<Rightarrow> network_rule" where
  "demo_rule i service action = \<lparr>nr_id = i, nr_revision = 1, nr_kind = ''service'', nr_value = service, nr_action = action,
     nr_mandatory = True, nr_devices = []\<rparr>"

definition demo_policy :: network_policy where
  "demo_policy = \<lparr>np_schema = 1, np_revision = 1,
     np_clients = \<lparr>cs_mode = ''lan_except'', cs_segments = [''lan''], cs_devices = [], cs_excluded_devices = [], cs_excluded_cidrs = [],
       cs_new_devices = ''inherit''\<rparr>,
     np_traffic = \<lparr>tf_mode = ''selected_services'', tf_default_route = [], tf_all_except_allowed = False, tf_auto_hostlist = False,
       tf_unavailable = ''retain''\<rparr>,
     np_rules = [demo_rule ''a'' ''bank'' ''direct'', demo_rule ''b'' ''video'' ''bypass''],
     np_russian = no_russian, np_exclusions = None\<rparr>"

definition demo_observation :: scope_observation where
  "demo_observation = \<lparr>so_boot = ''boot'', so_network = ''net'', so_revision = 1, so_observed = 0, so_fresh_until = minute,
     so_segments = [\<lparr>sg_id = ''lan'', sg_interface = ''br0'', sg_prefixes = [\<lparr>px_addr = V4 0xC0A80100, px_bits = 24\<rparr>], sg_home = True, sg_wan = False\<rparr>],
     so_devices = [\<lparr>dv_id = ''tv'', dv_mac = ''client'', dv_interface = ''br0'', dv_segment = ''lan'', dv_confirmed = True\<rparr>]\<rparr>"

definition demo_question :: traffic_question where
  "demo_question = \<lparr>tq_client = \<lparr>cp_address = V4 0xC0A80107, cp_mac = ''client'', cp_interface = ''br0'', cp_segment = ''lan''\<rparr>,
     tq_domain = [], tq_address = NoAddr, tq_service = ''video'', tq_selected = True, tq_sources = [], tq_explicit = False,
     tq_protected = False, tq_coverage = []\<rparr>"

definition demo_digest :: scope_digest where
  "demo_digest = (\<lambda>_. ''z'')"

lemma demo_decides:
  "nd_action (DecideNetworkPolicy demo_text demo_digest (Some demo_policy) demo_observation demo_question second) = ''bypass'' \<and>
   nd_device (DecideNetworkPolicy demo_text demo_digest (Some demo_policy) demo_observation demo_question second) = ''tv''"
  by code_simp

theorem bypass_earned_witness:
  "client_admitted demo_text demo_policy demo_observation (tq_client demo_question) second \<and>
   ResourceExcluded demo_text (Some demo_policy) (question_target demo_question ''tv'') = Inr False"
  using bypass_earned [of demo_text demo_digest "Some demo_policy" demo_observation demo_question second] demo_decides
  by (auto simp: normal_question_def demo_question_def)


definition demo_shared :: "address_decision list" where
  "demo_shared = map (\<lambda>a. \<lparr>ad_interface = ''br0'', ad_sources = [\<lparr>px_addr = V4 0xC0A80100, px_bits = 24\<rparr>], ad_mac = [],
     ad_address = V4 0x08080808, ad_domain = [], ad_action = a\<rparr>) [''base'', ''bypass'']"

theorem shared_conflict_exact_witness:
  "SharedAddressConflict demo_text demo_shared \<longleftrightarrow> refused_set demo_text demo_shared \<or>
    (\<exists>d\<in>set demo_shared. \<exists>d'\<in>set demo_shared. \<exists>pk dest. decides_packet demo_text d pk dest \<and> decides_packet demo_text d' pk dest \<and>
       ad_action d \<noteq> ad_action d')"
  by (rule shared_conflict_exact) (simp add: demo_shared_def)

end
