(* ===== verification/Config_Data.thy ===== *)
theory Config_Data
  imports Network_Policy File_Target "HOL-Library.Finite_Map"
begin

text \<open>
  The configuration document of \<open>internal/config\<close> and its validity: services,
  service policies, runtime control, the consent for a default route, and
  \<open>InspectBytes\<close>, the gate of every load.  JSON, the consent digest and the
  formatting of times are the fields of \<open>config_text\<close>.  A nil map or slice and
  an empty one are the same value.
\<close>

section \<open>Data\<close>

datatype config_error = ErrSources | ErrServicePolicy | ErrRevision | ErrBinding | ErrRecipe | ErrControl
  | ErrConsent | ErrNetwork | ErrExclusions | ErrTransition | ErrRoute | ErrScope | ErrUndo | ErrDecode | ErrNotExist
  | ErrStorage rj_error

record service_state =
  ss_profile :: string
  ss_enabled :: bool
  ss_mode :: string
  ss_route :: string
  ss_sources :: "string list"

record service_scenario =
  sn_kind :: string
  sn_udp :: bool
  sn_ipv6 :: bool
  sn_country :: string

record service_policy =
  sp_schema :: int
  sp_service :: string
  sp_revision :: "64 word"
  sp_enabled :: bool
  sp_mode :: string
  sp_sources :: "string list"
  sp_group :: string
  sp_nodes :: "string list"
  sp_engines :: "string list"
  sp_source_ids :: "string list"
  sp_trust :: "string list"
  sp_pinned :: string
  sp_pin_fallback :: bool
  sp_scenario :: service_scenario
  sp_terminal :: string
  sp_check :: int
  sp_hold :: int
  sp_switches :: int
  sp_credentials :: bool
  sp_legacy :: bool

record check_schedule =
  sd_enabled :: bool
  sd_interval :: int
  sd_services :: "string list"

record service_control =
  sc_mode :: string
  sc_schedule :: check_schedule
  sc_stopped :: bool
  sc_suspended :: "(string, service_state) fmap"
  sc_routes :: "(string, string) fmap"

record route_grant =
  rg_resolved :: string
  rg_class :: string
  rg_provider :: string
  rg_sources :: "string list"
  rg_kinds :: "string list"
  rg_protocols :: "string list"

record route_consent =
  dc_schema :: int
  dc_installation :: string
  dc_sequence :: "64 word"
  dc_approval :: "64 word"
  dc_config :: "64 word"
  dc_policy :: "network_policy option"
  dc_grants :: "route_grant list"
  dc_digest :: string

record config =
  cf_recipe :: string
  cf_applied_recipe :: string
  cf_schema :: int
  cf_listen :: string
  cf_services :: "(string, service_state) fmap"
  cf_applied :: "(string, service_state) fmap"
  cf_engines :: "string list"
  cf_safe :: bool
  cf_catalog :: string
  cf_revision :: "64 word"
  cf_applied_revision :: "64 word"
  cf_applied_at :: string
  cf_policies :: "(string, service_policy) fmap"
  cf_control :: service_control
  cf_network :: "network_policy option"
  cf_applied_network :: "network_policy option"
  cf_consent :: "route_consent option"
  cf_inactive :: "resource_exclusions option"

record config_text =
  ct_net :: net_text
  ct_encode :: "config \<Rightarrow> string"
  ct_decode :: "string \<Rightarrow> config option"
  ct_has_applied :: "string \<Rightarrow> bool"
  ct_time :: "time \<Rightarrow> string"
  ct_consent_digest :: "route_consent \<Rightarrow> string"

section \<open>Services\<close>

definition zero_state :: service_state where
  "zero_state = \<lparr>ss_profile = [], ss_enabled = False, ss_mode = [], ss_route = [], ss_sources = []\<rparr>"

definition state_at :: "(string, service_state) fmap \<Rightarrow> string \<Rightarrow> service_state" where
  "state_at m i = (case fmlookup m i of None \<Rightarrow> zero_state | Some s \<Rightarrow> s)"

definition normalizeState :: "service_state \<Rightarrow> service_state" where
  "normalizeState s =
     (let r = (if ss_route s = [] then ss_mode s else ss_route s);
          r = (if r = [] then ''auto'' else r)
      in s\<lparr>ss_route := r, ss_mode := r\<rparr>)"

definition source_prefix :: "net_text \<Rightarrow> string \<Rightarrow> prefix option" where
  "source_prefix L v = (case nt_parse_prefix L v of
     Some p \<Rightarrow> Some p
   | None \<Rightarrow> (case nt_parse_addr L v of
       None \<Rightarrow> None
     | Some a \<Rightarrow> Some (prefix_from (addr_unmap a) (bit_length (addr_unmap a)))))"

fun sources_loop :: "net_text \<Rightarrow> string list \<Rightarrow> string list \<Rightarrow> string list option" where
  "sources_loop L out [] = Some out"
| "sources_loop L out (v # vs) =
     (let value = nt_trim_space L v in
      if value = [] then sources_loop L out vs
      else case source_prefix L value of
        None \<Rightarrow> None
      | Some p \<Rightarrow>
          let p = prefix_masked p; a = px_addr p in
          if \<not> addr_valid a \<or> is_unspecified a \<or> is_loopback a \<or> is_multicast a then None
          else let c = prefix_string L p in
            sources_loop L (if c \<in> set out then out else out @ [c]) vs)"

definition NormalizeSources :: "net_text \<Rightarrow> string list \<Rightarrow> string list option" where
  "NormalizeSources L vs = map_option sort (sources_loop L [] vs)"

definition hex_text :: "string \<Rightarrow> bool" where
  "hex_text s \<longleftrightarrow> list_all is_hex s"

definition ValidID :: "string \<Rightarrow> bool" where
  "ValidID i \<longleftrightarrow> i \<noteq> ''main'' \<and> (case i of [] \<Rightarrow> False
     | c # r \<Rightarrow> (is_lower c \<or> is_digit c) \<and> length r \<le> 63 \<and>
         list_all (\<lambda>x. is_lower x \<or> is_digit x \<or> x = CHR ''_'' \<or> x = CHR ''-'') r)"

definition trim_prefix :: "string \<Rightarrow> string \<Rightarrow> string" where
  "trim_prefix s p = (if has_prefix s p then drop (length p) s else s)"

definition validateServiceProfileBinding :: "service_state \<Rightarrow> bool" where
  "validateServiceProfileBinding s \<longleftrightarrow> ss_profile s = [] \<or>
     (let route = ss_route (normalizeState s) in
      has_prefix route ''wireguard:'' \<and> ValidID (trim_prefix route ''wireguard:'') \<and>
      length (ss_profile s) = 64 \<and> hex_text (ss_profile s))"

definition validateConfigServiceBindings :: "config \<Rightarrow> bool" where
  "validateConfigServiceBindings c \<longleftrightarrow>
     fmpred (\<lambda>_. validateServiceProfileBinding) (cf_services c) \<and>
     fmpred (\<lambda>_. validateServiceProfileBinding) (cf_applied c) \<and>
     fmpred (\<lambda>_. validateServiceProfileBinding) (sc_suspended (cf_control c))"

definition valid_recipe :: "string \<Rightarrow> bool" where
  "valid_recipe r \<longleftrightarrow> r \<in> {[], ''stock-tls-circular-v1'', ''stock-tls-circular-auto-v1''}"

definition validateNFQWSFirstStartRecipes :: "config \<Rightarrow> bool" where
  "validateNFQWSFirstStartRecipes c \<longleftrightarrow> valid_recipe (cf_recipe c) \<and> valid_recipe (cf_applied_recipe c)"

definition ValidateResourceExclusionStorage :: "config_text \<Rightarrow> config \<Rightarrow> bool" where
  "ValidateResourceExclusionStorage L c \<longleftrightarrow>
     \<not> (cf_inactive c \<noteq> None \<and> cf_network c \<noteq> None) \<and> ValidateResourceExclusions (ct_net L) (cf_inactive c)"

section \<open>Routes and service policies\<close>

text \<open>\<open>strings.Cut\<close> at the first separator.\<close>

fun str_cut :: "char \<Rightarrow> string \<Rightarrow> (string \<times> string) option" where
  "str_cut d [] = None"
| "str_cut d (c # s) = (if c = d then Some ([], s) else map_option (\<lambda>(a, b). (c # a, b)) (str_cut d s))"

definition ParseNodeRoute :: "string \<Rightarrow> (string \<times> string) option" where
  "ParseNodeRoute route = (case str_cut CHR '':'' route of
     None \<Rightarrow> None
   | Some (engine, target) \<Rightarrow>
       if engine \<noteq> ''sing-box'' \<and> engine \<noteq> ''xray'' then None
       else let (pre, size) = (if has_prefix target ''group-'' then (''group-'', 32) else (''node-'', 64)) in
         if \<not> has_prefix target pre \<or> length target \<noteq> length pre + size \<or> \<not> hex_text (drop (length pre) target) then None
         else Some (engine, target))"

definition IsExecutor :: "string \<Rightarrow> bool" where
  "IsExecutor i \<longleftrightarrow> i \<in> {''nfqws2'', ''usque'', ''warp-wg'', ''amneziawg'', ''wireguard'', ''sing-box'', ''xray''}"

definition validPolicyNode :: "string \<Rightarrow> bool" where
  "validPolicyNode i \<longleftrightarrow> length i = 69 \<and> has_prefix i ''node-'' \<and> hex_text (drop 5 i)"

definition policy_engine :: "string \<Rightarrow> bool" where
  "policy_engine v \<longleftrightarrow> v \<in> {''sing-box'', ''nfqws2'', ''warp-wg'', ''usque'', ''amneziawg'', ''wireguard'', ''xray'', ''dns'', ''relay''}"

definition policy_trust :: "string \<Rightarrow> bool" where
  "policy_trust v \<longleftrightarrow> v \<in> {''manual'', ''file'', ''subscription'', ''community'', ''legacy''}"

text \<open>One of the four lists: bounded, every member valid, then sorted and compacted.\<close>

definition policy_list :: "nat \<Rightarrow> (string \<Rightarrow> bool) \<Rightarrow> string list \<Rightarrow> string list option" where
  "policy_list limit valid vs = (if length vs \<le> limit \<and> list_all valid vs then Some (remdups_adj (sort vs)) else None)"

definition policy_fields :: "service_policy \<Rightarrow> bool" where
  "policy_fields p \<longleftrightarrow>
     sp_schema p = 1 \<and> policyIdentifier (sp_service p) \<and> sp_mode p \<in> {''auto'', ''manual'', ''paused''} \<and>
     sp_terminal p \<in> {''retain'', ''direct'', ''block''} \<and>
     sn_kind (sp_scenario p) \<in> {''web'', ''api'', ''video'', ''media'', ''voice''} \<and>
     60 \<le> sp_check p \<and> sp_check p \<le> 86400 \<and> 60 \<le> sp_hold p \<and> sp_hold p \<le> 86400 \<and> 1 \<le> sp_switches p \<and> sp_switches p \<le> 60 \<and>
     (sp_group p = [] \<or> has_prefix (sp_group p) ''group-'' \<and> policyIdentifier (sp_group p)) \<and>
     (sp_pinned p = [] \<or> validPolicyNode (sp_pinned p)) \<and>
     (sn_country (sp_scenario p) = [] \<or> length (sn_country (sp_scenario p)) = 2 \<and> list_all is_upper (sn_country (sp_scenario p)))"

definition NormalizeServicePolicy :: "net_text \<Rightarrow> service_policy \<Rightarrow> service_policy option" where
  "NormalizeServicePolicy L p =
     (if \<not> policy_fields p \<or> length (sp_sources p) > 128 then None
      else case NormalizeSources L (sp_sources p) of
        None \<Rightarrow> None
      | Some sources \<Rightarrow>
        (case (policy_list 128 validPolicyNode (sp_nodes p), policy_list 16 policy_engine (sp_engines p),
               policy_list 128 policyIdentifier (sp_source_ids p), policy_list 16 policy_trust (sp_trust p)) of
           (Some nodes, Some engines, Some source_ids, Some trust) \<Rightarrow>
             if sp_pinned p \<noteq> [] \<and> sp_pinned p \<notin> set nodes then None
             else Some (p\<lparr>sp_sources := sources, sp_nodes := nodes, sp_engines := engines, sp_source_ids := source_ids, sp_trust := trust\<rparr>)
         | _ \<Rightarrow> None))"

definition validateServicePolicies :: "net_text \<Rightarrow> (string, service_policy) fmap \<Rightarrow> bool" where
  "validateServicePolicies L ps \<longleftrightarrow> fcard (fmdom ps) \<le> 128 \<and>
     fmpred (\<lambda>i p. i = sp_service p \<and> sp_revision p \<noteq> 0 \<and> NormalizeServicePolicy L p \<noteq> None) ps"

text \<open>Manual routing intent revokes the automatic permission of a service.\<close>

definition fenced :: "string \<Rightarrow> string list \<Rightarrow> service_policy \<Rightarrow> service_policy" where
  "fenced route sources p = p\<lparr>sp_enabled := False, sp_mode := ''manual'', sp_legacy := False, sp_sources := sources,
     sp_revision := (if sp_revision p < -1 then sp_revision p + 1 else sp_revision p),
     sp_pinned := (case ParseNodeRoute route of
       Some (_, node) \<Rightarrow> if has_prefix node ''node-'' \<and> node \<in> set (sp_nodes p) then node else []
     | None \<Rightarrow> [])\<rparr>"

definition fenceServicePolicy :: "string \<Rightarrow> string \<Rightarrow> string list \<Rightarrow> config \<Rightarrow> config" where
  "fenceServicePolicy i route sources c = (case fmlookup (cf_policies c) i of
     None \<Rightarrow> c
   | Some p \<Rightarrow> c\<lparr>cf_policies := fmupd i (fenced route sources p) (cf_policies c)\<rparr>)"

section \<open>Runtime control\<close>

definition EffectiveMode :: "service_control \<Rightarrow> string" where
  "EffectiveMode k = (if sc_mode k = ''manual'' then ''manual'' else ''auto'')"

definition bad_id :: "string \<Rightarrow> bool" where
  "bad_id i \<longleftrightarrow> i = [] \<or> length i > 128"

definition bad_schedule :: "check_schedule \<Rightarrow> bool" where
  "bad_schedule s \<longleftrightarrow>
     sd_interval s \<noteq> 0 \<and> (sd_interval s < 60 \<or> sd_interval s > 86400) \<or> length (sd_services s) > 64 \<or>
     sd_enabled s \<and> (sd_services s = [] \<or> sd_interval s < 60) \<or>
     list_ex (\<lambda>i. bad_id i \<or> list_ex (\<lambda>c. c \<in> {CHR ''/'', CHR 0x5C, CHR 0x00, CHR 0x0D, CHR 0x0A}) i) (sd_services s) \<or>
     \<not> distinct (sd_services s)"

definition route_at :: "(string, string) fmap \<Rightarrow> string \<Rightarrow> string" where
  "route_at m i = (case fmlookup m i of None \<Rightarrow> [] | Some r \<Rightarrow> r)"

definition validateServiceControl :: "net_text \<Rightarrow> service_control \<Rightarrow> bool" where
  "validateServiceControl L k \<longleftrightarrow>
     sc_mode k \<in> {[], ''auto'', ''manual''} \<and> \<not> bad_schedule (sc_schedule k) \<and>
     \<not> (\<not> sc_stopped k \<and> (sc_suspended k \<noteq> fmempty \<or> sc_routes k \<noteq> fmempty)) \<and>
     fcard (fmdom (sc_suspended k)) \<le> 128 \<and> fcard (fmdom (sc_routes k)) \<le> fcard (fmdom (sc_suspended k)) \<and>
     fmpred (\<lambda>i s. \<not> bad_id i \<and> \<not> (ss_enabled s \<and> route_at (sc_routes k) i = []) \<and>
       length (route_at (sc_routes k) i) \<le> 128 \<and> NormalizeSources L (ss_sources s) \<noteq> None) (sc_suspended k) \<and>
     fmpred (\<lambda>i _. (case fmlookup (sc_suspended k) i of None \<Rightarrow> False | Some s \<Rightarrow> ss_enabled s)) (sc_routes k)"

definition AppliedSources :: "config \<Rightarrow> string \<Rightarrow> string list" where
  "AppliedSources c i =
     (case (if sc_stopped (cf_control c) then fmlookup (sc_suspended (cf_control c)) i else None) of
        Some s \<Rightarrow> ss_sources s
      | None \<Rightarrow> ss_sources (state_at (cf_applied c) i))"

definition ServiceDraftBaseline :: "config \<Rightarrow> (string, service_state) fmap" where
  "ServiceDraftBaseline c = (if sc_stopped (cf_control c) then sc_suspended (cf_control c) else cf_applied c)"

section \<open>Consent for a default route\<close>

definition in_list :: "string list \<Rightarrow> string \<Rightarrow> bool" where
  "in_list xs x \<longleftrightarrow> x \<in> set xs"

definition ValidateDefaultRouteGrant :: "route_grant \<Rightarrow> bool" where
  "ValidateDefaultRouteGrant g =
     (let (engine, i, exact) = (case str_cut CHR '':'' (rg_resolved g) of None \<Rightarrow> (rg_resolved g, [], False) | Some (e, i) \<Rightarrow> (e, i, True)) in
      if exact \<and> engine \<in> {''xray'', ''sing-box''} \<and> has_prefix i ''node-'' \<and> policyIdentifier i then
        rg_class g = ''node'' \<and> rg_provider g = i \<and> rg_sources g \<noteq> [] \<and> length (rg_kinds g) = length (rg_sources g) \<and>
        policyIDs (rg_sources g) 32 \<and> rg_protocols g \<noteq> [] \<and> policyIDs (rg_protocols g) 16 \<and>
        list_all policy_trust (rg_kinds g) \<and>
        list_all (in_list [''vless'', ''vmess'', ''trojan'', ''shadowsocks'', ''socks'', ''hysteria2'', ''tuic'']) (rg_protocols g)
      else if rg_sources g \<noteq> [] \<or> rg_kinds g \<noteq> [] \<or> rg_protocols g \<noteq> [] then False
      else if exact \<and> engine \<in> {''wireguard'', ''amneziawg''} \<and> policyIdentifier i \<and> rg_class g = ''private_profile'' \<and> rg_provider g = i
        then True
      else if rg_resolved g \<in> {''usque'', ''warp-wg''} then rg_class g = ''cloudflare'' \<and> rg_provider g = rg_resolved g
      else if rg_resolved g \<in> {''wireguard'', ''amneziawg''} then rg_class g = ''private_profile'' \<and> policyIdentifier (rg_provider g)
      else False)"

definition DefaultRouteConsentDigest :: "config_text \<Rightarrow> route_consent \<Rightarrow> string" where
  "DefaultRouteConsentDigest L d = ct_consent_digest L (d\<lparr>dc_config := 0, dc_digest := []\<rparr>)"

definition ValidateDefaultRouteConsent :: "config_text \<Rightarrow> route_consent option \<Rightarrow> bool" where
  "ValidateDefaultRouteConsent L x = (case x of None \<Rightarrow> True
   | Some d \<Rightarrow>
       let legacy = dc_schema d = 1 \<and> (case dc_policy d of None \<Rightarrow> False
             | Some p \<Rightarrow> np_schema p = 2 \<and> tf_mode (np_traffic p) = ''all_except'' \<and> tf_all_except_allowed (np_traffic p));
           listed = dc_schema d = 2 \<and> dc_policy d \<noteq> None \<and> ValidateListNetworkPolicy (ct_net L) (dc_policy d) = Inr ()
       in (legacy \<or> listed) \<and> consentHex (dc_installation d) 32 \<and> dc_sequence d \<noteq> 0 \<and> dc_approval d \<noteq> 0 \<and>
          dc_approval d \<le> dc_config d \<and> ValidateNetworkPolicy (ct_net L) (dc_policy d) = Inr () \<and>
          \<not> (legacy \<and> dc_grants d = []) \<and> length (dc_grants d) \<le> 64 \<and> consentHex (dc_digest d) 64 \<and>
          dc_digest d = DefaultRouteConsentDigest L d \<and>
          list_all ValidateDefaultRouteGrant (dc_grants d) \<and> distinct (map rg_resolved (dc_grants d)))"

definition CurrentDefaultRouteScopeConsent :: "config_text \<Rightarrow> config \<Rightarrow> bool" where
  "CurrentDefaultRouteScopeConsent L c = (case (cf_consent c, cf_network c) of
     (Some d, Some n) \<Rightarrow> dc_schema d = 2 \<and> cf_inactive c = None \<and> ValidateListNetworkPolicy (ct_net L) (Some n) = Inr () \<and>
       ValidateDefaultRouteConsent L (Some d) \<and> dc_config d \<le> cf_revision c \<and>
       (case dc_policy d of None \<Rightarrow> False
        | Some p \<Rightarrow> np_clients p = np_clients n \<and> tf_mode (np_traffic p) = tf_mode (np_traffic n))
   | _ \<Rightarrow> False)"

definition CurrentDefaultRouteConsent :: "config_text \<Rightarrow> config \<Rightarrow> bool" where
  "CurrentDefaultRouteConsent L c \<longleftrightarrow> CurrentDefaultRouteScopeConsent L c \<and>
     (case cf_consent c of None \<Rightarrow> False | Some d \<Rightarrow> dc_config d = cf_revision c \<and> dc_policy d = cf_network c)"

section \<open>Loading a document\<close>

definition default_engines :: "string list" where
  "default_engines = [''nfqws2'', ''sing-box'', ''xray'']"

definition no_schedule :: check_schedule where
  "no_schedule = \<lparr>sd_enabled = False, sd_interval = 0, sd_services = []\<rparr>"

definition no_control :: service_control where
  "no_control = \<lparr>sc_mode = [], sc_schedule = no_schedule, sc_stopped = False, sc_suspended = fmempty, sc_routes = fmempty\<rparr>"

definition Default :: config where
  "Default = \<lparr>cf_recipe = [], cf_applied_recipe = [], cf_schema = 2, cf_listen = '':8787'', cf_services = fmempty, cf_applied = fmempty,
     cf_engines = default_engines, cf_safe = False, cf_catalog = [], cf_revision = 0, cf_applied_revision = 0, cf_applied_at = [],
     cf_policies = fmempty, cf_control = no_control, cf_network = None, cf_applied_network = None, cf_consent = None, cf_inactive = None\<rparr>"

text \<open>
  The loop of \<open>InspectBytes\<close> over a map of services.  The comparison is between
  the state with its new sources and its normal form, so a state whose route
  fields are normal already keeps its old sources.
\<close>

definition inspected_state :: "net_text \<Rightarrow> service_state \<Rightarrow> service_state" where
  "inspected_state L s = (case NormalizeSources L (ss_sources s) of
     None \<Rightarrow> s
   | Some sources \<Rightarrow> let state = s\<lparr>ss_sources := sources\<rparr> in
       if state \<noteq> normalizeState state then normalizeState state else s)"

definition services_readable :: "net_text \<Rightarrow> (string, service_state) fmap \<Rightarrow> bool" where
  "services_readable L m \<longleftrightarrow> fmpred (\<lambda>_ s. NormalizeSources L (ss_sources s) \<noteq> None) m"

definition inspected :: "config_text \<Rightarrow> string \<Rightarrow> config \<Rightarrow> config" where
  "inspected L b c =
     (let services = fmmap (inspected_state (ct_net L)) (cf_services c);
          applied = fmmap (inspected_state (ct_net L)) (if ct_has_applied L b then cf_applied c else services)
      in c\<lparr>cf_schema := (if cf_schema c < 2 then 2 else cf_schema c),
           cf_listen := (if cf_listen c = [] then '':8787'' else cf_listen c),
           cf_services := services, cf_applied := applied,
           cf_engines := (if cf_engines c = [] then default_engines else cf_engines c),
           cf_applied_revision := (if cf_applied_revision c = 0 \<and> applied \<noteq> fmempty then cf_revision c else cf_applied_revision c)\<rparr>)"

text \<open>The parts of a document that the load validates but does not change.\<close>

definition document_ok :: "config_text \<Rightarrow> config \<Rightarrow> bool" where
  "document_ok L c \<longleftrightarrow> validateServicePolicies (ct_net L) (cf_policies c) \<and> validateNFQWSFirstStartRecipes c \<and>
     validateConfigServiceBindings c \<and> validateServiceControl (ct_net L) (cf_control c) \<and>
     ValidateNetworkPolicy (ct_net L) (cf_network c) = Inr () \<and>
     ValidateAppliedNetworkPolicy (ct_net L) (cf_applied_network c) = Inr () \<and>
     ValidateResourceExclusionStorage L c \<and> ValidateDefaultRouteConsent L (cf_consent c)"

definition InspectBytes :: "config_text \<Rightarrow> string \<Rightarrow> config option" where
  "InspectBytes L b = (case ct_decode L b of
     None \<Rightarrow> None
   | Some c \<Rightarrow>
       if cf_schema c < 0 \<or> cf_schema c > 2 then None
       else if \<not> services_readable (ct_net L) (cf_services c) then None
       else let n = inspected L b c in
         if ct_has_applied L b \<and> \<not> services_readable (ct_net L) (cf_applied c) then None
         else if document_ok L n then Some n else None)"

end
