(* ===== verification/Config_Steps.thy ===== *)
theory Config_Steps
  imports Config_Data
begin

text \<open>
  The changes of the configuration as pure functions from the current document
  to its successor: what every method of \<open>Store\<close> computes between taking the lock
  and writing the file.  \<open>Inr None\<close> is a success with nothing to write.
\<close>

type_synonym config_step = "config \<Rightarrow> config_error + config option"

definition max_revision :: "64 word" where
  "max_revision = -1"

definition bump :: "config \<Rightarrow> config" where
  "bump c = c\<lparr>cf_revision := cf_revision c + 1\<rparr>"

definition stamp_applied :: "string \<Rightarrow> config \<Rightarrow> config" where
  "stamp_applied at c = c\<lparr>cf_applied_revision := cf_revision c, cf_applied_at := at\<rparr>"

definition step_to :: "config \<Rightarrow> config_error + config option" where
  "step_to c = Inr (Some c)"

section \<open>Desired services\<close>

definition normal_state :: "net_text \<Rightarrow> service_state \<Rightarrow> service_state option" where
  "normal_state L s = map_option (\<lambda>v. normalizeState (s\<lparr>ss_sources := v\<rparr>)) (NormalizeSources L (ss_sources s))"

definition normal_states :: "net_text \<Rightarrow> (string, service_state) fmap \<Rightarrow> (string, service_state) fmap option" where
  "normal_states L m = (if fmpred (\<lambda>_ s. normal_state L s \<noteq> None) m then Some (fmmap (\<lambda>s. the (normal_state L s)) m) else None)"

definition updateService :: "config_text \<Rightarrow> string \<Rightarrow> service_state \<Rightarrow> 64 word option \<Rightarrow> config_step" where
  "updateService L i state revision c = (case normal_state (ct_net L) state of
     None \<Rightarrow> Inl ErrSources
   | Some s \<Rightarrow>
       if \<not> validateServiceProfileBinding s then Inl ErrBinding
       else if revision \<noteq> None \<and> revision \<noteq> Some (cf_revision c) then Inl ErrRevision
       else let n = c\<lparr>cf_services := fmupd i s (cf_services c)\<rparr>;
                n = (if state_at (cf_services c) i \<noteq> s
                     then fenceServicePolicy i (ss_route s) (ss_sources (state_at (cf_applied c) i)) n else n)
         in step_to (bump n))"

definition SetSafeMode :: "bool \<Rightarrow> config_step" where
  "SetSafeMode enabled c = (if cf_safe c = enabled then Inr None else step_to (bump (c\<lparr>cf_safe := enabled\<rparr>)))"

definition MergeDraft :: "config_text \<Rightarrow> (string, service_state) fmap \<Rightarrow> config_step" where
  "MergeDraft L states c = (case normal_states (ct_net L) states of
     None \<Rightarrow> Inl ErrSources
   | Some m \<Rightarrow> step_to (bump (c\<lparr>cf_services := fmadd (cf_services c) m\<rparr>)))"

definition ReplaceDraft :: "config_text \<Rightarrow> (string, service_state) fmap \<Rightarrow> config_step" where
  "ReplaceDraft L states c = (case normal_states (ct_net L) states of
     None \<Rightarrow> Inl ErrSources
   | Some m \<Rightarrow> step_to (bump (c\<lparr>cf_services := m\<rparr>)))"

definition DeleteService :: "string \<Rightarrow> config_step" where
  "DeleteService i c = step_to (bump (c\<lparr>cf_services := fmdrop i (cf_services c), cf_applied := fmdrop i (cf_applied c),
     cf_policies := fmdrop i (cf_policies c)\<rparr>))"

definition SetNFQWSFirstStartRecipe :: "64 word \<Rightarrow> string \<Rightarrow> config_step" where
  "SetNFQWSFirstStartRecipe revision recipe c =
     (if \<not> valid_recipe recipe then Inl ErrRecipe
      else if cf_revision c \<noteq> revision then Inl ErrRevision
      else if cf_recipe c = recipe then Inr None
      else step_to (bump (c\<lparr>cf_recipe := recipe\<rparr>)))"

section \<open>Applying and discarding a draft\<close>

definition validDraftScope :: "string \<Rightarrow> bool" where
  "validDraftScope scope \<longleftrightarrow> scope \<in> {''all'', ''services'', ''devices''}"

definition recipe_scope :: "string \<Rightarrow> bool" where
  "recipe_scope scope \<longleftrightarrow> scope \<in> {''all'', ''services''}"

definition service_dirty :: "string \<Rightarrow> service_state \<Rightarrow> service_state \<Rightarrow> bool" where
  "service_dirty scope desired applied =
     (if scope = ''services'' then ss_enabled desired \<noteq> ss_enabled applied \<or> ss_route desired \<noteq> ss_route applied \<or>
        ss_profile desired \<noteq> ss_profile applied
      else if scope = ''devices'' then ss_sources desired \<noteq> ss_sources applied
      else False)"

definition draftScopeDirty :: "config \<Rightarrow> string \<Rightarrow> bool" where
  "draftScopeDirty c scope =
     (if recipe_scope scope \<and> cf_recipe c \<noteq> cf_applied_recipe c then True
      else let baseline = ServiceDraftBaseline c in
        if scope = ''all'' then cf_services c \<noteq> baseline
        else \<not> fmpred (\<lambda>i _. \<not> service_dirty scope (normalizeState (state_at (cf_services c) i)) (normalizeState (state_at baseline i)))
               (fmadd (cf_services c) baseline))"

definition applied_state :: "config \<Rightarrow> string \<Rightarrow> string \<Rightarrow> service_state \<Rightarrow> service_state" where
  "applied_state c scope i state =
     (let desired = normalizeState state; applied = normalizeState (state_at (cf_applied c) i) in
      if scope = ''services'' then applied\<lparr>ss_enabled := ss_enabled desired, ss_route := ss_route desired,
        ss_mode := ss_route desired, ss_profile := ss_profile desired, ss_sources := AppliedSources c i\<rparr>
      else applied\<lparr>ss_sources := ss_sources desired\<rparr>)"

definition apply_scope :: "string \<Rightarrow> config \<Rightarrow> config" where
  "apply_scope scope c0 =
     (let c = (if recipe_scope scope then c0\<lparr>cf_applied_recipe := cf_recipe c0\<rparr> else c0) in
      c\<lparr>cf_applied := (if scope = ''all'' then cf_services c
        else fmadd (cf_applied c) (fmmap_keys (applied_state c scope) (cf_services c)))\<rparr>)"

definition clearServiceStopAfterManualApply :: "config \<Rightarrow> config" where
  "clearServiceStopAfterManualApply c =
     (if sc_stopped (cf_control c) \<and> \<not> fmpred (\<lambda>_ s. \<not> ss_enabled s) (cf_applied c)
      then c\<lparr>cf_control := (cf_control c)\<lparr>sc_stopped := False, sc_suspended := fmempty, sc_routes := fmempty\<rparr>\<rparr>
      else c)"

definition fence_changed :: "(string, service_state) fmap \<Rightarrow> (string, service_state) fmap \<Rightarrow> string \<Rightarrow> service_policy \<Rightarrow> service_policy" where
  "fence_changed previous applied i p = (case fmlookup applied i of
     None \<Rightarrow> p
   | Some s \<Rightarrow> if state_at previous i \<noteq> s then fenced (ss_route s) (ss_sources s) p else p)"

definition applyDraftScope :: "config_text \<Rightarrow> time \<Rightarrow> string \<Rightarrow> 64 word option \<Rightarrow> config_step" where
  "applyDraftScope L now scope revision c =
     (if \<not> validDraftScope scope then Inl ErrScope
      else if revision \<noteq> None \<and> revision \<noteq> Some (cf_revision c) then Inl ErrRevision
      else let n = clearServiceStopAfterManualApply (apply_scope scope c);
               n = n\<lparr>cf_policies := fmmap_keys (fence_changed (cf_applied c) (cf_applied n)) (cf_policies n)\<rparr>
        in step_to (stamp_applied (ct_time L now) n))"

definition discarded_state :: "(string, service_state) fmap \<Rightarrow> (string, service_state) fmap \<Rightarrow> string \<Rightarrow> string \<Rightarrow> service_state" where
  "discarded_state services baseline scope i =
     (let desired = normalizeState (state_at services i); applied = normalizeState (state_at baseline i) in
      if scope = ''services'' then desired\<lparr>ss_enabled := ss_enabled applied, ss_route := ss_route applied,
        ss_mode := ss_route applied, ss_profile := ss_profile applied\<rparr>
      else desired\<lparr>ss_sources := ss_sources applied\<rparr>)"

definition discardDraftScope :: "string \<Rightarrow> config \<Rightarrow> config" where
  "discardDraftScope scope c0 =
     (let c = (if recipe_scope scope then c0\<lparr>cf_recipe := cf_applied_recipe c0\<rparr> else c0);
          baseline = ServiceDraftBaseline c in
      c\<lparr>cf_services := (if scope = ''all'' then baseline
        else fmmap_keys (\<lambda>i _. discarded_state (cf_services c) baseline scope i) (fmadd (cf_services c) baseline))\<rparr>)"

definition DiscardDraftScope :: "string \<Rightarrow> config_step" where
  "DiscardDraftScope scope c = (if \<not> validDraftScope scope then Inl ErrScope else step_to (bump (discardDraftScope scope c)))"

section \<open>Runtime control\<close>

definition updateServiceControl :: "config_text \<Rightarrow> string option \<Rightarrow> check_schedule option \<Rightarrow> 64 word \<Rightarrow> config_step" where
  "updateServiceControl L mode schedule revision c =
     (if cf_revision c \<noteq> revision \<or> revision = max_revision then Inl ErrRevision
      else let k = cf_control c;
               k = (case mode of None \<Rightarrow> k | Some m \<Rightarrow> k\<lparr>sc_mode := m\<rparr>);
               k = (case schedule of None \<Rightarrow> k | Some s \<Rightarrow> k\<lparr>sc_schedule := s\<rparr>)
        in if \<not> validateServiceControl (ct_net L) k then Inl ErrControl
           else step_to (bump (c\<lparr>cf_control := k\<rparr>)))"

definition stop_control :: "config \<Rightarrow> (string, string) fmap \<Rightarrow> service_control" where
  "stop_control c resolved =
     (cf_control c)\<lparr>sc_suspended := cf_applied c,
       sc_routes := fmmap_keys (\<lambda>i _. route_at resolved i) (fmfilter (\<lambda>i. ss_enabled (state_at (cf_applied c) i)) (cf_applied c))\<rparr>"

definition CommitServiceRuntime :: "config_text \<Rightarrow> time \<Rightarrow> bool \<Rightarrow> (string, string) fmap \<Rightarrow> 64 word \<Rightarrow> config_step" where
  "CommitServiceRuntime L now stopped resolved revision c =
     (if cf_revision c \<noteq> revision \<or> revision = max_revision then Inl ErrRevision
      else if cf_safe c \<or> sc_stopped (cf_control c) = stopped then Inl ErrTransition
      else let k = (if stopped then stop_control c resolved else (cf_control c)\<lparr>sc_suspended := fmempty, sc_routes := fmempty\<rparr>);
               applied = (if stopped then fmempty else sc_suspended (cf_control c))
        in if (if stopped then sc_routes k = fmempty else sc_suspended (cf_control c) = fmempty \<or> cf_applied c \<noteq> fmempty)
           then Inl ErrTransition
           else if \<not> validateServiceControl (ct_net L) (k\<lparr>sc_stopped := stopped\<rparr>) then Inl ErrControl
           else step_to (stamp_applied (ct_time L now) (bump (c\<lparr>cf_applied := applied, cf_control := k\<lparr>sc_stopped := stopped\<rparr>\<rparr>))))"

section \<open>Service policies\<close>

definition policy_revision :: "(string, service_policy) fmap \<Rightarrow> string \<Rightarrow> 64 word" where
  "policy_revision ps i = (case fmlookup ps i of None \<Rightarrow> 0 | Some p \<Rightarrow> sp_revision p)"

definition UpdateServicePolicy :: "config_text \<Rightarrow> service_policy \<Rightarrow> 64 word \<Rightarrow> 64 word \<Rightarrow> config_step" where
  "UpdateServicePolicy L p0 revision policy c = (case NormalizeServicePolicy (ct_net L) p0 of
     None \<Rightarrow> Inl ErrServicePolicy
   | Some p \<Rightarrow>
       let i = sp_service p in
       if cf_revision c \<noteq> revision \<or> revision = max_revision \<or> policy_revision (cf_policies c) i \<noteq> policy \<or> policy = max_revision
         then Inl ErrRevision
       else if sp_sources p \<noteq> ss_sources (state_at (cf_applied c) i) then Inl ErrServicePolicy
       else if fmlookup (cf_policies c) i = None \<and> fcard (fmdom (cf_policies c)) \<ge> 128 then Inl ErrServicePolicy
       else step_to (bump (c\<lparr>cf_policies := fmupd i (p\<lparr>sp_revision := policy + 1, sp_legacy := False\<rparr>) (cf_policies c)\<rparr>)))"

definition legacy_ok :: "config \<Rightarrow> service_policy \<Rightarrow> bool" where
  "legacy_ok c p \<longleftrightarrow> (let applied = state_at (cf_applied c) (sp_service p) in
     ss_enabled applied \<and> ss_route (normalizeState applied) = ''sing-box:'' @ sp_group p \<and> ss_sources applied = sp_sources p)"

fun legacy_loop :: "net_text \<Rightarrow> config \<Rightarrow> (string, service_policy) fmap \<times> bool \<Rightarrow> service_policy list \<Rightarrow>
    config_error + (string, service_policy) fmap \<times> bool" where
  "legacy_loop L c st [] = Inr st"
| "legacy_loop L c (ps, changed) (p # rest) =
     (if fmlookup ps (sp_service p) \<noteq> None then legacy_loop L c (ps, changed) rest
      else case NormalizeServicePolicy L p of
        None \<Rightarrow> Inl ErrServicePolicy
      | Some q \<Rightarrow>
          if \<not> legacy_ok c q then Inl ErrServicePolicy
          else legacy_loop L c (fmupd (sp_service q) (q\<lparr>sp_revision := 1, sp_legacy := True\<rparr>) ps, True) rest)"

definition PreserveLegacyServicePolicies :: "config_text \<Rightarrow> service_policy list \<Rightarrow> 64 word \<Rightarrow> config_step" where
  "PreserveLegacyServicePolicies L policies revision c =
     (if cf_revision c \<noteq> revision then Inl ErrRevision
      else case legacy_loop (ct_net L) c (cf_policies c, False) policies of
        Inl e \<Rightarrow> Inl e
      | Inr (ps, changed) \<Rightarrow>
          if \<not> changed then Inr None
          else if \<not> validateServicePolicies (ct_net L) ps then Inl ErrServicePolicy
          else step_to (c\<lparr>cf_policies := ps\<rparr>))"

section \<open>Routes of one service\<close>

definition applyNodeRoute :: "config_text \<Rightarrow> time \<Rightarrow> string \<Rightarrow> string \<Rightarrow> string list option \<Rightarrow> 64 word \<Rightarrow> config_step" where
  "applyNodeRoute L now i route sources revision c = (case (case sources of None \<Rightarrow> Some None | Some v \<Rightarrow> map_option Some (NormalizeSources (ct_net L) v)) of
     None \<Rightarrow> Inl ErrSources
   | Some chosen \<Rightarrow>
       if i = [] \<or> (case ParseNodeRoute route of None \<Rightarrow> True | Some (_, target) \<Rightarrow> \<not> has_prefix target ''node-'') then Inl ErrRoute
       else if cf_revision c \<noteq> revision \<or> revision = max_revision \<or> cf_safe c then Inl ErrRevision
       else let desired = state_at (cf_services c) i;
                applied = state_at (cf_applied c) i;
                applied = (if chosen = None \<and> sc_stopped (cf_control c) then applied\<lparr>ss_sources := AppliedSources c i\<rparr> else applied);
                routed = (\<lambda>s. s\<lparr>ss_enabled := True, ss_mode := route, ss_route := route, ss_profile := [],
                  ss_sources := (case chosen of None \<Rightarrow> ss_sources s | Some v \<Rightarrow> v)\<rparr>);
                n = c\<lparr>cf_services := fmupd i (routed desired) (cf_services c), cf_applied := fmupd i (routed applied) (cf_applied c)\<rparr>
         in step_to (stamp_applied (ct_time L now) (bump
              (fenceServicePolicy i route (ss_sources (routed applied)) (clearServiceStopAfterManualApply n)))))"

definition autonomous_route :: "string \<Rightarrow> bool" where
  "autonomous_route route \<longleftrightarrow> IsExecutor route \<or> (case ParseNodeRoute route of None \<Rightarrow> False | Some (_, node) \<Rightarrow> validPolicyNode node)"

definition manual_fence :: "config \<Rightarrow> bool" where
  "manual_fence c \<longleftrightarrow> cf_safe c \<or> sc_stopped (cf_control c) \<or> EffectiveMode (cf_control c) = ''manual''"

definition ReviewedAutonomyRouteCommitImage :: "config_text \<Rightarrow> config \<Rightarrow> string \<Rightarrow> string \<Rightarrow> string list \<Rightarrow> time \<Rightarrow> config_error + config" where
  "ReviewedAutonomyRouteCommitImage L before i route sources at =
     (if \<not> policyIdentifier i \<or> \<not> autonomous_route route then Inl ErrRoute
      else case NormalizeSources (ct_net L) sources of
        None \<Rightarrow> Inl ErrSources
      | Some v \<Rightarrow>
          if at = zero_time \<or> cf_revision before = max_revision \<or> manual_fence before then Inl ErrRevision
          else let s = (state_at (cf_services before) i)\<lparr>ss_enabled := True, ss_route := route, ss_mode := route, ss_profile := [], ss_sources := v\<rparr>;
                   n = before\<lparr>cf_services := fmupd i s (cf_services before), cf_applied := fmupd i s (cf_applied before)\<rparr>
            in Inr (stamp_applied (ct_time L at) (bump (fenceServicePolicy i route v n))))"

definition ApplyAutonomyRoute :: "config_text \<Rightarrow> time \<Rightarrow> string \<Rightarrow> string \<Rightarrow> string list \<Rightarrow> 64 word \<Rightarrow> config_step" where
  "ApplyAutonomyRoute L now i route sources revision c =
     (if cf_revision c \<noteq> revision \<or> revision = max_revision \<or> manual_fence c then Inl ErrRevision
      else case ReviewedAutonomyRouteCommitImage L c i route sources now of Inl e \<Rightarrow> Inl e | Inr n \<Rightarrow> step_to n)"

definition ApplyAutonomyRemoval :: "config_text \<Rightarrow> time \<Rightarrow> string \<Rightarrow> bool \<Rightarrow> 64 word \<Rightarrow> config_step" where
  "ApplyAutonomyRemoval L now i deleted revision c =
     (if \<not> policyIdentifier i then Inl ErrRoute
      else if cf_revision c \<noteq> revision \<or> revision = max_revision \<or> manual_fence c then Inl ErrRevision
      else let n = (if deleted then c\<lparr>cf_services := fmdrop i (cf_services c), cf_applied := fmdrop i (cf_applied c),
                      cf_policies := fmdrop i (cf_policies c)\<rparr>
                    else fenceServicePolicy i [] [] (c\<lparr>
                      cf_services := fmupd i ((state_at (cf_services c) i)\<lparr>ss_enabled := False\<rparr>) (cf_services c),
                      cf_applied := fmupd i ((state_at (cf_applied c) i)\<lparr>ss_enabled := False\<rparr>) (cf_applied c)\<rparr>))
        in step_to (stamp_applied (ct_time L now) (bump n)))"

end
