(* ===== verification/Config_Network.thy ===== *)
theory Config_Network
  imports Config_Steps
begin

text \<open>
  The changes of the network policy and of the negative resources: the reviewed
  commit of \<open>network_policy_commit.go\<close>, the edits of \<open>resource_exclusions.go\<close> and
  the approval of \<open>default_route_consent.go\<close>.  Each is a whole-document compare and
  swap: the step compares the current document with the reviewed one.
\<close>

section \<open>Commit of an applied policy\<close>

definition wanted_policy :: "network_policy option \<Rightarrow> network_policy option \<Rightarrow> network_policy option" where
  "wanted_policy desired applied = (case (desired, applied) of
     (Some w, Some a) \<Rightarrow> if tf_default_route (np_traffic w) = ''auto''
       then Some (w\<lparr>np_traffic := (np_traffic w)\<lparr>tf_default_route := tf_default_route (np_traffic a)\<rparr>\<rparr>) else Some w
   | _ \<Rightarrow> desired)"

definition reviewed_services :: "net_text \<Rightarrow> (string, service_state) fmap \<Rightarrow> bool" where
  "reviewed_services L m \<longleftrightarrow> fmpred (\<lambda>i s. i \<noteq> [] \<and> NormalizeSources L (ss_sources s) = Some (ss_sources s)) m"

definition fence_commit :: "(string, service_state) fmap \<Rightarrow> (string, service_state) fmap \<Rightarrow> string \<Rightarrow> service_policy \<Rightarrow> service_policy" where
  "fence_commit previous next' i p = (case fmlookup next' i of
     Some _ \<Rightarrow> fence_changed previous next' i p
   | None \<Rightarrow> if fmlookup previous i \<noteq> None then fenced ''direct'' [] p else p)"

definition ReviewedNetworkPolicyCommitImage :: "config_text \<Rightarrow> config \<Rightarrow> network_policy option \<Rightarrow> (string, service_state) fmap \<Rightarrow> time \<Rightarrow> config_error + config" where
  "ReviewedNetworkPolicyCommitImage L expected applied services at =
     (if ValidateAppliedNetworkPolicy (ct_net L) applied \<noteq> Inr () then Inl ErrNetwork
      else if at = zero_time \<or> cf_revision expected = max_revision \<or> cf_safe expected \<or> sc_stopped (cf_control expected) then Inl ErrRevision
      else if wanted_policy (cf_network expected) applied \<noteq> applied then Inl ErrRevision
      else if \<not> reviewed_services (ct_net L) services then Inl ErrRevision
      else let next' = fmmap normalizeState services;
               n = bump (expected\<lparr>cf_applied_network := applied, cf_applied := next',
                     cf_policies := fmmap_keys (fence_commit (cf_applied expected) next') (cf_policies expected)\<rparr>);
               n = (if CurrentDefaultRouteConsent L expected
                    then n\<lparr>cf_consent := map_option (\<lambda>d. d\<lparr>dc_config := cf_revision n\<rparr>) (cf_consent n)\<rparr> else n)
        in Inr (stamp_applied (ct_time L at) n))"

definition CommitNetworkPolicy :: "config_text \<Rightarrow> time \<Rightarrow> config \<Rightarrow> network_policy option \<Rightarrow> (string, service_state) fmap \<Rightarrow> config_step" where
  "CommitNetworkPolicy L now expected applied services c =
     (case ReviewedNetworkPolicyCommitImage L expected applied services now of
        Inl e \<Rightarrow> Inl e
      | Inr n \<Rightarrow> if c \<noteq> expected then Inl ErrRevision else step_to n)"

section \<open>The saved negatives\<close>

text \<open>The part of a policy that an ordinary approval must not change.\<close>

definition negative_part :: "network_policy option \<Rightarrow> resource_exclusions option \<times> russian_exclusions \<times> network_rule list" where
  "negative_part p = (case p of
     None \<Rightarrow> (None, no_russian, [])
   | Some p \<Rightarrow> (np_exclusions p, np_russian p, filter (\<lambda>r. nr_action r = ''direct'') (np_rules p)))"

definition ResourceExclusionStateEqual :: "network_policy option \<Rightarrow> network_policy option \<Rightarrow> bool" where
  "ResourceExclusionStateEqual a b \<longleftrightarrow> negative_part a = negative_part b"

definition InactiveResourceNegatives :: "config \<Rightarrow> bool" where
  "InactiveResourceNegatives c = (case cf_inactive c of
     None \<Rightarrow> False
   | Some d \<Rightarrow> rx_schema d \<noteq> 1 \<or> rx_manual d \<noteq> [] \<or> rx_snapshot d \<noteq> None)"

definition NetworkPolicyWithRetainedExclusions :: "config_text \<Rightarrow> config \<Rightarrow> network_policy option \<Rightarrow> network_policy option" where
  "NetworkPolicyWithRetainedExclusions L expected policy = (case policy of
     None \<Rightarrow> None
   | Some p \<Rightarrow>
       if \<not> ValidateResourceExclusionStorage L expected then None
       else let out = (if cf_inactive expected \<noteq> None \<and> np_exclusions p = None then p\<lparr>np_exclusions := cf_inactive expected\<rparr> else p);
                before = (case cf_inactive expected of
                    None \<Rightarrow> negative_part (cf_network expected)
                  | Some d \<Rightarrow> (Some d, no_russian, []))
         in if before \<noteq> negative_part (Some out) then None else Some out)"

definition EffectiveConfigResourceExclusions :: "config_text \<Rightarrow> config \<Rightarrow> config_error + effective_set" where
  "EffectiveConfigResourceExclusions L c =
     (if \<not> ValidateResourceExclusionStorage L c then Inl ErrExclusions
      else case EffectiveResourceExclusions (ct_net L) (cf_network c) of
        Inl _ \<Rightarrow> Inl ErrNetwork
      | Inr v \<Rightarrow> (case cf_inactive c of
          None \<Rightarrow> Inr v
        | Some d \<Rightarrow>
            let v = v\<lparr>ef_revision := rx_revision d, ef_manual := normalized (ct_net L) (rx_manual d), ef_digest := []\<rparr>
            in Inr (v\<lparr>ef_digest := nt_digest (ct_net L) v\<rparr>)))"

definition ConfigResourceExcluded :: "config_text \<Rightarrow> config \<Rightarrow> resource_target \<Rightarrow> config_error + bool" where
  "ConfigResourceExcluded L c t = (case EffectiveConfigResourceExclusions L c of
     Inl e \<Rightarrow> Inl e
   | Inr v \<Rightarrow> (case Matches (ct_net L) v t of Inl _ \<Rightarrow> Inl ErrExclusions | Inr b \<Rightarrow> Inr b))"

section \<open>Edits of the negatives\<close>

record exclusions_patch =
  xp_manual :: "resource_match list option"
  xp_accepted :: "russian_snapshot option"
  xp_enabled :: "bool option"
  xp_auto_update :: "bool option"

definition last_revision :: "64 word" where
  "last_revision = -2"

definition empty_exclusions :: resource_exclusions where
  "empty_exclusions = \<lparr>rx_schema = 1, rx_revision = 0, rx_manual = [], rx_snapshot = None\<rparr>"

definition patch_refused :: "config_text \<Rightarrow> config \<Rightarrow> exclusions_patch \<Rightarrow> bool" where
  "patch_refused L expected x \<longleftrightarrow>
     \<not> ValidateResourceExclusionStorage L expected \<or> ValidateListNetworkPolicy (ct_net L) (cf_network expected) \<noteq> Inr () \<or>
     xp_manual x = None \<and> xp_accepted x = None \<and> xp_enabled x = None \<and> xp_auto_update x = None \<or>
     cf_revision expected = max_revision \<or>
     (case cf_network expected of None \<Rightarrow> False | Some p \<Rightarrow> last_revision \<le> np_revision p)"

definition manual_entries :: "config_text \<Rightarrow> resource_match list \<Rightarrow> resource_match list option" where
  "manual_entries L ms = (case NormalizeResourceMatches (ct_net L) ms of
     None \<Rightarrow> None
   | Some es \<Rightarrow> if length es > 512 then None else Some es)"

text \<open>Without a policy only the manual entries of the inactive document can change.\<close>

definition patch_inactive :: "config_text \<Rightarrow> config \<Rightarrow> exclusions_patch \<Rightarrow> config_error + config" where
  "patch_inactive L c x = (case xp_manual x of
     None \<Rightarrow> Inl ErrExclusions
   | Some ms \<Rightarrow>
       if xp_accepted x \<noteq> None \<or> xp_enabled x \<noteq> None \<or> xp_auto_update x \<noteq> None then Inl ErrExclusions
       else let d = (case cf_inactive c of None \<Rightarrow> empty_exclusions | Some d \<Rightarrow> d) in
         case manual_entries L ms of
           None \<Rightarrow> Inl ErrExclusions
         | Some es \<Rightarrow>
             if last_revision \<le> rx_revision d then Inl ErrExclusions
             else if es = [] \<and> rx_snapshot d = None then Inr (c\<lparr>cf_inactive := None\<rparr>)
             else Inr (c\<lparr>cf_inactive := Some (d\<lparr>rx_manual := es, rx_revision := rx_revision d + 1\<rparr>)\<rparr>))"

definition switched_russian :: "exclusions_patch \<Rightarrow> russian_exclusions \<Rightarrow> russian_exclusions" where
  "switched_russian x r =
     (let r = (case xp_auto_update x of None \<Rightarrow> r | Some b \<Rightarrow> r\<lparr>ru_auto_update := b\<rparr>) in
      case xp_enabled x of
        None \<Rightarrow> r
      | Some b \<Rightarrow> if b then r\<lparr>ru_enabled := True\<rparr> else r\<lparr>ru_enabled := False, ru_auto_update := False\<rparr>)"

definition accepted_exclusions :: "config_text \<Rightarrow> bool \<Rightarrow> russian_snapshot option \<Rightarrow> resource_exclusions \<Rightarrow> config_error + resource_exclusions" where
  "accepted_exclusions L enabled accepted d = (case accepted of
     None \<Rightarrow> Inr d
   | Some s \<Rightarrow>
       if \<not> enabled \<or> \<not> valid_snapshot (ct_net L) s then Inl ErrExclusions
       else if (case rx_snapshot d of None \<Rightarrow> False | Some prior \<Rightarrow> rs_catalog prior \<noteq> rs_catalog s \<or> rs_revision s \<le> rs_revision prior)
         then Inl ErrRevision
       else Inr (d\<lparr>rx_snapshot := Some (s\<lparr>rs_entries := normalized (ct_net L) (rs_entries s)\<rparr>)\<rparr>))"

definition patch_policy :: "config_text \<Rightarrow> network_policy \<Rightarrow> exclusions_patch \<Rightarrow> config_error + network_policy" where
  "patch_policy L p0 x =
     (let p = p0\<lparr>np_russian := switched_russian x (np_russian p0)\<rparr>;
          d = (case np_exclusions p of None \<Rightarrow> empty_exclusions | Some d \<Rightarrow> d) in
      if last_revision \<le> rx_revision d then Inl ErrExclusions
      else case (case xp_manual x of None \<Rightarrow> Some d | Some ms \<Rightarrow> map_option (\<lambda>es. d\<lparr>rx_manual := es\<rparr>) (manual_entries L ms)) of
        None \<Rightarrow> Inl ErrExclusions
      | Some d1 \<Rightarrow> (case accepted_exclusions L (ru_enabled (np_russian p)) (xp_accepted x) d1 of
          Inl e \<Rightarrow> Inl e
        | Inr d2 \<Rightarrow>
            let q = p\<lparr>np_exclusions := Some (d2\<lparr>rx_revision := rx_revision d2 + 1\<rparr>), np_revision := np_revision p + 1\<rparr> in
            if ValidateNetworkPolicy (ct_net L) (Some q) \<noteq> Inr () then Inl ErrExclusions else Inr q))"

definition exclusions_image :: "config_text \<Rightarrow> config \<Rightarrow> exclusions_patch \<Rightarrow> config_error + config" where
  "exclusions_image L expected x =
     (if patch_refused L expected x then Inl ErrExclusions
      else case cf_network expected of
        None \<Rightarrow> patch_inactive L expected x
      | Some p \<Rightarrow> (case patch_policy L p x of Inl e \<Rightarrow> Inl e | Inr q \<Rightarrow> Inr (expected\<lparr>cf_network := Some q\<rparr>)))"

definition UpdateResourceExclusionsPatch :: "config_text \<Rightarrow> config \<Rightarrow> exclusions_patch \<Rightarrow> config_step" where
  "UpdateResourceExclusionsPatch L expected x c = (case exclusions_image L expected x of
     Inl e \<Rightarrow> Inl e
   | Inr n \<Rightarrow> if c \<noteq> expected then Inl ErrRevision else step_to (bump n))"

section \<open>Approval of a default route\<close>

definition consent_of :: "config_text \<Rightarrow> config \<Rightarrow> network_policy \<Rightarrow> route_grant list \<Rightarrow> string \<Rightarrow> 64 word \<Rightarrow> route_consent" where
  "consent_of L expected policy grants installation sequence =
     (let d = \<lparr>dc_schema = 2, dc_installation = installation, dc_sequence = sequence, dc_approval = cf_revision expected + 1,
        dc_config = cf_revision expected + 1, dc_policy = Some policy, dc_grants = grants, dc_digest = []\<rparr>
      in d\<lparr>dc_digest := DefaultRouteConsentDigest L d\<rparr>)"

definition ApproveDefaultRouteConsent :: "config_text \<Rightarrow> config \<Rightarrow> network_policy option \<Rightarrow> route_grant list \<Rightarrow> string \<Rightarrow> 64 word \<Rightarrow> config_step" where
  "ApproveDefaultRouteConsent L expected policy grants installation sequence c =
     (if policy = None \<or> cf_revision expected = max_revision then Inl ErrConsent
      else case NetworkPolicyWithRetainedExclusions L expected policy of
        None \<Rightarrow> Inl ErrConsent
      | Some p \<Rightarrow>
          if ValidateListNetworkPolicy (ct_net L) (Some p) \<noteq> Inr () then Inl ErrConsent
          else let previous = (case cf_network expected of None \<Rightarrow> 0 | Some n \<Rightarrow> np_revision n) in
            if last_revision \<le> previous \<or> np_revision p \<noteq> previous + 1 then Inl ErrRevision
            else let d = consent_of L expected p grants installation sequence in
              if \<not> ValidateDefaultRouteConsent L (Some d) then Inl ErrConsent
              else if c \<noteq> expected then Inl ErrRevision
              else step_to (bump (c\<lparr>cf_network := Some p, cf_inactive := None, cf_consent := Some d\<rparr>)))"

end
