(* ===== verification/Config_Store.thy ===== *)
theory Config_Store
  imports Config_Network
begin

text \<open>
  \<open>internal/config\<close>: the store of the configuration over its file.  A method
  computes its successor document (\<open>Config_Steps\<close>, \<open>Config_Network\<close>), writes it by a
  compare and swap of the image last seen on disk, and takes the document back
  when the write fails.  \<open>cs_uncertain\<close> is set when a failed write may have reached the
  disk.  The mutex makes every method one operation.
\<close>

section \<open>State\<close>

text \<open>What the undo function of a commit has captured.\<close>

record undo_handle =
  uh_previous :: config
  uh_committed :: config
  uh_once :: bool
  uh_used :: bool

record config_store =
  cs_config :: config
  cs_image :: image
  cs_uncertain :: bool
  cs_content :: file_content
  cs_undos :: "undo_handle list"
  cs_up :: bool

type_synonym 'a store_op = "(config_store, config_error, 'a) op"

section \<open>Writing the document\<close>

text \<open>Every save opens the target anew; closing it only drops its lease.\<close>

definition open_file :: "config_store \<Rightarrow> file_target" where
  "open_file s = \<lparr>ft_closed = False, ft_content = cs_content s\<rparr>"

definition on_file :: "(file_target, rj_error, 'a) op \<Rightarrow> 'a store_op" where
  "on_file m = op_remap ErrStorage (op_zoom open_file (\<lambda>f s. s\<lparr>cs_content := ft_content f\<rparr>) m)"

definition file_image :: "string \<Rightarrow> image" where
  "file_image b = \<lparr>img_exists = True, img_data = b\<rparr>"

definition fail_uncertain :: "unit store_op" where
  "fail_uncertain = op_seq (op_modify (\<lambda>s. s\<lparr>cs_uncertain := True\<rparr>)) (op_fail (ErrStorage RjRecovery))"

definition persistLocked :: "string \<Rightarrow> unit store_op" where
  "persistLocked b =
     op_bind (op_get cs_image) (\<lambda>before.
     op_bind (op_try (on_file (CompareAndSwap before (file_image b)))) (\<lambda>r. case r of
       Inr _ \<Rightarrow> op_modify (\<lambda>s. s\<lparr>cs_image := file_image b\<rparr>)
     | Inl e \<Rightarrow>
         if e \<noteq> ErrStorage RjRecovery then op_fail e
         else op_bind (op_try (on_file ft_read)) (\<lambda>a. case a of
             Inr actual \<Rightarrow> if actual = before then op_fail (ErrStorage RjAborted) else fail_uncertain
           | Inl _ \<Rightarrow> fail_uncertain)))"

definition saveLocked :: "config_text \<Rightarrow> unit store_op" where
  "saveLocked L =
     op_bind (op_get cs_config) (\<lambda>c.
     op_seq (op_guard (validateNFQWSFirstStartRecipes c) ErrRecipe) (
     op_seq (op_guard (ValidateResourceExclusionStorage L c) ErrExclusions) (
     op_seq (op_guard (validateConfigServiceBindings c) ErrBinding) (
     op_bind (op_get cs_uncertain) (\<lambda>u.
     op_seq (op_guard (\<not> u) (ErrStorage RjRecovery)) (
     op_seq (op_check (ErrStorage RjUnavailable)) (
     op_seq (op_check (ErrStorage RjBusy)) (
     op_seq (on_file ft_read) (
     persistLocked (ct_encode L c))))))))))"

text \<open>The common shape of the methods: compute, save, take back on failure.\<close>

definition transact :: "config_text \<Rightarrow> config_step \<Rightarrow> (config \<times> config) option store_op" where
  "transact L f = op_bind (op_get cs_config) (\<lambda>c. case f c of
     Inl e \<Rightarrow> op_fail e
   | Inr None \<Rightarrow> op_return None
   | Inr (Some n) \<Rightarrow>
       op_seq (op_modify (\<lambda>s. s\<lparr>cs_config := n\<rparr>)) (
       op_bind (op_try (saveLocked L)) (\<lambda>r. case r of
         Inr _ \<Rightarrow> op_return (Some (c, n))
       | Inl e \<Rightarrow> op_seq (op_modify (\<lambda>s. s\<lparr>cs_config := c\<rparr>)) (op_fail e))))"

definition plain :: "config_text \<Rightarrow> config_step \<Rightarrow> unit store_op" where
  "plain L f = op_bind (transact L f) (\<lambda>_. op_return ())"

definition with_undo :: "config_text \<Rightarrow> bool \<Rightarrow> config_step \<Rightarrow> unit store_op" where
  "with_undo L once f = op_bind (transact L f) (\<lambda>r. case r of
     None \<Rightarrow> op_return ()
   | Some (c, n) \<Rightarrow> op_modify (\<lambda>s. s\<lparr>cs_undos := cs_undos s @
       [\<lparr>uh_previous = c, uh_committed = n, uh_once = once, uh_used = False\<rparr>]\<rparr>))"

definition undo_step :: "undo_handle \<Rightarrow> config_step" where
  "undo_step h c = (if c \<noteq> uh_committed h then Inl ErrUndo else step_to (uh_previous h))"

definition run_undo :: "config_text \<Rightarrow> nat \<Rightarrow> unit store_op" where
  "run_undo L i = op_bind (op_get cs_undos) (\<lambda>hs.
     if i \<ge> length hs \<or> uh_once (hs ! i) \<and> uh_used (hs ! i) then op_return ()
     else op_bind (transact L (undo_step (hs ! i))) (\<lambda>_.
       op_modify (\<lambda>s. s\<lparr>cs_undos := hs[i := (hs ! i)\<lparr>uh_used := True\<rparr>]\<rparr>)))"

text \<open>The reads that bind an independent receipt to the saved revision.\<close>

definition observation_check :: "64 word \<Rightarrow> unit store_op" where
  "observation_check revision =
     op_seq (op_check (ErrStorage RjAborted)) (
     op_bind (op_get (\<lambda>s. cs_uncertain s \<or> cf_revision (cs_config s) \<noteq> revision)) (\<lambda>bad.
     op_seq (op_guard (\<not> bad) ErrRevision) (
     op_bind (on_file readTarget) (\<lambda>actual.
     op_bind (op_get cs_image) (\<lambda>known.
     op_guard (actual = known) ErrRevision)))))"

definition WithRevisionObservation :: "64 word \<Rightarrow> unit store_op \<Rightarrow> unit store_op" where
  "WithRevisionObservation revision observe =
     op_seq (observation_check revision) (op_seq observe (observation_check revision))"

definition WithResourceExclusionObservation :: "config_text \<Rightarrow> config \<Rightarrow> (effective_set \<Rightarrow> unit store_op) \<Rightarrow> unit store_op" where
  "WithResourceExclusionObservation L expected use =
     WithRevisionObservation (cf_revision expected) (
       op_bind (op_get cs_config) (\<lambda>c.
       op_seq (op_guard (c = expected \<and> ValidateListNetworkPolicy (ct_net L) (cf_network c) = Inr ()) ErrRevision) (
       op_bind (op_get (\<lambda>s. EffectiveConfigResourceExclusions L (cs_config s))) (\<lambda>v. case v of
         Inl e \<Rightarrow> op_fail e
       | Inr ex \<Rightarrow> op_seq (use ex) (
           op_bind (op_get cs_config) (\<lambda>c. op_guard (c = expected) ErrRevision))))))"

definition manual_to_auto :: "config_text \<Rightarrow> 64 word \<Rightarrow> config_step" where
  "manual_to_auto L revision c =
     (if cf_revision c = max_revision \<or> sc_mode (cf_control c) \<noteq> ''manual'' \<or> cf_safe c \<or> sc_stopped (cf_control c) \<or>
         cf_revision c \<noteq> revision then Inl ErrRevision
      else updateServiceControl L (Some ''auto'') None revision c)"

definition UpdateManualToAutoReviewed :: "config_text \<Rightarrow> 64 word \<Rightarrow> unit store_op" where
  "UpdateManualToAutoReviewed L revision =
     op_seq (op_check ErrRevision) (
     op_bind (op_get cs_uncertain) (\<lambda>u.
     op_seq (op_guard (\<not> u) (ErrStorage RjRecovery)) (
     op_bind (op_get cs_config) (\<lambda>before. case manual_to_auto L revision before of
       Inl _ \<Rightarrow> op_fail ErrRevision
     | Inr _ \<Rightarrow>
         op_seq (WithResourceExclusionObservation L before (\<lambda>_. op_return ())) (
         op_seq (op_check ErrRevision) (
         with_undo L True (\<lambda>c. if c \<noteq> before then Inl ErrRevision else manual_to_auto L revision c)))))))"

section \<open>Loading\<close>

definition fresh_store :: "config \<Rightarrow> image \<Rightarrow> file_content \<Rightarrow> config_store" where
  "fresh_store c i content = \<lparr>cs_config = c, cs_image = i, cs_uncertain = False, cs_content = content, cs_undos = [], cs_up = False\<rparr>"

text \<open>\<open>load\<close> starts from the content of the file; the state it is given is forgotten.\<close>

definition load :: "config_text \<Rightarrow> bool \<Rightarrow> unit store_op" where
  "load L create =
     op_seq (op_modify (\<lambda>s. fresh_store Default absent_image (cs_content s))) (
     op_bind (on_file readTarget) (\<lambda>i.
     op_seq (
       if \<not> img_exists i then (if create then saveLocked L else op_fail ErrNotExist)
       else case InspectBytes L (img_data i) of
         None \<Rightarrow> op_fail ErrDecode
       | Some c \<Rightarrow> op_modify (\<lambda>s. s\<lparr>cs_config := c, cs_image := i\<rparr>)) (
     op_modify (\<lambda>s. s\<lparr>cs_up := True\<rparr>))))"

section \<open>Events\<close>

datatype config_event =
    EvUpdateService string service_state "64 word option"
  | EvSafeMode bool
  | EvMerge "(string, service_state) fmap"
  | EvReplace "(string, service_state) fmap"
  | EvDelete string
  | EvRecipe "64 word" string
  | EvApply time string "64 word option"
  | EvDiscard string
  | EvControl "string option" "check_schedule option" "64 word"
  | EvRuntime time bool "(string, string) fmap" "64 word"
  | EvPolicy service_policy "64 word" "64 word"
  | EvLegacy "service_policy list" "64 word"
  | EvNodeRoute time string string "string list option" "64 word"
  | EvAutonomyRoute time string string "string list" "64 word"
  | EvAutonomyRemoval time string bool "64 word"
  | EvNetwork time config "network_policy option" "(string, service_state) fmap"
  | EvExclusions config exclusions_patch
  | EvConsent config "network_policy option" "route_grant list" string "64 word"

text \<open>The step of an event, and whether its commit returns an undo function that runs at most once.\<close>

fun event_step :: "config_text \<Rightarrow> config_event \<Rightarrow> config_step" where
  "event_step L (EvUpdateService i s r) = updateService L i s r"
| "event_step L (EvSafeMode b) = SetSafeMode b"
| "event_step L (EvMerge m) = MergeDraft L m"
| "event_step L (EvReplace m) = ReplaceDraft L m"
| "event_step L (EvDelete i) = DeleteService i"
| "event_step L (EvRecipe r v) = SetNFQWSFirstStartRecipe r v"
| "event_step L (EvApply t scope r) = applyDraftScope L t scope r"
| "event_step L (EvDiscard scope) = DiscardDraftScope scope"
| "event_step L (EvControl m s r) = updateServiceControl L m s r"
| "event_step L (EvRuntime t b m r) = CommitServiceRuntime L t b m r"
| "event_step L (EvPolicy p r q) = UpdateServicePolicy L p r q"
| "event_step L (EvLegacy ps r) = PreserveLegacyServicePolicies L ps r"
| "event_step L (EvNodeRoute t i r v n) = applyNodeRoute L t i r v n"
| "event_step L (EvAutonomyRoute t i r v n) = ApplyAutonomyRoute L t i r v n"
| "event_step L (EvAutonomyRemoval t i b n) = ApplyAutonomyRemoval L t i b n"
| "event_step L (EvNetwork t c p m) = CommitNetworkPolicy L t c p m"
| "event_step L (EvExclusions c x) = UpdateResourceExclusionsPatch L c x"
| "event_step L (EvConsent c p g i n) = ApproveDefaultRouteConsent L c p g i n"

definition event_undo :: "config_event \<Rightarrow> bool option" where
  "event_undo e = (case e of
     EvReplace _ \<Rightarrow> Some True
   | EvApply _ _ _ \<Rightarrow> Some True
   | EvRuntime _ _ _ _ \<Rightarrow> Some False
   | EvNodeRoute _ _ _ _ _ \<Rightarrow> Some True
   | EvAutonomyRoute _ _ _ _ _ \<Rightarrow> Some True
   | EvAutonomyRemoval _ _ _ _ \<Rightarrow> Some True
   | EvNetwork _ _ _ _ \<Rightarrow> Some True
   | _ \<Rightarrow> None)"

definition perform_event :: "config_text \<Rightarrow> config_event \<Rightarrow> unit store_op" where
  "perform_event L e = (case event_undo e of
     None \<Rightarrow> plain L (event_step L e)
   | Some once \<Rightarrow> with_undo L once (event_step L e))"

text \<open>What a process and its restarts do with the store; a failed load leaves no store to call.\<close>

datatype store_event = Change config_event | Undo nat | ManualToAuto "64 word" | Restart bool

definition running :: "unit store_op \<Rightarrow> unit store_op" where
  "running m = op_bind (op_get cs_up) (\<lambda>u. if u then m else op_return ())"

fun perform_store :: "config_text \<Rightarrow> store_event \<Rightarrow> unit store_op" where
  "perform_store L (Change e) = running (perform_event L e)"
| "perform_store L (Undo i) = running (run_undo L i)"
| "perform_store L (ManualToAuto r) = running (UpdateManualToAutoReviewed L r)"
| "perform_store L (Restart create) = load L create"

text \<open>One call or start in a world that answers as it likes, and whether it returned without an error.\<close>

inductive store_step :: "config_text \<Rightarrow> config_store \<Rightarrow> store_event \<times> bool \<Rightarrow> config_store \<Rightarrow> bool" for L where
  store_ok: "perform_store L e (t, s) = (Inr (), t', s') \<Longrightarrow> store_step L s (e, True) s'"
| store_failed: "perform_store L e (t, s) = (Inl x, t', s') \<Longrightarrow> store_step L s (e, False) s'"

end
