(* ===== verification/Config_Refinement.thy ===== *)
theory Config_Refinement
  imports Config_Store
begin

text \<open>
  The store of the configuration as an atomic register: every method either
  commits its successor document to memory and disk, or leaves the memory alone,
  and a write of unknown outcome closes the register until the next start.
\<close>

section \<open>Effects of a save\<close>

text \<open>The checks that every save makes before it writes.\<close>

definition saved_ok :: "config_text \<Rightarrow> config \<Rightarrow> bool" where
  "saved_ok L c \<longleftrightarrow> validateNFQWSFirstStartRecipes c \<and> ValidateResourceExclusionStorage L c \<and> validateConfigServiceBindings c"

lemma on_file_wp:
  assumes "wp m (\<lambda>x f. Q x (s\<lparr>cs_content := ft_content f\<rparr>)) (\<lambda>e f. E (ErrStorage e) (s\<lparr>cs_content := ft_content f\<rparr>)) (open_file s)"
  shows "wp (on_file m) Q E s"
  unfolding on_file_def by (intro wp_remap wp_zoom) (rule assms)

lemma on_file_read_wp: "wp (on_file ft_read) (\<lambda>i s'. s' = s \<and> ft_holds (open_file s) = Some i) (\<lambda>_ s'. s' = s) s"
  by (rule on_file_wp, rule wp_mono [OF ft_read_wp]) (simp_all add: open_file_def)

lemma on_file_cas_wp:
  "wp (on_file (CompareAndSwap b (file_image d)))
    (\<lambda>_ s'. length d \<le> MaxImageBytes \<and> s' = s\<lparr>cs_content := Regular d\<rparr>)
    (\<lambda>e s'. s' = s \<or> e = ErrStorage RjRecovery \<and> b \<noteq> file_image d \<and> length d \<le> MaxImageBytes \<and> s' = s\<lparr>cs_content := Regular d\<rparr>) s"
  by (rule on_file_wp, rule wp_mono [OF CompareAndSwap_content])
    (auto simp: open_file_def file_image_def image_content_def validImage_def)

text \<open>The states a failed save may leave.\<close>

definition save_lost :: "string \<Rightarrow> config_store \<Rightarrow> config_store \<Rightarrow> bool" where
  "save_lost d s s' \<longleftrightarrow> s' = s \<or>
     \<not> cs_uncertain s \<and> (\<exists>x. (x = cs_content s \<or> length d \<le> MaxImageBytes \<and> x = Regular d) \<and> s' = s\<lparr>cs_content := x, cs_uncertain := True\<rparr>)"

lemma save_lost_refl: "save_lost d s s"
  by (simp add: save_lost_def)

lemma fail_uncertain_wp: "E (ErrStorage RjRecovery) (s\<lparr>cs_uncertain := True\<rparr>) \<Longrightarrow> wp fail_uncertain Q E s"
  unfolding fail_uncertain_def by (intro wp_seq wp_modify wp_fail)

definition reread :: "image \<Rightarrow> unit store_op" where
  "reread before = op_bind (op_try (on_file ft_read)) (\<lambda>a. case a of
     Inr actual \<Rightarrow> if actual = before then op_fail (ErrStorage RjAborted) else fail_uncertain
   | Inl _ \<Rightarrow> fail_uncertain)"

lemma reread_wp:
  assumes "ft_holds (open_file s) = Some before \<Longrightarrow> E (ErrStorage RjAborted) s"
    "E (ErrStorage RjRecovery) (s\<lparr>cs_uncertain := True\<rparr>)"
  shows "wp (reread before) Q E s"
proof -
  have "wp (on_file ft_read) (\<lambda>i. wp (if i = before then op_fail (ErrStorage RjAborted) else fail_uncertain) Q E)
      (\<lambda>_. wp fail_uncertain Q E) s"
    by (rule wp_mono [OF on_file_read_wp]) (use assms in \<open>auto intro!: wp_if wp_fail fail_uncertain_wp\<close>)
  then show ?thesis
    unfolding reread_def by (intro wp_bind wp_try) simp
qed

lemma persist_document_wp:
  assumes "\<not> cs_uncertain s"
  shows "wp (persistLocked d)
    (\<lambda>_ s'. length d \<le> MaxImageBytes \<and> s' = s\<lparr>cs_content := Regular d, cs_image := file_image d\<rparr>) (\<lambda>_ s'. save_lost d s s') s"
proof -
  let ?Q = "\<lambda>_ s'. length d \<le> MaxImageBytes \<and> s' = s\<lparr>cs_content := Regular d, cs_image := file_image d\<rparr>" and ?E = "\<lambda>_ s'. save_lost d s s'"
  have other: "ft_holds (open_file (s\<lparr>cs_content := Regular d\<rparr>)) \<noteq> Some (cs_image s)" if "cs_image s \<noteq> file_image d"
    using that by (auto simp: ft_holds_def open_file_def file_image_def)
  have "wp (on_file (CompareAndSwap (cs_image s) (file_image d)))
      (\<lambda>_. wp (op_modify (\<lambda>s. s\<lparr>cs_image := file_image d\<rparr>)) ?Q ?E)
      (\<lambda>e. wp (if e \<noteq> ErrStorage RjRecovery then op_fail e else reread (cs_image s)) ?Q ?E) s"
    by (rule wp_mono [OF on_file_cas_wp])
      (use other assms in \<open>auto intro!: wp_modify wp_if wp_fail reread_wp simp: save_lost_def\<close>)
  then show ?thesis
    unfolding persistLocked_def reread_def [symmetric] by (intro wp_bind wp_get wp_try) simp
qed

lemma save_document_wp:
  "wp (saveLocked L)
    (\<lambda>_ s'. \<not> cs_uncertain s \<and> saved_ok L (cs_config s) \<and> length (ct_encode L (cs_config s)) \<le> MaxImageBytes \<and>
       s' = s\<lparr>cs_content := Regular (ct_encode L (cs_config s)), cs_image := file_image (ct_encode L (cs_config s))\<rparr>)
    (\<lambda>_ s'. s' = s \<or> saved_ok L (cs_config s) \<and> save_lost (ct_encode L (cs_config s)) s s') s"
proof -
  have saves: "wp (on_file ft_read) (\<lambda>_. wp (persistLocked d) (\<lambda>_ s'. length d \<le> MaxImageBytes \<and> s' = s\<lparr>cs_content := Regular d, cs_image := file_image d\<rparr>)
      (\<lambda>_ s'. s' = s \<or> save_lost d s s')) (\<lambda>_ s'. s' = s \<or> save_lost d s s') s" if "\<not> cs_uncertain s" for d
    by (rule wp_mono [OF on_file_read_wp]) (auto intro: wp_mono [OF persist_document_wp [OF that]])
  show ?thesis
    unfolding saveLocked_def
    by (intro wp_bind wp_seq wp_get wp_guard wp_check) (simp_all add: saved_ok_def saves)
qed

section \<open>The register\<close>

definition storable :: "config_text \<Rightarrow> config \<Rightarrow> bool" where
  "storable L c \<longleftrightarrow> saved_ok L c \<and> length (ct_encode L c) \<le> MaxImageBytes"

text \<open>
  What is left of a store when the image last seen is forgotten: the document in
  memory, the file, whether writes are closed, the undo functions, and whether a
  store exists at all.
\<close>

record register =
  rg_now :: config
  rg_disk :: file_content
  rg_closed :: bool
  rg_undos :: "undo_handle list"
  rg_up :: bool

definition register_of :: "config_store \<Rightarrow> register" where
  "register_of s = \<lparr>rg_now = cs_config s, rg_disk = cs_content s, rg_closed = cs_uncertain s, rg_undos = cs_undos s, rg_up = cs_up s\<rparr>"

text \<open>
  One atomic change of the document by \<open>f\<close>, with \<open>post\<close> the bookkeeping of a
  commit from one document to the next, and whether the caller sees success.
\<close>

inductive atomically :: "config_text \<Rightarrow> config_step \<Rightarrow> (config \<Rightarrow> config \<Rightarrow> undo_handle list \<Rightarrow> undo_handle list) \<Rightarrow>
    register \<Rightarrow> bool \<Rightarrow> register \<Rightarrow> bool"
  for L f post where
  at_refused: "atomically L f post r False r"
| at_nothing: "f (rg_now r) = Inr None \<Longrightarrow> atomically L f post r True r"
| at_commit: "\<not> rg_closed r \<Longrightarrow> f (rg_now r) = Inr (Some n) \<Longrightarrow> storable L n \<Longrightarrow>
    atomically L f post r True (r\<lparr>rg_now := n, rg_disk := Regular (ct_encode L n), rg_undos := post (rg_now r) n (rg_undos r)\<rparr>)"
| at_lost: "\<not> rg_closed r \<Longrightarrow> f (rg_now r) = Inr (Some n) \<Longrightarrow> d = rg_disk r \<or> storable L n \<and> d = Regular (ct_encode L n) \<Longrightarrow>
    atomically L f post r False (r\<lparr>rg_disk := d, rg_closed := True\<rparr>)"

text \<open>A start: the saved document comes up, or a new one where none was, or nothing does.\<close>

inductive started :: "config_text \<Rightarrow> bool \<Rightarrow> register \<Rightarrow> bool \<Rightarrow> register \<Rightarrow> bool" for L create where
  st_down: "d = rg_disk r \<or> create \<and> rg_disk r = Absent \<and> storable L Default \<and> d = Regular (ct_encode L Default) \<Longrightarrow>
    started L create r False \<lparr>rg_now = Default, rg_disk = d, rg_closed = x, rg_undos = [], rg_up = False\<rparr>"
| st_loaded: "rg_disk r = Regular b \<Longrightarrow> length b \<le> MaxImageBytes \<Longrightarrow> InspectBytes L b = Some n \<Longrightarrow>
    started L create r True \<lparr>rg_now = n, rg_disk = Regular b, rg_closed = False, rg_undos = [], rg_up = True\<rparr>"
| st_created: "create \<Longrightarrow> rg_disk r = Absent \<Longrightarrow> storable L Default \<Longrightarrow>
    started L create r True \<lparr>rg_now = Default, rg_disk = Regular (ct_encode L Default), rg_closed = False, rg_undos = [], rg_up = True\<rparr>"

definition push :: "bool option \<Rightarrow> config \<Rightarrow> config \<Rightarrow> undo_handle list \<Rightarrow> undo_handle list" where
  "push once c n hs = (case once of None \<Rightarrow> hs
   | Some b \<Rightarrow> hs @ [\<lparr>uh_previous = c, uh_committed = n, uh_once = b, uh_used = False\<rparr>])"

definition spent :: "undo_handle list \<Rightarrow> nat \<Rightarrow> bool" where
  "spent hs i \<longleftrightarrow> i \<ge> length hs \<or> uh_once (hs ! i) \<and> uh_used (hs ! i)"

definition is_start :: "store_event \<Rightarrow> bool" where
  "is_start e = (case e of Restart _ \<Rightarrow> True | _ \<Rightarrow> False)"

inductive register_step :: "config_text \<Rightarrow> register \<Rightarrow> store_event \<times> bool \<Rightarrow> register \<Rightarrow> bool" for L where
  rs_down: "\<not> rg_up r \<Longrightarrow> \<not> is_start e \<Longrightarrow> register_step L r (e, True) r"
| rs_change: "rg_up r \<Longrightarrow> atomically L (event_step L e) (push (event_undo e)) r ok r' \<Longrightarrow> register_step L r (Change e, ok) r'"
| rs_spent: "rg_up r \<Longrightarrow> spent (rg_undos r) i \<Longrightarrow> register_step L r (Undo i, True) r"
| rs_undo: "rg_up r \<Longrightarrow> \<not> spent (rg_undos r) i \<Longrightarrow>
    atomically L (undo_step (rg_undos r ! i)) (\<lambda>_ _ hs. hs[i := (hs ! i)\<lparr>uh_used := True\<rparr>]) r ok r' \<Longrightarrow>
    register_step L r (Undo i, ok) r'"
| rs_auto: "rg_up r \<Longrightarrow> atomically L (manual_to_auto L v) (push (Some True)) r ok r' \<Longrightarrow> register_step L r (ManualToAuto v, ok) r'"
| rs_start: "started L create r ok r' \<Longrightarrow> register_step L r (Restart create, ok) r'"

section \<open>The store refines the register\<close>

lemma register_of_simps [simp]:
  "rg_now (register_of s) = cs_config s" "rg_disk (register_of s) = cs_content s" "rg_closed (register_of s) = cs_uncertain s"
  "rg_undos (register_of s) = cs_undos s" "rg_up (register_of s) = cs_up s"
  by (simp_all add: register_of_def)

lemma transact_wp:
  "wp (transact L f)
    (\<lambda>r s'. case r of
       None \<Rightarrow> f (cs_config s) = Inr None \<and> s' = s
     | Some (c, n) \<Rightarrow> c = cs_config s \<and> f c = Inr (Some n) \<and> \<not> cs_uncertain s \<and>
         saved_ok L n \<and> length (ct_encode L n) \<le> MaxImageBytes \<and> s' = s\<lparr>cs_config := n, cs_content := Regular (ct_encode L n), cs_image := file_image (ct_encode L n)\<rparr>)
    (\<lambda>_ s'. s' = s \<or> (\<exists>n. f (cs_config s) = Inr (Some n) \<and> saved_ok L n \<and> save_lost (ct_encode L n) s s')) s"
proof (cases "f (cs_config s)")
  case (Inl e)
  then show ?thesis unfolding transact_def by (intro wp_bind wp_get) (simp add: wp_fail)
next
  case (Inr m)
  show ?thesis
  proof (cases m)
    case None
    with Inr show ?thesis unfolding transact_def by (intro wp_bind wp_get) (simp add: wp_return)
  next
    case (Some n)
    let ?s = "s\<lparr>cs_config := n\<rparr>"
    have undone: "save_lost d s (s'\<lparr>cs_config := cs_config s\<rparr>)" if "save_lost d ?s s'" for d s'
      using that by (auto simp: save_lost_def)
    show ?thesis
      unfolding transact_def
      by (intro wp_bind wp_get; simp add: Inr Some; intro wp_seq wp_modify wp_bind wp_try;
          rule wp_mono [OF save_document_wp])
        (auto intro!: wp_return wp_seq wp_modify wp_fail undone simp: Inr Some)
  qed
qed

text \<open>Every write in the register is one that passed the checks of a save.\<close>

lemma lost_atomically:
  assumes "s' = s \<or> (\<exists>n. f (cs_config s) = Inr (Some n) \<and> saved_ok L n \<and> save_lost (ct_encode L n) s s')"
  shows "atomically L f post (register_of s) False (register_of s')"
  using assms
proof (elim disjE exE conjE)
  assume "s' = s"
  then show ?thesis by (simp add: at_refused)
next
  fix n
  assume n: "f (cs_config s) = Inr (Some n)" "saved_ok L n" "save_lost (ct_encode L n) s s'"
  show ?thesis
  proof (cases "s' = s")
    case False
    with n(3) obtain x where x: "\<not> cs_uncertain s" "x = cs_content s \<or> length (ct_encode L n) \<le> MaxImageBytes \<and> x = Regular (ct_encode L n)" "s' = s\<lparr>cs_content := x, cs_uncertain := True\<rparr>"
      unfolding save_lost_def by blast
    have eq: "register_of s' = (register_of s)\<lparr>rg_disk := x, rg_closed := True\<rparr>" by (simp add: x(3) register_of_def)
    show ?thesis unfolding eq by (rule at_lost) (use x n(1,2) in \<open>auto simp: storable_def\<close>)
  qed (simp add: at_refused)
qed

lemma commit_atomically:
  assumes "f (cs_config s) = Inr (Some n)" "\<not> cs_uncertain s" "storable L n"
    "s' = s\<lparr>cs_config := n, cs_content := Regular (ct_encode L n), cs_image := i, cs_undos := post (cs_config s) n (cs_undos s)\<rparr>"
  shows "atomically L f post (register_of s) True (register_of s')"
proof -
  have eq: "register_of s' = (register_of s)\<lparr>rg_now := n, rg_disk := Regular (ct_encode L n), rg_undos := post (rg_now (register_of s)) n (rg_undos (register_of s))\<rparr>"
    using assms(4) by (simp add: register_of_def)
  show ?thesis unfolding eq by (rule at_commit) (use assms in simp_all)
qed

lemma plain_wp:
  "wp (plain L f) (\<lambda>_ s'. atomically L f (push None) (register_of s) True (register_of s'))
    (\<lambda>_ s'. atomically L f (push None) (register_of s) False (register_of s')) s"
  unfolding plain_def
  by (rule wp_call [OF transact_wp])
    (auto intro!: wp_return lost_atomically at_nothing commit_atomically simp: storable_def push_def split: option.splits prod.splits)

lemma with_undo_wp:
  "wp (with_undo L b f) (\<lambda>_ s'. atomically L f (push (Some b)) (register_of s) True (register_of s'))
    (\<lambda>_ s'. atomically L f (push (Some b)) (register_of s) False (register_of s')) s"
  unfolding with_undo_def
  by (rule wp_call [OF transact_wp])
    (auto intro!: wp_return wp_modify lost_atomically at_nothing commit_atomically simp: storable_def push_def split: option.splits prod.splits)

lemma perform_event_wp:
  "wp (perform_event L e) (\<lambda>_ s'. atomically L (event_step L e) (push (event_undo e)) (register_of s) True (register_of s'))
    (\<lambda>_ s'. atomically L (event_step L e) (push (event_undo e)) (register_of s) False (register_of s')) s"
  by (cases "event_undo e") (simp_all add: perform_event_def plain_wp with_undo_wp)

lemma undo_step_some: "undo_step h c \<noteq> Inr None"
  by (simp add: undo_step_def step_to_def)

lemma run_undo_wp:
  assumes "\<not> spent (cs_undos s) i"
  shows "wp (run_undo L i)
    (\<lambda>_ s'. atomically L (undo_step (cs_undos s ! i)) (\<lambda>_ _ hs. hs[i := (hs ! i)\<lparr>uh_used := True\<rparr>]) (register_of s) True (register_of s'))
    (\<lambda>_ s'. atomically L (undo_step (cs_undos s ! i)) (\<lambda>_ _ hs. hs[i := (hs ! i)\<lparr>uh_used := True\<rparr>]) (register_of s) False (register_of s')) s"
proof -
  have "wp (op_bind (transact L (undo_step (cs_undos s ! i))) (\<lambda>_.
       op_modify (\<lambda>s'. s'\<lparr>cs_undos := (cs_undos s)[i := (cs_undos s ! i)\<lparr>uh_used := True\<rparr>]\<rparr>)))
    (\<lambda>_ s'. atomically L (undo_step (cs_undos s ! i)) (\<lambda>_ _ hs. hs[i := (hs ! i)\<lparr>uh_used := True\<rparr>]) (register_of s) True (register_of s'))
    (\<lambda>_ s'. atomically L (undo_step (cs_undos s ! i)) (\<lambda>_ _ hs. hs[i := (hs ! i)\<lparr>uh_used := True\<rparr>]) (register_of s) False (register_of s')) s"
    by (rule wp_call [OF transact_wp])
      (auto intro!: wp_modify lost_atomically commit_atomically simp: storable_def undo_step_some split: option.splits prod.splits)
  moreover have "\<not> (i \<ge> length (cs_undos s) \<or> uh_once (cs_undos s ! i) \<and> uh_used (cs_undos s ! i))"
    using assms by (simp add: spent_def)
  ultimately show ?thesis
    unfolding run_undo_def by (intro wp_bind wp_get) (simp only: if_False)
qed

lemma run_undo_spent: "spent (cs_undos s) i \<Longrightarrow> wp (run_undo L i) (\<lambda>_ s'. s' = s) (\<lambda>_ _. False) s"
  unfolding run_undo_def by (intro wp_bind wp_get) (auto simp: spent_def intro!: wp_return)

lemma read_target_wp: "wp (on_file readTarget) (\<lambda>i s'. s' = s \<and> ft_holds (open_file s) = Some i) (\<lambda>_ s'. s' = s) s"
  by (rule on_file_wp, rule wp_mono [OF readTarget_wp]) (simp_all add: open_file_def)

lemma observation_check_wp: "wp (observation_check v) (\<lambda>_ s'. s' = s) (\<lambda>_ s'. s' = s) s"
  unfolding observation_check_def
  by (intro wp_seq wp_check wp_bind wp_get wp_guard; (rule wp_mono [OF read_target_wp])?)
    (auto intro!: wp_bind wp_get wp_guard)

lemma exclusion_observation_wp:
  assumes "\<And>ex. wp (use ex) (\<lambda>_ s'. s' = s) (\<lambda>_ s'. s' = s) s"
  shows "wp (WithResourceExclusionObservation L c use) (\<lambda>_ s'. s' = s) (\<lambda>_ s'. s' = s) s"
  unfolding WithResourceExclusionObservation_def WithRevisionObservation_def
  by (rule wp_then [OF observation_check_wp], simp_all, rule wp_then [where Q0 = "\<lambda>_ s'. s' = s" and E0 = "\<lambda>_ s'. s' = s"])
    (auto intro!: wp_bind wp_seq wp_get wp_guard wp_sum wp_fail wp_mono [OF assms] observation_check_wp)

lemma manual_to_auto_wp:
  "wp (UpdateManualToAutoReviewed L v) (\<lambda>_ s'. atomically L (manual_to_auto L v) (push (Some True)) (register_of s) True (register_of s'))
    (\<lambda>_ s'. atomically L (manual_to_auto L v) (push (Some True)) (register_of s) False (register_of s')) s"
proof -
  let ?c = "cs_config s" and ?f = "\<lambda>c. if c \<noteq> cs_config s then Inl ErrRevision else manual_to_auto L v c"
  have same: "atomically L ?f post (register_of s) ok r = atomically L (manual_to_auto L v) post (register_of s) ok r" for post ok r
    by (simp add: atomically.simps)
  have "wp (with_undo L True ?f)
    (\<lambda>_ s'. atomically L (manual_to_auto L v) (push (Some True)) (register_of s) True (register_of s'))
    (\<lambda>_ s'. atomically L (manual_to_auto L v) (push (Some True)) (register_of s) False (register_of s')) s"
    using with_undo_wp [of L True ?f s] by (simp add: same)
  then have rest: "wp (op_seq (WithResourceExclusionObservation L ?c (\<lambda>_. op_return ())) (op_seq (op_check ErrRevision) (with_undo L True ?f)))
    (\<lambda>_ s'. atomically L (manual_to_auto L v) (push (Some True)) (register_of s) True (register_of s'))
    (\<lambda>_ s'. atomically L (manual_to_auto L v) (push (Some True)) (register_of s) False (register_of s')) s"
    by (intro wp_then [OF exclusion_observation_wp]) (auto intro!: wp_return wp_seq wp_check at_refused)
  show ?thesis
    unfolding UpdateManualToAutoReviewed_def
    by (intro wp_seq wp_check wp_bind wp_get wp_guard at_refused)
      (auto intro!: wp_fail at_refused rest split: sum.splits)
qed

lemma fresh_store_simps [simp]:
  "cs_config (fresh_store c i x) = c" "cs_image (fresh_store c i x) = i" "cs_content (fresh_store c i x) = x"
  "cs_uncertain (fresh_store c i x) = False" "cs_undos (fresh_store c i x) = []" "cs_up (fresh_store c i x) = False"
  by (simp_all add: fresh_store_def)

lemma load_wp:
  "wp (load L create) (\<lambda>_ s'. started L create (register_of s) True (register_of s'))
    (\<lambda>_ s'. started L create (register_of s) False (register_of s')) s"
proof -
  let ?s = "fresh_store Default absent_image (cs_content s)"
  have down: "started L create (register_of s) False (register_of s')"
    if "cs_config s' = Default" "cs_undos s' = []" "\<not> cs_up s'"
      "cs_content s' = cs_content s \<or> create \<and> cs_content s = Absent \<and> storable L Default \<and> cs_content s' = Regular (ct_encode L Default)" for s'
    using that st_down [of "cs_content s'" "register_of s" create L "cs_uncertain s'"] by (simp add: register_of_def)
  have absent: "cs_content s = Absent" if "ft_holds (open_file ?s) = Some i" "\<not> img_exists i" for i
    using that by (auto simp: ft_holds_def open_file_def split: file_content.splits if_splits)
  have present: "cs_content s = Regular (img_data i)" "length (img_data i) \<le> MaxImageBytes" if "ft_holds (open_file ?s) = Some i" "img_exists i" for i
    using that by (auto simp: ft_holds_def open_file_def absent_image_def fresh_store_def split: file_content.splits if_splits)
  have saved: "wp (op_seq (saveLocked L) (op_modify (\<lambda>s. s\<lparr>cs_up := True\<rparr>)))
      (\<lambda>_ s'. started L create (register_of s) True (register_of s')) (\<lambda>_ s'. started L create (register_of s) False (register_of s')) ?s"
    if "cs_content s = Absent" create
  proof -
    have up: "started L create (register_of s) True (register_of s')"
      if "cs_config s' = Default" "cs_undos s' = []" "cs_up s'" "\<not> cs_uncertain s'" "storable L Default" "cs_content s' = Regular (ct_encode L Default)" for s'
      using that st_created [of create "register_of s" L] \<open>cs_content s = Absent\<close> \<open>create\<close> by (simp add: register_of_def)
    have lost: "started L create (register_of s) False (register_of s')"
      if "cs_config s' = Default" "cs_undos s' = []" "\<not> cs_up s'"
        "cs_content s' = cs_content s \<or> storable L Default \<and> cs_content s' = Regular (ct_encode L Default)" for s'
      using down [OF that(1-3)] that(4) \<open>cs_content s = Absent\<close> \<open>create\<close> by blast
    show ?thesis
      by (rule wp_then [OF save_document_wp]) (auto intro!: wp_modify up lost simp: save_lost_def storable_def)
  qed
  have body: "wp (op_seq (
       if \<not> img_exists i then (if create then saveLocked L else op_fail ErrNotExist)
       else case InspectBytes L (img_data i) of
         None \<Rightarrow> op_fail ErrDecode
       | Some c \<Rightarrow> op_modify (\<lambda>s. s\<lparr>cs_config := c, cs_image := i\<rparr>)) (op_modify (\<lambda>s. s\<lparr>cs_up := True\<rparr>)))
      (\<lambda>_ s'. started L create (register_of s) True (register_of s')) (\<lambda>_ s'. started L create (register_of s) False (register_of s')) ?s"
    if i: "ft_holds (open_file ?s) = Some i" for i
  proof (cases "img_exists i")
    case True
    note here = present [OF i True]
    then have loaded: "started L create (register_of s) True (register_of s')"
      if "InspectBytes L (img_data i) = Some (cs_config s')" "cs_undos s' = []" "cs_up s'" "\<not> cs_uncertain s'" "cs_content s' = cs_content s" for s'
      using that st_loaded [of "register_of s" "img_data i" L "cs_config s'" create] by (simp add: register_of_def)
    from True show ?thesis
      by (auto intro!: wp_seq wp_fail wp_modify down loaded split: option.splits)
  next
    case False
    show ?thesis
    proof (cases create)
      case True
      with False saved [OF absent [OF i False]] show ?thesis by simp
    next
      case nocreate: False
      have "started L create (register_of s) False (register_of ?s)" by (rule down) simp_all
      with False nocreate show ?thesis by (auto intro!: wp_seq wp_fail)
    qed
  qed
  have failed: "started L create (register_of s) False (register_of ?s)" by (rule down) simp_all
  show ?thesis
    unfolding load_def
  proof (rule wp_seq, rule wp_modify, rule wp_bind, rule wp_mono [OF read_target_wp], elim conjE)
    fix i s' assume "s' = ?s" "ft_holds (open_file ?s) = Some i"
    then show "wp (op_seq (
       if \<not> img_exists i then (if create then saveLocked L else op_fail ErrNotExist)
       else case InspectBytes L (img_data i) of
         None \<Rightarrow> op_fail ErrDecode
       | Some c \<Rightarrow> op_modify (\<lambda>s. s\<lparr>cs_config := c, cs_image := i\<rparr>)) (op_modify (\<lambda>s. s\<lparr>cs_up := True\<rparr>)))
      (\<lambda>_ s'. started L create (register_of s) True (register_of s')) (\<lambda>_ s'. started L create (register_of s) False (register_of s')) s'"
      using body [of i] by simp
  qed (simp add: failed)
qed

lemma idle_step: "\<not> cs_up s \<Longrightarrow> wp (running m) (\<lambda>_ s'. s' = s) (\<lambda>_ _. False) s"
  unfolding running_def by (intro wp_bind wp_get) (simp add: wp_return)

lemma running_wp: "cs_up s \<Longrightarrow> wp m Q E s \<Longrightarrow> wp (running m) Q E s"
  unfolding running_def by (intro wp_bind wp_get) simp

lemma perform_store_wp:
  "wp (perform_store L e) (\<lambda>_ s'. register_step L (register_of s) (e, True) (register_of s'))
    (\<lambda>_ s'. register_step L (register_of s) (e, False) (register_of s')) s"
proof (cases "cs_up s \<or> is_start e")
  case False
  then have down: "\<not> rg_up (register_of s)" "\<not> is_start e" by simp_all
  have "wp (perform_store L e) (\<lambda>_ s'. s' = s) (\<lambda>_ _. False) s"
    using False by (cases e) (simp_all add: idle_step is_start_def)
  then show ?thesis by (rule wp_mono) (simp_all add: rs_down [OF down])
next
  case True
  show ?thesis
  proof (cases e)
    case (Change c)
    with True show ?thesis
      by (auto simp: is_start_def intro!: running_wp wp_mono [OF perform_event_wp] rs_change)
  next
    case (Undo i)
    with True have up: "cs_up s" by (simp add: is_start_def)
    show ?thesis
    proof (cases "spent (cs_undos s) i")
      case True
      show ?thesis unfolding Undo perform_store.simps
        by (rule running_wp [OF up], rule wp_mono [OF run_undo_spent [OF True]]) (simp_all add: rs_spent up True)
    next
      case False
      show ?thesis unfolding Undo perform_store.simps
        by (rule running_wp [OF up], rule wp_mono [OF run_undo_wp [OF False]]) (auto intro!: rs_undo simp: up False)
    qed
  next
    case (ManualToAuto v)
    with True show ?thesis
      by (auto simp: is_start_def intro!: running_wp wp_mono [OF manual_to_auto_wp] rs_auto)
  next
    case (Restart b)
    show ?thesis unfolding Restart perform_store.simps
      by (rule wp_mono [OF load_wp]) (simp_all add: rs_start)
  qed
qed

lemma store_step_register: "store_step L s e s' \<Longrightarrow> register_step L (register_of s) e (register_of s')"
  by (erule store_step.cases) (auto dest: wp_Inr [OF perform_store_wp] wp_Inl [OF perform_store_wp])

end
