(* ===== verification/Config_Invariant.thy ===== *)
theory Config_Invariant
  imports Config_Refinement
begin

text \<open>
  The invariant of every document the store holds: it can be loaded again, as long
  as no service has more than 128 device sources.  One lemma per step.
\<close>

section \<open>Sources\<close>

lemma source_prefix_wf:
  assumes "go_text L" "source_prefix L v = Some p" "addr_valid (px_addr (prefix_masked p))"
  shows "wf_prefix p"
proof (cases "nt_parse_prefix L v")
  case (Some q)
  with assms show ?thesis by (auto simp: source_prefix_def go_text_def)
next
  case None
  with assms(2) obtain a where p: "p = prefix_from (addr_unmap a) (bit_length (addr_unmap a))"
    by (auto simp: source_prefix_def split: option.splits)
  have "addr_unmap a \<noteq> NoAddr"
    using assms(3) by (auto simp: p prefix_from_def prefix_masked_def prefix_valid_def no_prefix_def addr_valid_def)
  then show ?thesis unfolding p by (rule prefix_from_wf)
qed

definition source_text :: "net_text \<Rightarrow> string \<Rightarrow> bool" where
  "source_text L s \<longleftrightarrow> (\<exists>p. wf_prefix p \<and> p = prefix_masked p \<and> s = prefix_string L p \<and>
     \<not> is_unspecified (px_addr p) \<and> \<not> is_loopback (px_addr p) \<and> \<not> is_multicast (px_addr p))"

lemma sources_loop_text:
  assumes "go_text L" "sources_loop L out vs = Some out'" "list_all (source_text L) out" "distinct out"
  shows "list_all (source_text L) out' \<and> distinct out' \<and> length out' \<le> length out + length vs"
  using assms(2-)
proof (induction vs arbitrary: out)
  case (Cons v vs)
  show ?case
  proof (cases "nt_trim_space L v = []")
    case True
    with Cons.prems have "sources_loop L out vs = Some out'" by simp
    from Cons.IH [OF this] Cons.prems show ?thesis by simp
  next
    case False
    with Cons.prems obtain p where p: "source_prefix L (nt_trim_space L v) = Some p"
      by (auto simp: Let_def split: option.splits)
    let ?p = "prefix_masked p"
    have ok: "addr_valid (px_addr ?p)" "\<not> is_unspecified (px_addr ?p)" "\<not> is_loopback (px_addr ?p)" "\<not> is_multicast (px_addr ?p)"
      using Cons.prems False p by (auto simp: Let_def split: if_splits)
    have canon: "source_text L (prefix_string L ?p)"
      using source_prefix_wf [OF assms(1) p ok(1)] ok masked_wf unfolding source_text_def by metis
    let ?out = "if prefix_string L ?p \<in> set out then out else out @ [prefix_string L ?p]"
    have step: "sources_loop L ?out vs = Some out'" using Cons.prems(1) False p ok by (simp add: Let_def)
    have all: "list_all (source_text L) ?out" "distinct ?out" using Cons.prems(2,3) canon by simp_all
    have len: "length ?out \<le> Suc (length out)" by simp
    show ?thesis using Cons.IH [OF step all] len by (simp del: if_split)
  qed
qed simp

lemma prefix_string_nonempty: "wf_prefix p \<Longrightarrow> prefix_string L p \<noteq> []"
  by (simp add: prefix_string_def wf_prefix_def prefix_valid_def)

lemma sources_loop_same:
  assumes "go_text L" "list_all (source_text L) vs" "distinct (out @ vs)"
  shows "sources_loop L out vs = Some (out @ vs)"
  using assms(2-)
proof (induction vs arbitrary: out)
  case (Cons v vs)
  then obtain p where p: "wf_prefix p" "p = prefix_masked p" "v = prefix_string L p"
    "\<not> is_unspecified (px_addr p)" "\<not> is_loopback (px_addr p)" "\<not> is_multicast (px_addr p)"
    by (auto simp: source_text_def)
  then have "nt_trim_space L v = v" "nt_parse_prefix L v = Some p" "v \<noteq> []"
    using assms(1) by (auto simp: go_text_def prefix_string_nonempty)
  then have "sources_loop L out (v # vs) = sources_loop L (out @ [v]) vs"
    using p(2) [symmetric] p Cons.prems by (simp add: source_prefix_def Let_def addr_valid_def wf_prefix_def)
  with Cons show ?case by simp
qed simp

lemma NormalizeSources_normal:
  assumes "go_text L" "NormalizeSources L vs = Some ws"
  shows "NormalizeSources L ws = Some ws" "length ws \<le> length vs"
proof -
  from assms(2) obtain out where out: "sources_loop L [] vs = Some out" "ws = sort out"
    by (auto simp: NormalizeSources_def)
  note t = sources_loop_text [OF assms(1) out(1)]
  have "sources_loop L [] (sort out) = Some (sort out)"
    using sources_loop_same [OF assms(1), of "sort out" "[]"] t by (simp add: list_all_iff)
  then show "NormalizeSources L ws = Some ws" by (simp add: NormalizeSources_def out(2) sorted_sort_id)
  show "length ws \<le> length vs" using t by (simp add: out(2))
qed

section \<open>The invariant\<close>

definition sources_ok :: "net_text \<Rightarrow> string list \<Rightarrow> bool" where
  "sources_ok L vs \<longleftrightarrow> length vs \<le> 128 \<and> NormalizeSources L vs \<noteq> None"

definition states_ok :: "net_text \<Rightarrow> (string, service_state) fmap \<Rightarrow> bool" where
  "states_ok L m \<longleftrightarrow> fmpred (\<lambda>_ s. sources_ok L (ss_sources s)) m"

definition config_ok :: "config_text \<Rightarrow> config \<Rightarrow> bool" where
  "config_ok L c \<longleftrightarrow> 0 \<le> cf_schema c \<and> cf_schema c \<le> 2 \<and>
     states_ok (ct_net L) (cf_services c) \<and> states_ok (ct_net L) (cf_applied c) \<and> states_ok (ct_net L) (sc_suspended (cf_control c)) \<and>
     validateServicePolicies (ct_net L) (cf_policies c) \<and> validateServiceControl (ct_net L) (cf_control c) \<and>
     ValidateNetworkPolicy (ct_net L) (cf_network c) = Inr () \<and> ValidateAppliedNetworkPolicy (ct_net L) (cf_applied_network c) = Inr () \<and>
     ValidateDefaultRouteConsent L (cf_consent c)"

definition json_text :: "config_text \<Rightarrow> bool" where
  "json_text L \<longleftrightarrow> (\<forall>c. ct_decode L (ct_encode L c) = Some c \<and> ct_has_applied L (ct_encode L c))"

lemma sources_ok_nil [simp]: "sources_ok L []"
  by (simp add: sources_ok_def NormalizeSources_def)

lemma states_ok_at: "states_ok L m \<Longrightarrow> sources_ok L (ss_sources (state_at m i))"
  by (auto simp: states_ok_def state_at_def zero_state_def split: option.splits)

lemma states_ok_upd: "states_ok L m \<Longrightarrow> sources_ok L (ss_sources s) \<Longrightarrow> states_ok L (fmupd i s m)"
  by (auto simp: states_ok_def)

lemma states_ok_drop: "states_ok L m \<Longrightarrow> states_ok L (fmdrop i m)"
  by (auto simp: states_ok_def)

lemma states_ok_add: "states_ok L m \<Longrightarrow> states_ok L n \<Longrightarrow> states_ok L (fmadd m n)"
  by (auto simp: states_ok_def)

lemma states_ok_empty [simp]: "states_ok L fmempty"
  by (simp add: states_ok_def)

lemma normalizeState_sources [simp]: "ss_sources (normalizeState s) = ss_sources s"
  by (simp add: normalizeState_def Let_def)

lemma normalizeState_profile [simp]: "ss_profile (normalizeState s) = ss_profile s"
  by (simp add: normalizeState_def Let_def)

lemma sources_ok_normal:
  assumes "go_text L" "NormalizeSources L vs = Some ws" "length vs \<le> 128"
  shows "sources_ok L ws"
  using NormalizeSources_normal [OF assms(1,2)] assms(3) by (simp add: sources_ok_def)

lemma normal_state_ok:
  assumes "go_text L" "normal_state L s = Some s'" "length (ss_sources s) \<le> 128"
  shows "sources_ok L (ss_sources s')"
  using assms sources_ok_normal by (auto simp: normal_state_def)

lemma normal_states_ok:
  assumes "go_text L" "normal_states L m = Some n" "fmpred (\<lambda>_ s. length (ss_sources s) \<le> 128) m"
  shows "states_ok L n"
proof -
  from assms(2) have all: "fmpred (\<lambda>_ s. normal_state L s \<noteq> None) m" and n: "n = fmmap (\<lambda>s. the (normal_state L s)) m"
    by (auto simp: normal_states_def split: if_splits)
  have "sources_ok L (ss_sources (the (normal_state L s)))" if "fmlookup m i = Some s" for i s
  proof -
    from all that obtain s' where "normal_state L s = Some s'" by auto
    with normal_state_ok [OF assms(1) this] assms(3) that show ?thesis by auto
  qed
  then show ?thesis unfolding n by (auto simp: states_ok_def)
qed

section \<open>Service policies\<close>

definition policy_entry :: "net_text \<Rightarrow> string \<Rightarrow> service_policy \<Rightarrow> bool" where
  "policy_entry L i p \<longleftrightarrow> i = sp_service p \<and> sp_revision p \<noteq> 0 \<and> NormalizeServicePolicy L p \<noteq> None"

lemma policy_list_some: "policy_list n valid vs \<noteq> None \<longleftrightarrow> length vs \<le> n \<and> list_all valid vs"
  by (simp add: policy_list_def)

lemma policy_list_set: "policy_list n valid vs = Some ws \<Longrightarrow> set ws = set vs"
  by (auto simp: policy_list_def split: if_splits)

lemma policy_list_again: "policy_list n valid vs = Some ws \<Longrightarrow> policy_list n valid ws \<noteq> None"
  using remdups_adj_length [of "sort vs"] by (auto simp: policy_list_def list_all_iff split: if_splits)

text \<open>What a policy needs to be normalisable, as one conjunction.\<close>

lemma NormalizeServicePolicy_some:
  "NormalizeServicePolicy L p = None \<longleftrightarrow> \<not> (policy_fields p \<and> sources_ok L (sp_sources p) \<and>
     policy_list 128 validPolicyNode (sp_nodes p) \<noteq> None \<and> policy_list 16 policy_engine (sp_engines p) \<noteq> None \<and>
     policy_list 128 policyIdentifier (sp_source_ids p) \<noteq> None \<and> policy_list 16 policy_trust (sp_trust p) \<noteq> None \<and>
     (sp_pinned p = [] \<or> sp_pinned p \<in> set (sp_nodes p)))"
  by (cases "policy_list 128 validPolicyNode (sp_nodes p)"; cases "policy_list 16 policy_engine (sp_engines p)";
      cases "policy_list 128 policyIdentifier (sp_source_ids p)"; cases "policy_list 16 policy_trust (sp_trust p)";
      cases "NormalizeSources L (sp_sources p)")
    (auto simp: NormalizeServicePolicy_def sources_ok_def policy_list_set not_le)

lemma fenced_fields [simp]:
  "sp_schema (fenced r v p) = sp_schema p" "sp_service (fenced r v p) = sp_service p" "sp_terminal (fenced r v p) = sp_terminal p"
  "sp_scenario (fenced r v p) = sp_scenario p" "sp_check (fenced r v p) = sp_check p" "sp_hold (fenced r v p) = sp_hold p"
  "sp_switches (fenced r v p) = sp_switches p" "sp_group (fenced r v p) = sp_group p" "sp_nodes (fenced r v p) = sp_nodes p"
  "sp_engines (fenced r v p) = sp_engines p" "sp_source_ids (fenced r v p) = sp_source_ids p" "sp_trust (fenced r v p) = sp_trust p"
  "sp_mode (fenced r v p) = ''manual''" "sp_sources (fenced r v p) = v" "\<not> sp_enabled (fenced r v p)"
  by (simp_all add: fenced_def)

lemma fenced_pin: "sp_pinned (fenced r v p) = [] \<or> sp_pinned (fenced r v p) \<in> set (sp_nodes p)"
  by (auto simp: fenced_def split: option.splits)

lemma fenced_revision: "sp_revision p \<noteq> 0 \<Longrightarrow> sp_revision (fenced r v p) \<noteq> 0"
  by (auto simp: fenced_def simp flip: eq_neg_iff_add_eq_0)

lemma fenced_entry:
  assumes "policy_entry L i p" "sources_ok L v"
  shows "policy_entry L i (fenced r v p)"
proof -
  have p: "policy_fields p" "policy_list 128 validPolicyNode (sp_nodes p) \<noteq> None" "NormalizeServicePolicy L p \<noteq> None" "sp_revision p \<noteq> 0" "i = sp_service p"
    using assms(1) unfolding policy_entry_def NormalizeServicePolicy_some by blast+
  have pin: "sp_pinned (fenced r v p) = [] \<or> validPolicyNode (sp_pinned (fenced r v p))"
    using p(2) [unfolded policy_list_some] fenced_pin [of r v p] by (auto simp: list_all_iff)
  have "policy_fields (fenced r v p)"
    using p(1) pin by (simp add: policy_fields_def)
  then have "NormalizeServicePolicy L (fenced r v p) \<noteq> None"
    using p(3) assms(2) fenced_pin [of r v p] unfolding NormalizeServicePolicy_some by (simp only: fenced_fields) blast
  with p(4,5) show ?thesis by (simp add: policy_entry_def fenced_revision)
qed

lemma validateServicePolicies_entry:
  "validateServicePolicies L ps \<longleftrightarrow> fcard (fmdom ps) \<le> 128 \<and> fmpred (policy_entry L) ps"
proof -
  have "policy_entry L = (\<lambda>i p. i = sp_service p \<and> sp_revision p \<noteq> 0 \<and> NormalizeServicePolicy L p \<noteq> None)"
    by (intro ext) (simp add: policy_entry_def)
  then show ?thesis by (simp add: validateServicePolicies_def)
qed

lemma policies_map:
  assumes "validateServicePolicies L ps" "\<And>i p. fmlookup ps i = Some p \<Longrightarrow> policy_entry L i p \<Longrightarrow> policy_entry L i (f i p)"
  shows "validateServicePolicies L (fmmap_keys f ps)"
  using assms by (auto simp: validateServicePolicies_entry intro!: fmpredI)

lemma policies_drop:
  assumes "validateServicePolicies L ps"
  shows "validateServicePolicies L (fmdrop i ps)"
proof -
  have "fcard (fmdom (fmdrop i ps)) \<le> fcard (fmdom ps)" by (rule fcard_mono) auto
  with assms show ?thesis by (auto simp: validateServicePolicies_entry)
qed

lemma policies_upd:
  assumes "validateServicePolicies L ps" "policy_entry L i p" "fmlookup ps i \<noteq> None \<or> fcard (fmdom ps) < 128"
  shows "validateServicePolicies L (fmupd i p ps)"
proof -
  have "fcard (finsert i (fmdom ps)) \<le> 128"
    using assms(1,3) by (auto simp: validateServicePolicies_entry fcard_finsert_if fmlookup_dom_iff)
  with assms(1,2) show ?thesis by (auto simp: validateServicePolicies_entry)
qed

lemma fence_policies:
  assumes "validateServicePolicies (ct_net L) (cf_policies c)" "sources_ok (ct_net L) v"
  shows "validateServicePolicies (ct_net L) (cf_policies (fenceServicePolicy i r v c))"
proof (cases "fmlookup (cf_policies c) i")
  case (Some p)
  with assms(1) have "policy_entry (ct_net L) i p" by (auto simp: validateServicePolicies_entry)
  with policies_upd [OF assms(1) fenced_entry [OF this assms(2)]] Some show ?thesis by (simp add: fenceServicePolicy_def)
qed (use assms in \<open>simp add: fenceServicePolicy_def\<close>)

lemma fence_other [simp]:
  "cf_schema (fenceServicePolicy i r v c) = cf_schema c" "cf_services (fenceServicePolicy i r v c) = cf_services c"
  "cf_applied (fenceServicePolicy i r v c) = cf_applied c" "cf_control (fenceServicePolicy i r v c) = cf_control c"
  "cf_network (fenceServicePolicy i r v c) = cf_network c" "cf_applied_network (fenceServicePolicy i r v c) = cf_applied_network c"
  "cf_consent (fenceServicePolicy i r v c) = cf_consent c" "cf_revision (fenceServicePolicy i r v c) = cf_revision c"
  by (simp_all add: fenceServicePolicy_def split: option.splits)

section \<open>Every step keeps the invariant\<close>

definition bounded :: "(string, service_state) fmap \<Rightarrow> bool" where
  "bounded m \<longleftrightarrow> fmpred (\<lambda>_ s. length (ss_sources s) \<le> 128) m"

text \<open>The callers' part: no service of an event lists more than 128 devices.\<close>

fun event_ok :: "config_event \<Rightarrow> bool" where
  "event_ok (EvUpdateService _ s _) = (length (ss_sources s) \<le> 128)"
| "event_ok (EvMerge m) = bounded m"
| "event_ok (EvReplace m) = bounded m"
| "event_ok (EvNodeRoute _ _ _ v _) = (case v of None \<Rightarrow> True | Some v \<Rightarrow> length v \<le> 128)"
| "event_ok (EvAutonomyRoute _ _ _ v _) = (length v \<le> 128)"
| "event_ok (EvNetwork _ _ _ m) = bounded m"
| "event_ok _ = True"

lemma bump_simps [simp]:
  "cf_schema (bump c) = cf_schema c" "cf_services (bump c) = cf_services c" "cf_applied (bump c) = cf_applied c"
  "cf_policies (bump c) = cf_policies c" "cf_control (bump c) = cf_control c" "cf_network (bump c) = cf_network c"
  "cf_applied_network (bump c) = cf_applied_network c" "cf_consent (bump c) = cf_consent c" "cf_inactive (bump c) = cf_inactive c"
  "cf_safe (bump c) = cf_safe c" "cf_revision (bump c) = cf_revision c + 1"
  by (simp_all add: bump_def)

lemma stamp_simps [simp]:
  "cf_schema (stamp_applied t c) = cf_schema c" "cf_services (stamp_applied t c) = cf_services c" "cf_applied (stamp_applied t c) = cf_applied c"
  "cf_policies (stamp_applied t c) = cf_policies c" "cf_control (stamp_applied t c) = cf_control c" "cf_network (stamp_applied t c) = cf_network c"
  "cf_applied_network (stamp_applied t c) = cf_applied_network c" "cf_consent (stamp_applied t c) = cf_consent c"
  "cf_inactive (stamp_applied t c) = cf_inactive c" "cf_safe (stamp_applied t c) = cf_safe c" "cf_revision (stamp_applied t c) = cf_revision c"
  by (simp_all add: stamp_applied_def)

lemma config_ok_bump [simp]: "config_ok L (bump c) = config_ok L c"
  by (simp add: config_ok_def)

lemma config_ok_stamp [simp]: "config_ok L (stamp_applied t c) = config_ok L c"
  by (simp add: config_ok_def)

lemma config_ok_fence: "config_ok L c \<Longrightarrow> sources_ok (ct_net L) v \<Longrightarrow> config_ok L (fenceServicePolicy i r v c)"
  by (simp add: config_ok_def fence_policies)

lemma cleared_control: "validateServiceControl L k \<Longrightarrow> validateServiceControl L (k\<lparr>sc_stopped := b, sc_suspended := fmempty, sc_routes := fmempty\<rparr>)"
  by (simp add: validateServiceControl_def fcard.rep_eq)

lemma clear_stop_simps [simp]:
  "cf_schema (clearServiceStopAfterManualApply c) = cf_schema c" "cf_services (clearServiceStopAfterManualApply c) = cf_services c"
  "cf_applied (clearServiceStopAfterManualApply c) = cf_applied c" "cf_policies (clearServiceStopAfterManualApply c) = cf_policies c"
  "cf_network (clearServiceStopAfterManualApply c) = cf_network c" "cf_applied_network (clearServiceStopAfterManualApply c) = cf_applied_network c"
  "cf_consent (clearServiceStopAfterManualApply c) = cf_consent c"
  by (simp_all add: clearServiceStopAfterManualApply_def)

lemma config_ok_clear_stop:
  assumes "config_ok L c"
  shows "config_ok L (clearServiceStopAfterManualApply c)"
proof -
  let ?k = "cf_control (clearServiceStopAfterManualApply c)"
  have "states_ok (ct_net L) (sc_suspended ?k)" "validateServiceControl (ct_net L) ?k"
    using assms cleared_control by (auto simp: config_ok_def clearServiceStopAfterManualApply_def)
  with assms show ?thesis by (simp add: config_ok_def)
qed

lemma states_ok_lookup: "states_ok L m \<Longrightarrow> fmlookup m i = Some s \<Longrightarrow> sources_ok L (ss_sources s)"
  by (auto simp: states_ok_def dest: fmpredD)

lemma states_ok_map:
  assumes "\<And>i s. fmlookup m i = Some s \<Longrightarrow> sources_ok L (ss_sources (f i s))"
  shows "states_ok L (fmmap_keys f m)"
  using assms by (auto simp: states_ok_def intro!: fmpredI)

lemma applied_sources_ok: "config_ok L c \<Longrightarrow> sources_ok (ct_net L) (AppliedSources c i)"
  by (auto simp: config_ok_def AppliedSources_def states_ok_at intro: states_ok_lookup split: option.splits)

lemma config_ok_update: "go_text (ct_net L) \<Longrightarrow> config_ok L c \<Longrightarrow> length (ss_sources s) \<le> 128 \<Longrightarrow> updateService L i s r c = Inr (Some n) \<Longrightarrow> config_ok L n"
proof -
  assume a: "go_text (ct_net L)" "config_ok L c" "length (ss_sources s) \<le> 128" "updateService L i s r c = Inr (Some n)"
  then obtain s' where s': "normal_state (ct_net L) s = Some s'" by (auto simp: updateService_def split: option.splits)
  let ?n = "c\<lparr>cf_services := fmupd i s' (cf_services c)\<rparr>"
  have ok: "config_ok L ?n" "sources_ok (ct_net L) (ss_sources (state_at (cf_applied c) i))"
    using a(2) normal_state_ok [OF a(1) s' a(3)] by (simp_all add: config_ok_def states_ok_upd states_ok_at)
  then show ?thesis
    using a(4) s' config_ok_fence [OF ok] by (auto simp: updateService_def step_to_def Let_def split: if_splits)
qed

lemma applied_scope_ok:
  assumes "config_ok L c"
  shows "states_ok (ct_net L) (cf_applied (apply_scope scope c))"
proof -
  let ?c = "if recipe_scope scope then c\<lparr>cf_applied_recipe := cf_recipe c\<rparr> else c"
  have "config_ok L ?c" using assms by (simp add: config_ok_def)
  then have "sources_ok (ct_net L) (ss_sources (applied_state ?c scope i s))" if "fmlookup (cf_services c) i = Some s" for i s
    using that assms applied_sources_ok [of L ?c i] by (auto simp: applied_state_def Let_def config_ok_def dest: states_ok_lookup)
  then show ?thesis
    using assms by (auto simp: apply_scope_def Let_def config_ok_def intro!: states_ok_add states_ok_map)
qed

lemma apply_scope_simps [simp]:
  "cf_schema (apply_scope v c) = cf_schema c" "cf_services (apply_scope v c) = cf_services c" "cf_control (apply_scope v c) = cf_control c"
  "cf_policies (apply_scope v c) = cf_policies c" "cf_network (apply_scope v c) = cf_network c"
  "cf_applied_network (apply_scope v c) = cf_applied_network c" "cf_consent (apply_scope v c) = cf_consent c"
  by (simp_all add: apply_scope_def Let_def)

lemma config_ok_policies_map:
  assumes "config_ok L c" "\<And>i p. fmlookup (cf_policies c) i = Some p \<Longrightarrow> policy_entry (ct_net L) i p \<Longrightarrow> policy_entry (ct_net L) i (f i p)"
  shows "config_ok L (c\<lparr>cf_policies := fmmap_keys f (cf_policies c)\<rparr>)"
  using assms policies_map by (simp add: config_ok_def)

lemma fence_changed_entry:
  assumes "policy_entry L i p" "states_ok L later"
  shows "policy_entry L i (fence_changed previous later i p)"
  using assms by (auto simp: fence_changed_def fenced_entry states_ok_lookup split: option.splits)

lemma config_ok_apply:
  assumes "config_ok L c" "applyDraftScope L t scope r c = Inr (Some n)"
  shows "config_ok L n"
proof -
  let ?m = "clearServiceStopAfterManualApply (apply_scope scope c)"
  have "config_ok L (apply_scope scope c)"
    using assms(1) applied_scope_ok [OF assms(1)] by (simp add: config_ok_def)
  then have m: "config_ok L ?m" "states_ok (ct_net L) (cf_applied ?m)"
    by (simp_all add: config_ok_clear_stop applied_scope_ok [OF assms(1)])
  let ?n = "?m\<lparr>cf_policies := fmmap_keys (fence_changed (cf_applied c) (cf_applied ?m)) (cf_policies ?m)\<rparr>"
  have "n = stamp_applied (ct_time L t) ?n"
    using assms(2) by (simp add: applyDraftScope_def step_to_def Let_def split: if_splits)
  moreover have "config_ok L ?n"
    by (rule config_ok_policies_map [OF m(1)]) (rule fence_changed_entry [OF _ m(2)])
  ultimately show ?thesis by simp
qed

lemma discarded_sources: "states_ok L m \<Longrightarrow> states_ok L b \<Longrightarrow> sources_ok L (ss_sources (discarded_state m b scope i))"
  by (simp add: discarded_state_def Let_def states_ok_at)

lemma config_ok_discard:
  assumes "config_ok L c" "DiscardDraftScope scope c = Inr (Some n)"
  shows "config_ok L n"
proof -
  let ?c = "if recipe_scope scope then c\<lparr>cf_recipe := cf_applied_recipe c\<rparr> else c"
  have base: "states_ok (ct_net L) (ServiceDraftBaseline ?c)" and c: "states_ok (ct_net L) (cf_services ?c)"
    using assms(1) by (simp_all add: config_ok_def ServiceDraftBaseline_def)
  have "sources_ok (ct_net L) (ss_sources (discarded_state (cf_services ?c) (ServiceDraftBaseline ?c) scope i))" for i
    by (rule discarded_sources [OF c base])
  then have "states_ok (ct_net L) (cf_services (discardDraftScope scope c))"
    using base by (auto simp: discardDraftScope_def Let_def intro: states_ok_map)
  moreover have "cf_schema (discardDraftScope scope c) = cf_schema c" "cf_applied (discardDraftScope scope c) = cf_applied c"
    "cf_control (discardDraftScope scope c) = cf_control c" "cf_policies (discardDraftScope scope c) = cf_policies c"
    "cf_network (discardDraftScope scope c) = cf_network c" "cf_applied_network (discardDraftScope scope c) = cf_applied_network c"
    "cf_consent (discardDraftScope scope c) = cf_consent c"
    by (simp_all add: discardDraftScope_def Let_def)
  ultimately have "config_ok L (discardDraftScope scope c)" using assms(1) by (simp add: config_ok_def)
  with assms(2) show ?thesis by (auto simp: DiscardDraftScope_def step_to_def split: if_splits)
qed

lemma config_ok_control: "config_ok L c \<Longrightarrow> updateServiceControl L m s r c = Inr (Some n) \<Longrightarrow> config_ok L n"
  by (auto simp: updateServiceControl_def step_to_def Let_def config_ok_def split: if_splits option.splits)

lemma config_ok_runtime:
  assumes "config_ok L c" "CommitServiceRuntime L t b m r c = Inr (Some n)"
  shows "config_ok L n"
  using assms by (auto simp: CommitServiceRuntime_def step_to_def Let_def config_ok_def stop_control_def split: if_splits)

lemma normal_policy_entry:
  assumes "go_text L" "NormalizeServicePolicy L p = Some q" "v \<noteq> 0"
  shows "policy_entry L (sp_service q) (q\<lparr>sp_revision := v, sp_legacy := b\<rparr>)"
proof -
  have p: "policy_fields p" "sources_ok L (sp_sources p)" using assms(2) NormalizeServicePolicy_some [of L p] by auto
  obtain sources nodes engines ids trust where q:
    "NormalizeSources L (sp_sources p) = Some sources" "policy_list 128 validPolicyNode (sp_nodes p) = Some nodes"
    "policy_list 16 policy_engine (sp_engines p) = Some engines" "policy_list 128 policyIdentifier (sp_source_ids p) = Some ids"
    "policy_list 16 policy_trust (sp_trust p) = Some trust" "sp_pinned p = [] \<or> sp_pinned p \<in> set nodes"
    "q = p\<lparr>sp_sources := sources, sp_nodes := nodes, sp_engines := engines, sp_source_ids := ids, sp_trust := trust\<rparr>"
    using assms(2) by (auto simp: NormalizeServicePolicy_def split: option.splits if_splits)
  have s: "sources_ok L sources" using p(2) sources_ok_normal [OF assms(1) q(1)] by (simp add: sources_ok_def)
  have f: "policy_fields (q\<lparr>sp_revision := v, sp_legacy := b\<rparr>)" using p(1) unfolding q(7) by (simp add: policy_fields_def)
  have "NormalizeServicePolicy L (q\<lparr>sp_revision := v, sp_legacy := b\<rparr>) \<noteq> None"
    using f s q(6) q(2-5) [THEN policy_list_again] unfolding NormalizeServicePolicy_some q(7) by simp
  with assms(3) show ?thesis by (simp add: policy_entry_def)
qed

lemma config_ok_policy:
  assumes "go_text (ct_net L)" "config_ok L c" "UpdateServicePolicy L p r v c = Inr (Some n)"
  shows "config_ok L n"
proof -
  from assms(3) obtain q where q: "NormalizeServicePolicy (ct_net L) p = Some q" by (auto simp: UpdateServicePolicy_def split: option.splits)
  let ?ps = "fmupd (sp_service q) (q\<lparr>sp_revision := v + 1, sp_legacy := False\<rparr>) (cf_policies c)"
  have n: "n = bump (c\<lparr>cf_policies := ?ps\<rparr>)" and v: "v \<noteq> max_revision"
    and room: "fmlookup (cf_policies c) (sp_service q) \<noteq> None \<or> fcard (fmdom (cf_policies c)) < 128"
    using assms(3) q by (auto simp: UpdateServicePolicy_def step_to_def Let_def split: if_splits)
  have "v + 1 \<noteq> 0" using v by (auto simp: max_revision_def simp flip: eq_neg_iff_add_eq_0)
  then have "validateServicePolicies (ct_net L) ?ps"
    using assms(2) policies_upd [OF _ normal_policy_entry [OF assms(1) q] room] by (simp add: config_ok_def)
  with assms(2) n show ?thesis by (simp add: config_ok_def)
qed

lemma config_ok_legacy: "config_ok L c \<Longrightarrow> PreserveLegacyServicePolicies L ps r c = Inr (Some n) \<Longrightarrow> config_ok L n"
  by (auto simp: PreserveLegacyServicePolicies_def step_to_def config_ok_def split: if_splits sum.splits prod.splits)

lemma config_ok_routed:
  assumes "config_ok L c" "sources_ok (ct_net L) (ss_sources s)" "sources_ok (ct_net L) (ss_sources s')"
  shows "config_ok L (c\<lparr>cf_services := fmupd i s (cf_services c), cf_applied := fmupd i s' (cf_applied c)\<rparr>)"
  using assms by (simp add: config_ok_def states_ok_upd)

lemma config_ok_node_route:
  assumes "go_text (ct_net L)" "config_ok L c" "case v of None \<Rightarrow> True | Some v \<Rightarrow> length v \<le> 128" "applyNodeRoute L t i route v r c = Inr (Some n)"
  shows "config_ok L n"
proof -
  obtain chosen where chosen: "(case v of None \<Rightarrow> Some None | Some v \<Rightarrow> map_option Some (NormalizeSources (ct_net L) v)) = Some chosen"
    using assms(4) by (auto simp: applyNodeRoute_def split: option.splits)
  let ?bad = "i = [] \<or> (case ParseNodeRoute route of None \<Rightarrow> True | Some (_, target) \<Rightarrow> \<not> has_prefix target ''node-'')"
  let ?stale = "cf_revision c \<noteq> r \<or> r = max_revision \<or> cf_safe c"
  have bad: "\<not> ?bad"
  proof
    assume bad: ?bad
    from assms(4) show False unfolding applyNodeRoute_def chosen option.case if_P [OF bad] by simp
  qed
  have stale: "\<not> ?stale"
  proof
    assume stale: ?stale
    from assms(4) show False unfolding applyNodeRoute_def chosen option.case if_not_P [OF bad] if_P [OF stale] by simp
  qed
  have pick: "sources_ok (ct_net L) w" if "chosen = Some w" for w
    using chosen that assms(3) sources_ok_normal [OF assms(1)] by (auto split: option.splits)
  define applied where "applied = (if chosen = None \<and> sc_stopped (cf_control c)
    then (state_at (cf_applied c) i)\<lparr>ss_sources := AppliedSources c i\<rparr> else state_at (cf_applied c) i)"
  define routed where "routed = (\<lambda>s::service_state. s\<lparr>ss_enabled := True, ss_mode := route, ss_route := route, ss_profile := [],
    ss_sources := (case chosen of None \<Rightarrow> ss_sources s | Some v \<Rightarrow> v)\<rparr>)"
  have routed: "sources_ok (ct_net L) (ss_sources (routed s))" if "sources_ok (ct_net L) (ss_sources s)" for s
    using that pick by (auto simp: routed_def split: option.splits)
  have ok: "sources_ok (ct_net L) (ss_sources (routed (state_at (cf_services c) i)))" "sources_ok (ct_net L) (ss_sources (routed applied))"
    using assms(2) by (auto intro!: routed simp: applied_def applied_sources_ok config_ok_def states_ok_at)
  let ?n = "c\<lparr>cf_services := fmupd i (routed (state_at (cf_services c) i)) (cf_services c), cf_applied := fmupd i (routed applied) (cf_applied c)\<rparr>"
  have "n = stamp_applied (ct_time L t) (bump (fenceServicePolicy i route (ss_sources (routed applied)) (clearServiceStopAfterManualApply ?n)))"
    using assms(4) unfolding applyNodeRoute_def chosen option.case if_not_P [OF bad] if_not_P [OF stale] Let_def step_to_def
      sum.inject option.inject applied_def routed_def by (rule sym)
  with config_ok_fence [OF config_ok_clear_stop [OF config_ok_routed [OF assms(2) ok]] ok(2)] show ?thesis by simp
qed

lemma config_ok_autonomy:
  assumes "go_text (ct_net L)" "config_ok L c" "length v \<le> 128" "ApplyAutonomyRoute L t i route v r c = Inr (Some n)"
  shows "config_ok L n"
proof -
  obtain w where w: "NormalizeSources (ct_net L) v = Some w"
    and n: "n = stamp_applied (ct_time L t) (bump (fenceServicePolicy i route w (c\<lparr>
        cf_services := fmupd i ((state_at (cf_services c) i)\<lparr>ss_enabled := True, ss_route := route, ss_mode := route, ss_profile := [], ss_sources := w\<rparr>) (cf_services c),
        cf_applied := fmupd i ((state_at (cf_services c) i)\<lparr>ss_enabled := True, ss_route := route, ss_mode := route, ss_profile := [], ss_sources := w\<rparr>) (cf_applied c)\<rparr>)))"
    using assms(4) by (auto simp: ApplyAutonomyRoute_def ReviewedAutonomyRouteCommitImage_def step_to_def Let_def split: if_splits option.splits sum.splits)
  have ok: "sources_ok (ct_net L) w" by (rule sources_ok_normal [OF assms(1) w assms(3)])
  show ?thesis unfolding n by (simp add: config_ok_fence config_ok_routed assms(2) ok)
qed

lemma config_ok_delete:
  assumes "config_ok L c"
  shows "config_ok L (c\<lparr>cf_services := fmdrop i (cf_services c), cf_applied := fmdrop i (cf_applied c), cf_policies := fmdrop i (cf_policies c)\<rparr>)"
  using assms by (simp add: config_ok_def states_ok_drop policies_drop)

lemma config_ok_removal:
  assumes "config_ok L c" "ApplyAutonomyRemoval L t i b r c = Inr (Some n)"
  shows "config_ok L n"
proof -
  let ?n = "c\<lparr>cf_services := fmupd i ((state_at (cf_services c) i)\<lparr>ss_enabled := False\<rparr>) (cf_services c),
      cf_applied := fmupd i ((state_at (cf_applied c) i)\<lparr>ss_enabled := False\<rparr>) (cf_applied c)\<rparr>"
  have "config_ok L ?n"
    using assms(1) by (intro config_ok_routed) (simp_all add: config_ok_def states_ok_at)
  with assms show ?thesis
    by (auto simp: ApplyAutonomyRemoval_def step_to_def Let_def config_ok_delete config_ok_fence split: if_splits)
qed

lemma le_next: "v \<noteq> max_revision \<Longrightarrow> v \<le> v + 1"
  unfolding max_revision_def by (metis inc_less_eq_triv_imp linear)

lemma consent_bumped:
  assumes "ValidateDefaultRouteConsent L (Some d)" "dc_approval d \<le> v"
  shows "ValidateDefaultRouteConsent L (Some (d\<lparr>dc_config := v\<rparr>))"
  using assms unfolding ValidateDefaultRouteConsent_def DefaultRouteConsentDigest_def Let_def option.case by (elim conjE) simp

lemma reviewed_states_ok:
  assumes "reviewed_services L m" "bounded m"
  shows "states_ok L (fmmap normalizeState m)"
  using assms by (auto simp: states_ok_def reviewed_services_def bounded_def sources_ok_def intro!: fmpredI dest: fmpredD)

lemma fence_commit_entry:
  assumes "policy_entry L i p" "states_ok L later"
  shows "policy_entry L i (fence_commit previous later i p)"
  using assms by (auto simp: fence_commit_def fence_changed_entry fenced_entry split: option.splits)

lemma config_ok_network:
  assumes "config_ok L c" "bounded m" "CommitNetworkPolicy L t expected p m c = Inr (Some n)"
  shows "config_ok L n"
proof -
  let ?next = "fmmap normalizeState m"
  let ?base = "c\<lparr>cf_applied_network := p, cf_applied := ?next, cf_policies := fmmap_keys (fence_commit (cf_applied c) ?next) (cf_policies c)\<rparr>"
  let ?consent = "if CurrentDefaultRouteConsent L c then map_option (\<lambda>d. d\<lparr>dc_config := cf_revision c + 1\<rparr>) (cf_consent c) else cf_consent c"
  have r: "ReviewedNetworkPolicyCommitImage L c p m t = Inr n"
    using assms(3) by (auto simp: CommitNetworkPolicy_def step_to_def split: sum.splits if_splits)
  then have m: "reviewed_services (ct_net L) m" and p: "ValidateAppliedNetworkPolicy (ct_net L) p = Inr ()" and rev: "cf_revision c \<noteq> max_revision"
    by (auto simp: ReviewedNetworkPolicyCommitImage_def Let_def split: if_splits)
  from r have n: "n = stamp_applied (ct_time L t) (if CurrentDefaultRouteConsent L c
      then (bump ?base)\<lparr>cf_consent := map_option (\<lambda>d. d\<lparr>dc_config := cf_revision (bump ?base)\<rparr>) (cf_consent (bump ?base))\<rparr> else bump ?base)"
    unfolding ReviewedNetworkPolicyCommitImage_def Let_def by (simp only: split: if_splits) (simp_all only: sum.inject sum.simps HOL.simp_thms if_True if_False)
  have ok: "states_ok (ct_net L) ?next" by (rule reviewed_states_ok [OF m assms(2)])
  have "config_ok L (c\<lparr>cf_applied_network := p, cf_applied := ?next\<rparr>)" using assms(1) ok p by (simp add: config_ok_def)
  from config_ok_policies_map [OF this fence_commit_entry [OF _ ok]] have base: "config_ok L ?base" by simp
  have consent: "ValidateDefaultRouteConsent L (map_option (\<lambda>d. d\<lparr>dc_config := cf_revision c + 1\<rparr>) (cf_consent c))" if "CurrentDefaultRouteConsent L c"
  proof -
    from that obtain d where d: "cf_consent c = Some d" "ValidateDefaultRouteConsent L (Some d)" "dc_config d = cf_revision c"
      by (auto simp: CurrentDefaultRouteConsent_def CurrentDefaultRouteScopeConsent_def split: option.splits)
    have "dc_approval d \<le> dc_config d" using d(2) by (auto simp: ValidateDefaultRouteConsent_def Let_def)
    moreover have "cf_revision c \<le> cf_revision c + 1"
      using rev by (rule le_next)
    ultimately show ?thesis using d by (simp add: consent_bumped)
  qed
  show ?thesis unfolding n using base consent by (simp add: config_ok_def)
qed

lemma config_ok_exclusions:
  assumes "config_ok L c" "UpdateResourceExclusionsPatch L expected x c = Inr (Some n)"
  shows "config_ok L n"
proof -
  have x: "exclusions_image L c x = Inr m \<Longrightarrow> config_ok L m" for m
    using assms(1) by (auto simp: exclusions_image_def patch_inactive_def patch_policy_def config_ok_def Let_def
        split: if_splits option.splits sum.splits)
  then show ?thesis using assms(2) by (auto simp: UpdateResourceExclusionsPatch_def step_to_def split: sum.splits if_splits)
qed

lemma list_policy_valid: "ValidateListNetworkPolicy L p = Inr () \<Longrightarrow> ValidateNetworkPolicy L p = Inr ()"
  by (auto simp: ValidateListNetworkPolicy_def split: sum.splits)

lemma config_ok_consent:
  assumes "config_ok L c" "ApproveDefaultRouteConsent L expected p g i v c = Inr (Some n)"
  shows "config_ok L n"
proof -
  from assms(2) obtain q where q: "NetworkPolicyWithRetainedExclusions L expected p = Some q"
    by (auto simp: ApproveDefaultRouteConsent_def split: if_splits option.splits)
  have "ValidateListNetworkPolicy (ct_net L) (Some q) = Inr ()" "ValidateDefaultRouteConsent L (Some (consent_of L c q g i v))"
    "n = bump (c\<lparr>cf_network := Some q, cf_inactive := None, cf_consent := Some (consent_of L c q g i v)\<rparr>)"
    using assms(2) q unfolding ApproveDefaultRouteConsent_def step_to_def by (auto simp: Let_def split: if_splits)
  with assms(1) list_policy_valid show ?thesis by (simp add: config_ok_def)
qed

lemma event_keeps_ok:
  assumes "go_text (ct_net L)" "event_ok e" "config_ok L c" "event_step L e c = Inr (Some n)"
  shows "config_ok L n"
proof (cases e)
  case (EvSafeMode b)
  with assms(3,4) show ?thesis by (auto simp: SetSafeMode_def step_to_def config_ok_def split: if_splits)
next
  case (EvMerge m)
  with assms show ?thesis
    by (auto simp: MergeDraft_def step_to_def config_ok_def bounded_def states_ok_add normal_states_ok split: option.splits)
next
  case (EvReplace m)
  with assms show ?thesis
    by (auto simp: ReplaceDraft_def step_to_def config_ok_def bounded_def normal_states_ok split: option.splits)
next
  case (EvDelete i)
  with assms(3,4) config_ok_delete show ?thesis by (auto simp: DeleteService_def step_to_def)
next
  case (EvRecipe r v)
  with assms(3,4) show ?thesis by (auto simp: SetNFQWSFirstStartRecipe_def step_to_def config_ok_def split: if_splits)
qed (use assms in \<open>auto intro: config_ok_update config_ok_apply config_ok_discard config_ok_control config_ok_runtime config_ok_policy
    config_ok_legacy config_ok_node_route config_ok_autonomy config_ok_removal config_ok_network config_ok_exclusions config_ok_consent\<close>)

end
