(* ===== verification/Config_Properties.thy ===== *)
theory Config_Properties
  imports Config_Invariant
begin

text \<open>
  The properties of the configuration store: it refines an atomic register, and
  what it leaves on disk can always be loaded again.
\<close>

section \<open>The document on disk\<close>

lemma config_ok_Default: "config_ok L Default"
  by (simp add: config_ok_def Default_def no_control_def no_schedule_def validateServicePolicies_def validateServiceControl_def
      bad_schedule_def ValidateNetworkPolicy_def ValidateAppliedNetworkPolicy_def ValidateDefaultRouteConsent_def fcard.rep_eq)

lemma inspected_sources:
  assumes "go_text L" "sources_ok L (ss_sources s)"
  shows "sources_ok L (ss_sources (inspected_state L s))"
  using assms sources_ok_normal [OF assms(1)]
  by (auto simp: inspected_state_def Let_def sources_ok_def split: option.splits)

lemma inspected_states: "go_text L \<Longrightarrow> states_ok L m \<Longrightarrow> states_ok L (fmmap (inspected_state L) m)"
  by (auto simp: states_ok_def inspected_sources dest: fmpredD intro!: fmpredI)

lemma inspected_binding: "validateServiceProfileBinding (inspected_state L s) = validateServiceProfileBinding s"
  by (auto simp: inspected_state_def validateServiceProfileBinding_def normalizeState_def Let_def split: option.splits)

lemma states_readable: "states_ok L m \<Longrightarrow> services_readable L m"
  by (auto simp: states_ok_def services_readable_def sources_ok_def dest: fmpredD intro!: fmpredI)

lemma inspect_saved:
  assumes "go_text (ct_net L)" "json_text L" "config_ok L c" "saved_ok L c"
  shows "InspectBytes L (ct_encode L c) = Some (inspected L (ct_encode L c) c)" "config_ok L (inspected L (ct_encode L c) c)"
proof -
  let ?n = "inspected L (ct_encode L c) c"
  have json: "ct_decode L (ct_encode L c) = Some c" "ct_has_applied L (ct_encode L c)" using assms(2) by (simp_all add: json_text_def)
  show ok: "config_ok L ?n"
    using assms(3) json(2) inspected_states [OF assms(1)] by (simp add: config_ok_def inspected_def Let_def)
  have "validateNFQWSFirstStartRecipes ?n" "validateConfigServiceBindings ?n" "ValidateResourceExclusionStorage L ?n"
    using assms(4) json(2)
    by (simp_all add: inspected_binding saved_ok_def inspected_def Let_def validateNFQWSFirstStartRecipes_def validateConfigServiceBindings_def
        ValidateResourceExclusionStorage_def)
  with ok have "document_ok L ?n" by (simp add: document_ok_def config_ok_def)
  moreover have "services_readable (ct_net L) (cf_services c)" "services_readable (ct_net L) (cf_applied c)" "\<not> cf_schema c < 0" "\<not> cf_schema c > 2"
    using assms(3) states_readable by (auto simp: config_ok_def)
  ultimately show "InspectBytes L (ct_encode L c) = Some ?n" by (simp add: InspectBytes_def json Let_def)
qed

definition disk_ok :: "config_text \<Rightarrow> file_content \<Rightarrow> bool" where
  "disk_ok L x \<longleftrightarrow> x = Absent \<or> (\<exists>b c. x = Regular b \<and> length b \<le> MaxImageBytes \<and> InspectBytes L b = Some c \<and> config_ok L c)"

definition register_ok :: "config_text \<Rightarrow> register \<Rightarrow> bool" where
  "register_ok L r \<longleftrightarrow> disk_ok L (rg_disk r) \<and> config_ok L (rg_now r) \<and> (\<forall>h\<in>set (rg_undos r). config_ok L (uh_previous h))"

definition input_ok :: "store_event \<Rightarrow> bool" where
  "input_ok e = (case e of Change c \<Rightarrow> event_ok c | _ \<Rightarrow> True)"

lemma disk_ok_saved:
  assumes "go_text (ct_net L)" "json_text L" "config_ok L c" "storable L c"
  shows "disk_ok L (Regular (ct_encode L c))"
  using assms(4) inspect_saved [OF assms(1-3)] by (auto simp: disk_ok_def storable_def)

lemma atomically_ok:
  assumes "go_text (ct_net L)" "json_text L" "atomically L f post r ok r'" "register_ok L r"
    "\<And>n. f (rg_now r) = Inr (Some n) \<Longrightarrow> config_ok L n"
    "\<And>n h. h \<in> set (post (rg_now r) n (rg_undos r)) \<Longrightarrow> config_ok L (uh_previous h)"
  shows "register_ok L r'"
  using assms(3)
proof cases
  case (at_commit n)
  with assms show ?thesis by (simp add: register_ok_def disk_ok_saved)
next
  case (at_lost n d)
  with assms show ?thesis by (auto simp: register_ok_def disk_ok_saved)
qed (use assms in simp_all)

lemma push_previous: "h \<in> set (push once c n hs) \<Longrightarrow> h \<in> set hs \<or> uh_previous h = c"
  by (auto simp: push_def split: option.splits)

lemma undo_step_previous: "undo_step h c = Inr (Some n) \<Longrightarrow> n = uh_previous h"
  by (auto simp: undo_step_def step_to_def split: if_splits)

lemma used_previous:
  assumes "h \<in> set (hs[i := (hs ! i)\<lparr>uh_used := True\<rparr>])" "i < length hs"
  shows "\<exists>h'\<in>set hs. uh_previous h = uh_previous h'"
  using assms by (auto dest!: set_update_subset_insert [THEN subsetD] intro: nth_mem)

lemma manual_to_auto_ok: "config_ok L c \<Longrightarrow> manual_to_auto L v c = Inr (Some n) \<Longrightarrow> config_ok L n"
  by (auto simp: manual_to_auto_def intro: config_ok_control split: if_splits)

lemma started_register_ok:
  assumes "go_text (ct_net L)" "json_text L" "started L create r ok r'" "register_ok L r"
  shows "register_ok L r'"
  using assms(3)
  by cases (use assms(4) disk_ok_saved [OF assms(1,2) config_ok_Default] in \<open>auto simp: register_ok_def config_ok_Default disk_ok_def\<close>)

lemma register_step_ok:
  assumes "go_text (ct_net L)" "json_text L" "register_step L r e r'" "input_ok (fst e)" "register_ok L r"
  shows "register_ok L r'"
  using assms(3)
proof cases
  case (rs_change c ok)
  from rs_change(3) show ?thesis
    by (rule atomically_ok [OF assms(1,2) _ assms(5)])
      (use assms(4,5) rs_change event_keeps_ok [OF assms(1)] in \<open>auto simp: register_ok_def input_ok_def dest!: push_previous\<close>)
next
  case (rs_undo i ok)
  then have i: "i < length (rg_undos r)" by (simp add: spent_def)
  from rs_undo(4) show ?thesis
  proof (rule atomically_ok [OF assms(1,2) _ assms(5)])
    fix n assume "undo_step (rg_undos r ! i) (rg_now r) = Inr (Some n)"
    with assms(5) i show "config_ok L n" by (auto simp: register_ok_def dest: undo_step_previous)
  next
    fix n h assume "h \<in> set ((rg_undos r)[i := (rg_undos r ! i)\<lparr>uh_used := True\<rparr>])"
    with assms(5) i show "config_ok L (uh_previous h)" by (auto simp: register_ok_def dest: used_previous)
  qed
next
  case (rs_auto v ok)
  from rs_auto(3) show ?thesis
    by (rule atomically_ok [OF assms(1,2) _ assms(5)])
      (use assms(5) in \<open>auto simp: register_ok_def dest!: push_previous intro: manual_to_auto_ok\<close>)
next
  case (rs_start create ok)
  from started_register_ok [OF assms(1,2) rs_start(2) assms(5)] show ?thesis .
qed (use assms(5) in simp_all)

lemma load_present:
  assumes "disk_ok L (cs_content s)" "cs_content s \<noteq> Absent"
  shows "\<exists>s'. load L False ([], s) = (Inr (), [], s') \<and> config_ok L (cs_config s') \<and> cs_content s' = cs_content s"
proof -
  from assms obtain b c where b: "cs_content s = Regular b" "length b \<le> MaxImageBytes" "InspectBytes L b = Some c" "config_ok L c"
    by (auto simp: disk_ok_def)
  then show ?thesis
    by (simp add: load_def readTarget_def on_file_def open_file_def run_simps op_remap_def op_zoom_def op_bind_def op_seq_def op_modify_def
        op_get_def op_check_def op_ask_def op_return_def)
qed

section \<open>Steps on applied services\<close>

text \<open>A policy without automatic permission.\<close>

definition revoked :: "service_policy \<Rightarrow> bool" where
  "revoked p \<longleftrightarrow> \<not> sp_enabled p \<and> sp_mode p = ''manual'' \<and> \<not> sp_legacy p \<and> (sp_pinned p = [] \<or> sp_pinned p \<in> set (sp_nodes p))"

definition is_runtime :: "config_event \<Rightarrow> bool" where
  "is_runtime e = (case e of EvRuntime _ _ _ _ \<Rightarrow> True | _ \<Rightarrow> False)"

lemma fenced_revoked: "revoked (fenced r v p)"
  using fenced_pin [of r v p] by (simp add: revoked_def fenced_def)

lemma state_at_lookup: "fmlookup m i = Some s \<Longrightarrow> state_at m i = s"
  by (simp add: state_at_def)

lemma fence_lookup:
  "fmlookup (cf_policies (fenceServicePolicy i r v c)) j =
     (if j = i then map_option (fenced r v) (fmlookup (cf_policies c) i) else fmlookup (cf_policies c) j)"
  by (auto simp: fenceServicePolicy_def split: option.splits)

definition changes_fenced :: "config \<Rightarrow> config \<Rightarrow> bool" where
  "changes_fenced c n \<longleftrightarrow> (\<forall>i s p. fmlookup (cf_applied n) i = Some s \<and> state_at (cf_applied c) i \<noteq> s \<and>
     fmlookup (cf_policies n) i = Some p \<longrightarrow> revoked p)"

lemma unchanged_fenced: "cf_applied n = cf_applied c \<Longrightarrow> changes_fenced c n"
  by (auto simp: changes_fenced_def dest: state_at_lookup)

lemma one_fenced:
  assumes "\<And>j. j \<noteq> i \<Longrightarrow> fmlookup (cf_applied n) j = None \<or> fmlookup (cf_applied n) j = fmlookup (cf_applied c) j"
    "\<And>p. fmlookup (cf_policies n) i = Some p \<Longrightarrow> revoked p"
  shows "changes_fenced c n"
  unfolding changes_fenced_def using assms by (metis option.distinct(1) state_at_lookup)

lemma mapped_fenced:
  assumes "\<And>i s p. fmlookup (cf_applied n) i = Some s \<Longrightarrow> state_at (cf_applied c) i \<noteq> s \<Longrightarrow> revoked (f i p)"
    "cf_policies n = fmmap_keys f ps"
  shows "changes_fenced c n"
  using assms by (auto simp: changes_fenced_def)

lemma routed_fenced:
  assumes "cf_applied n = fmupd i s (cf_applied c)" "cf_policies n = cf_policies (fenceServicePolicy i r v m)"
  shows "changes_fenced c n"
  by (rule one_fenced [of i]) (use assms in \<open>auto simp: fence_lookup fenced_revoked\<close>)

lemma event_changes_fenced:
  assumes "event_step L e c = Inr (Some n)" "\<not> is_runtime e"
  shows "changes_fenced c n"
proof (cases e)
  case (EvUpdateService i s r)
  with assms(1) show ?thesis
    by (intro unchanged_fenced) (auto simp: updateService_def step_to_def Let_def split: option.splits if_splits)
next
  case (EvDelete i)
  with assms(1) show ?thesis by (intro one_fenced [of i]) (auto simp: DeleteService_def step_to_def)
next
  case (EvApply t scope r)
  let ?m = "clearServiceStopAfterManualApply (apply_scope scope c)"
  from assms(1) EvApply have n: "n = stamp_applied (ct_time L t) (?m\<lparr>cf_policies := fmmap_keys (fence_changed (cf_applied c) (cf_applied ?m)) (cf_policies ?m)\<rparr>)"
    by (simp add: applyDraftScope_def step_to_def Let_def split: if_splits)
  show ?thesis
    by (rule mapped_fenced [of _ _ "fence_changed (cf_applied c) (cf_applied ?m)"]) (auto simp: n fence_changed_def fenced_revoked)
next
  case (EvNodeRoute t i route v r)
  with assms(1) show ?thesis
    by (auto simp: applyNodeRoute_def step_to_def Let_def split: if_splits option.splits intro!: routed_fenced)
next
  case (EvAutonomyRoute t i route v r)
  with assms(1) show ?thesis
    by (auto simp: ApplyAutonomyRoute_def ReviewedAutonomyRouteCommitImage_def step_to_def Let_def split: if_splits option.splits sum.splits
        intro!: routed_fenced)
next
  case (EvAutonomyRemoval t i b r)
  show ?thesis
  proof (cases b)
    case True
    with assms(1) EvAutonomyRemoval show ?thesis
      by (intro one_fenced [of i]) (auto simp: ApplyAutonomyRemoval_def step_to_def Let_def split: if_splits)
  next
    case False
    with assms(1) EvAutonomyRemoval show ?thesis
      by (auto simp: ApplyAutonomyRemoval_def step_to_def Let_def split: if_splits intro!: routed_fenced)
  qed
next
  case (EvNetwork t expected q m)
  with assms(1) have r: "ReviewedNetworkPolicyCommitImage L c q m t = Inr n"
    by (auto simp: CommitNetworkPolicy_def step_to_def split: sum.splits if_splits)
  then have "cf_applied n = fmmap normalizeState m" "cf_policies n = fmmap_keys (fence_commit (cf_applied c) (fmmap normalizeState m)) (cf_policies c)"
    by (auto simp: ReviewedNetworkPolicyCommitImage_def Let_def split: if_splits)
  then show ?thesis
    by (intro mapped_fenced [of _ _ "fence_commit (cf_applied c) (fmmap normalizeState m)"])
      (auto simp: fence_commit_def fence_changed_def fenced_revoked)
next
  case (EvExclusions expected x)
  with assms(1) show ?thesis
    by (intro unchanged_fenced) (auto simp: UpdateResourceExclusionsPatch_def exclusions_image_def patch_inactive_def Let_def step_to_def
        split: sum.splits if_splits option.splits)
next
  case (EvConsent expected q g i v)
  with assms(1) show ?thesis
    by (intro unchanged_fenced) (auto simp: ApproveDefaultRouteConsent_def Let_def step_to_def split: if_splits option.splits)
next
  case (EvPolicy q r v)
  with assms(1) show ?thesis
    by (intro unchanged_fenced) (auto simp: UpdateServicePolicy_def Let_def step_to_def split: if_splits option.splits)
next
  case (EvLegacy ps r)
  with assms(1) show ?thesis
    by (intro unchanged_fenced) (auto simp: PreserveLegacyServicePolicies_def step_to_def split: if_splits sum.splits prod.splits)
next
  case (EvControl m s r)
  with assms(1) show ?thesis
    by (intro unchanged_fenced) (auto simp: updateServiceControl_def step_to_def Let_def split: if_splits)
next
  case (EvDiscard scope)
  with assms(1) show ?thesis
    by (intro unchanged_fenced) (auto simp: DiscardDraftScope_def discardDraftScope_def step_to_def Let_def split: if_splits)
next
  case (EvRecipe r v)
  with assms(1) show ?thesis
    by (intro unchanged_fenced) (auto simp: SetNFQWSFirstStartRecipe_def step_to_def split: if_splits)
next
  case (EvSafeMode b)
  with assms(1) show ?thesis by (intro unchanged_fenced) (auto simp: SetSafeMode_def step_to_def split: if_splits)
next
  case (EvMerge m)
  with assms(1) show ?thesis by (intro unchanged_fenced) (auto simp: MergeDraft_def step_to_def split: option.splits)
next
  case (EvReplace m)
  with assms(1) show ?thesis by (intro unchanged_fenced) (auto simp: ReplaceDraft_def step_to_def split: option.splits)
qed (use assms(2) in \<open>simp add: is_runtime_def\<close>)

section \<open>Applying one scope\<close>

definition route_fields :: "service_state \<Rightarrow> bool \<times> string \<times> string" where
  "route_fields s = (ss_enabled s, ss_route s, ss_profile s)"

lemma applyDraftScope_image:
  assumes "applyDraftScope L now scope r c = Inr (Some n)"
  shows "validDraftScope scope" "cf_services n = cf_services c" "cf_applied n = cf_applied (apply_scope scope c)"
    "cf_recipe n = cf_recipe (apply_scope scope c)" "cf_applied_recipe n = cf_applied_recipe (apply_scope scope c)"
    "cf_control n = cf_control (clearServiceStopAfterManualApply (apply_scope scope c))"
    "cf_inactive n = cf_inactive c" "cf_network n = cf_network c"
    "cf_policies n = fmmap_keys (fence_changed (cf_applied c) (cf_applied n)) (cf_policies c)"
proof -
  let ?m = "clearServiceStopAfterManualApply (apply_scope scope c)"
  have n: "n = stamp_applied (ct_time L now) (?m\<lparr>cf_policies := fmmap_keys (fence_changed (cf_applied c) (cf_applied ?m)) (cf_policies ?m)\<rparr>)"
    and "validDraftScope scope"
    using assms by (simp_all add: applyDraftScope_def step_to_def Let_def split: if_splits)
  have "cf_recipe ?m = cf_recipe (apply_scope scope c)" "cf_applied_recipe ?m = cf_applied_recipe (apply_scope scope c)"
    "cf_inactive ?m = cf_inactive c" "cf_network ?m = cf_network c"
    by (simp_all add: clearServiceStopAfterManualApply_def apply_scope_def Let_def)
  then show "validDraftScope scope" "cf_services n = cf_services c" "cf_applied n = cf_applied (apply_scope scope c)"
    "cf_recipe n = cf_recipe (apply_scope scope c)" "cf_applied_recipe n = cf_applied_recipe (apply_scope scope c)"
    "cf_control n = cf_control ?m" "cf_inactive n = cf_inactive c" "cf_network n = cf_network c"
    "cf_policies n = fmmap_keys (fence_changed (cf_applied c) (cf_applied n)) (cf_policies c)"
    using \<open>validDraftScope scope\<close> by (simp_all add: n) (simp_all add: stamp_applied_def)
qed

lemma AppliedSources_recipe [simp]: "AppliedSources (c\<lparr>cf_applied_recipe := v\<rparr>) i = AppliedSources c i"
  by (simp add: AppliedSources_def split: option.split)

lemma applied_state_recipe [simp]: "applied_state (c\<lparr>cf_applied_recipe := v\<rparr>) scope i s = applied_state c scope i s"
  by (simp add: applied_state_def Let_def)

lemma apply_scope_lookup:
  assumes "scope \<noteq> ''all''"
  shows "fmlookup (cf_applied (apply_scope scope c)) i = (case fmlookup (cf_services c) i of
    None \<Rightarrow> fmlookup (cf_applied c) i | Some d \<Rightarrow> Some (applied_state c scope i d))"
  using assms by (auto simp: apply_scope_def Let_def split: option.splits)

lemma normalizeState_route [simp]: "ss_route (normalizeState s) \<noteq> []" "ss_mode (normalizeState s) = ss_route (normalizeState s)"
  by (simp_all add: normalizeState_def Let_def)

lemma normalizeState_routed: "ss_route s \<noteq> [] \<Longrightarrow> ss_route (normalizeState s) = ss_route s"
  by (simp add: normalizeState_def Let_def)

lemma normalizeState_enabled [simp]: "ss_enabled (normalizeState s) = ss_enabled s"
  by (simp add: normalizeState_def Let_def)

definition scope_applied :: "string \<Rightarrow> config \<Rightarrow> string \<Rightarrow> service_state \<Rightarrow> service_state \<Rightarrow> bool" where
  "scope_applied scope c i d a \<longleftrightarrow>
     (if scope = ''services'' then route_fields a = route_fields (normalizeState d) \<and> ss_sources a = AppliedSources c i
      else route_fields a = route_fields (normalizeState (state_at (cf_applied c) i)) \<and> ss_sources a = ss_sources d)"

lemma applied_state_scope: "scope_applied scope c i d (applied_state c scope i d)"
  by (simp add: scope_applied_def applied_state_def route_fields_def Let_def)

lemma scope_clean:
  assumes "scope_applied scope c i d a" "scope = ''services'' \<or> scope = ''devices''"
  shows "\<not> service_dirty scope (normalizeState d) (normalizeState a)"
proof -
  have "ss_route a \<noteq> []" if "scope = ''services''"
    using assms(1) that normalizeState_route(1) [of d] by (auto simp: scope_applied_def route_fields_def)
  with assms show ?thesis by (auto simp: scope_applied_def service_dirty_def route_fields_def normalizeState_routed)
qed

section \<open>Documents too large to load\<close>

lemma binding_fields:
  "ss_profile a = ss_profile d \<Longrightarrow> ss_route (normalizeState a) = ss_route (normalizeState d) \<Longrightarrow>
   validateServiceProfileBinding a = validateServiceProfileBinding d"
  by (simp add: validateServiceProfileBinding_def Let_def)

lemma binding_applied:
  assumes "validateServiceProfileBinding d" "validateServiceProfileBinding (state_at (cf_applied c) i)"
  shows "validateServiceProfileBinding (applied_state c scope i d)"
proof (cases "scope = ''services''")
  case True
  have "validateServiceProfileBinding (applied_state c scope i d) = validateServiceProfileBinding d"
    by (rule binding_fields) (simp_all add: True applied_state_def Let_def normalizeState_routed)
  with assms(1) show ?thesis by simp
next
  case False
  have "validateServiceProfileBinding (applied_state c scope i d) = validateServiceProfileBinding (state_at (cf_applied c) i)"
    by (rule binding_fields) (simp_all add: False applied_state_def Let_def normalizeState_routed)
  with assms(2) show ?thesis by simp
qed

lemma saved_ok_apply:
  assumes "saved_ok L c" "applyDraftScope L now scope r c = Inr (Some n)"
  shows "saved_ok L n"
proof -
  note n = applyDraftScope_image [OF assms(2)]
  have b: "fmpred (\<lambda>_. validateServiceProfileBinding) (cf_services c)" "fmpred (\<lambda>_. validateServiceProfileBinding) (cf_applied c)"
    "fmpred (\<lambda>_. validateServiceProfileBinding) (sc_suspended (cf_control c))"
    using assms(1) by (simp_all add: saved_ok_def validateConfigServiceBindings_def)
  have at: "validateServiceProfileBinding (state_at (cf_applied c) i)" for i
    using b(2) by (auto simp: state_at_def zero_state_def validateServiceProfileBinding_def split: option.splits dest: fmpredD)
  have "fmpred (\<lambda>_. validateServiceProfileBinding) (cf_applied n)"
  proof (cases "scope = ''all''")
    case True
    then show ?thesis using b(1) n(3) by (simp add: apply_scope_def Let_def)
  next
    case False
    show ?thesis
    proof (rule fmpredI)
      fix i s assume s: "fmlookup (cf_applied n) i = Some s"
      show "validateServiceProfileBinding s"
      proof (cases "fmlookup (cf_services c) i")
        case None
        with s fmpredD [OF b(2)] show ?thesis by (simp add: n(3) apply_scope_lookup [OF False])
      next
        case (Some d)
        then have "s = applied_state c scope i d" using s by (simp add: n(3) apply_scope_lookup [OF False])
        then show ?thesis by (simp only: binding_applied [OF fmpredD [OF b(1) Some] at])
      qed
    qed
  qed
  moreover have "fmpred (\<lambda>_. validateServiceProfileBinding) (sc_suspended (cf_control n))"
    using b(3) by (simp add: n(6) clearServiceStopAfterManualApply_def)
  moreover have "valid_recipe (cf_recipe n)" "valid_recipe (cf_applied_recipe n)"
    using assms(1) by (simp_all add: n(4,5) apply_scope_def Let_def saved_ok_def validateNFQWSFirstStartRecipes_def)
  ultimately show ?thesis
    using assms(1) b(1) by (simp add: saved_ok_def validateConfigServiceBindings_def validateNFQWSFirstStartRecipes_def
        ValidateResourceExclusionStorage_def n(2,7,8))
qed

section \<open>Properties\<close>

text \<open>
  C34: every run of the store, whatever the file system refuses or tears, is a
  run of the atomic register: a call that returns success has put exactly its
  successor document in memory and on disk, a failed call leaves the document
  in memory as it was, and after a write of unknown outcome nothing is written
  until the next start.
\<close>

theorem store_refines_register:
  assumes "runs (store_step L) s es s'"
  shows "runs (register_step L) (register_of s) es (register_of s')"
  using assms by (induction rule: runs.induct) (auto intro: runs.intros store_step_register)




text \<open>
  C38: the store commits a document that it cannot load again.  Applying more than
  128 device sources to a service with a policy copies them into the policy, the
  save accepts the document, and every later start refuses it.
\<close>

theorem oversized_policy_locks_out:
  assumes "ct_decode L (ct_encode L n) = Some n" "saved_ok L c" "applyDraftScope L now scope r c = Inr (Some n)"
    "fmlookup (cf_policies c) i \<noteq> None" "fmlookup (cf_applied n) i = Some s" "state_at (cf_applied c) i \<noteq> s" "128 < length (ss_sources s)"
  shows "saved_ok L n \<and> InspectBytes L (ct_encode L n) = None"
proof -
  note n = applyDraftScope_image [OF assms(3)]
  obtain p where p: "fmlookup (cf_policies n) i = Some p" "sp_sources p = ss_sources s"
    using assms(4-6) by (auto simp: n(9) fence_changed_def)
  have "NormalizeServicePolicy (ct_net L) p = None"
    using assms(7) p(2) by (simp add: NormalizeServicePolicy_some sources_ok_def)
  then have "\<not> validateServicePolicies (ct_net L) (cf_policies n)"
    using p(1) by (auto simp: validateServicePolicies_def dest!: fmpredD)
  then have "InspectBytes L (ct_encode L n) = None"
    using assms(1) by (simp add: InspectBytes_def document_ok_def inspected_def Let_def)
  with saved_ok_apply [OF assms(2,3)] show ?thesis by simp
qed

end
