(* ===== verification/Config_Demo.thy ===== *)
theory Config_Demo
  imports Config_Properties Network_Properties "HOL-Library.Countable"
begin

text \<open>
  A concrete codec for the documents of the store, so that the properties of the
  store can be applied: every document type is countable, texts of addresses are
  in base one.
\<close>

section \<open>Documents are countable\<close>

instance service_state_ext :: (countable) countable
  by (rule countable_classI [of "\<lambda>r. to_nat (ss_profile r, ss_enabled r, ss_mode r, ss_route r, ss_sources r, service_state.more r)"]) simp

instance service_scenario_ext :: (countable) countable
  by (rule countable_classI [of "\<lambda>r. to_nat (sn_kind r, sn_udp r, sn_ipv6 r, sn_country r, service_scenario.more r)"]) simp

instance service_policy_ext :: (countable) countable
  by (rule countable_classI [of "\<lambda>r. to_nat (sp_schema r, sp_service r, sp_revision r, sp_enabled r, sp_mode r, sp_sources r, sp_group r, sp_nodes r, sp_engines r, sp_source_ids r, sp_trust r, sp_pinned r, sp_pin_fallback r, sp_scenario r, sp_terminal r, sp_check r, sp_hold r, sp_switches r, sp_credentials r, sp_legacy r, service_policy.more r)"]) simp

instance check_schedule_ext :: (countable) countable
  by (rule countable_classI [of "\<lambda>r. to_nat (sd_enabled r, sd_interval r, sd_services r, check_schedule.more r)"]) simp

instance service_control_ext :: (countable) countable
  by (rule countable_classI [of "\<lambda>r. to_nat (sc_mode r, sc_schedule r, sc_stopped r, sc_suspended r, sc_routes r, service_control.more r)"]) simp

instance resource_match_ext :: (countable) countable
  by (rule countable_classI [of "\<lambda>r. to_nat (mt_kind r, mt_value r, resource_match.more r)"]) simp

instance russian_snapshot_ext :: (countable) countable
  by (rule countable_classI [of "\<lambda>r. to_nat (rs_catalog r, rs_revision r, rs_digest r, rs_entries r, russian_snapshot.more r)"]) simp

instance resource_exclusions_ext :: (countable) countable
  by (rule countable_classI [of "\<lambda>r. to_nat (rx_schema r, rx_revision r, rx_manual r, rx_snapshot r, resource_exclusions.more r)"]) simp

instance client_scope_ext :: (countable) countable
  by (rule countable_classI [of "\<lambda>r. to_nat (cs_mode r, cs_segments r, cs_devices r, cs_excluded_devices r, cs_excluded_cidrs r, cs_new_devices r, client_scope.more r)"]) simp

instance traffic_selection_ext :: (countable) countable
  by (rule countable_classI [of "\<lambda>r. to_nat (tf_mode r, tf_default_route r, tf_all_except_allowed r, tf_auto_hostlist r, tf_unavailable r, traffic_selection.more r)"]) simp

instance network_rule_ext :: (countable) countable
  by (rule countable_classI [of "\<lambda>r. to_nat (nr_id r, nr_revision r, nr_kind r, nr_value r, nr_action r, nr_mandatory r, nr_devices r, network_rule.more r)"]) simp

instance russian_exclusions_ext :: (countable) countable
  by (rule countable_classI [of "\<lambda>r. to_nat (ru_enabled r, ru_auto_update r, ru_catalog r, ru_revision r, ru_digest r, ru_services r, ru_tlds r, russian_exclusions.more r)"]) simp

instance network_policy_ext :: (countable) countable
  by (rule countable_classI [of "\<lambda>r. to_nat (np_schema r, np_revision r, np_clients r, np_traffic r, np_rules r, np_russian r, np_exclusions r, network_policy.more r)"]) simp

instance route_grant_ext :: (countable) countable
  by (rule countable_classI [of "\<lambda>r. to_nat (rg_resolved r, rg_class r, rg_provider r, rg_sources r, rg_kinds r, rg_protocols r, route_grant.more r)"]) simp

instance route_consent_ext :: (countable) countable
  by (rule countable_classI [of "\<lambda>r. to_nat (dc_schema r, dc_installation r, dc_sequence r, dc_approval r, dc_config r, dc_policy r, dc_grants r, dc_digest r, route_consent.more r)"]) simp

instance config_ext :: (countable) countable
  by (rule countable_classI [of "\<lambda>r. to_nat (cf_recipe r, cf_applied_recipe r, cf_schema r, cf_listen r, cf_services r, cf_applied r, cf_engines r, cf_safe r, cf_catalog r, cf_revision r, cf_applied_revision r, cf_applied_at r, cf_policies r, cf_control r, cf_network r, cf_applied_network r, cf_consent r, cf_inactive r, config.more r)"]) simp

section \<open>A codec\<close>

fun base_one :: "ip_addr \<Rightarrow> string" where
  "base_one (V4 w) = CHR ''4'' # replicate (unat w) (CHR ''1'')"
| "base_one (V6 w z) = CHR ''6'' # replicate (unat w) (CHR ''1'')"
| "base_one NoAddr = []"

definition parse_base_one :: "string \<Rightarrow> ip_addr option" where
  "parse_base_one s = (case s of [] \<Rightarrow> None
   | c # r \<Rightarrow> if c = CHR ''4'' then Some (V4 (of_nat (length r))) else if c = CHR ''6'' then Some (V6 (of_nat (length r)) []) else None)"

definition undec :: "string \<Rightarrow> nat" where
  "undec s = foldl (\<lambda>n c. 10 * n + (of_char c - 48)) 0 s"

definition parse_demo_prefix :: "string \<Rightarrow> prefix option" where
  "parse_demo_prefix s = (case str_cut CHR ''/'' s of None \<Rightarrow> None
   | Some (a, b) \<Rightarrow> (case parse_base_one a of None \<Rightarrow> None
     | Some x \<Rightarrow> let p = \<lparr>px_addr = x, px_bits = int (undec b)\<rparr> in if wf_prefix p then Some p else None))"

definition demo_net :: net_text where
  "demo_net = demo_text\<lparr>nt_format_addr := base_one, nt_parse_addr := parse_base_one, nt_parse_prefix := parse_demo_prefix, nt_trim_space := id\<rparr>"

lemma undec_dec: "undec (dec n) = n"
proof (induction n rule: dec.induct)
  case (1 n)
  show ?case
  proof (cases "n < 10")
    case True
    then show ?thesis by (simp add: dec.simps [of n] undec_def)
  next
    case False
    with 1 have "undec (dec (n div 10)) = n div 10" by simp
    with False show ?thesis by (simp add: dec.simps [of n] undec_def)
  qed
qed

lemma base_one_parse: "a \<noteq> NoAddr \<Longrightarrow> addr_zone a = [] \<Longrightarrow> parse_base_one (base_one a) = Some a"
  by (cases a) (simp_all add: parse_base_one_def addr_zone_def)

lemma str_cut_first: "d \<notin> set a \<Longrightarrow> str_cut d (a @ d # b) = Some (a, b)"
  by (induction a) auto

lemma base_one_chars: "CHR ''/'' \<notin> set (base_one a)"
  by (cases a) auto

lemma demo_go_text: "go_text demo_net"
proof -
  have "wf_prefix p" if "parse_demo_prefix v = Some p" for v p
    using that by (auto simp: parse_demo_prefix_def Let_def split: option.splits if_splits)
  moreover have "parse_demo_prefix (prefix_string demo_net p) = Some p" if "wf_prefix p" for p
  proof -
    have "prefix_string demo_net p = base_one (px_addr p) @ CHR ''/'' # dec (nat (px_bits p))"
      using that by (simp add: prefix_string_def demo_net_def prefix_valid_def wf_prefix_def)
    moreover have "nat (px_bits p) \<le> bit_length (px_addr p)" using that by (simp add: wf_prefix_def nat_le_iff)
    ultimately show ?thesis using that
      by (simp add: parse_demo_prefix_def str_cut_first base_one_chars base_one_parse undec_dec wf_prefix_def Let_def)
  qed
  ultimately show ?thesis by (simp add: go_text_def demo_net_def)
qed

definition demo_video :: service_state where
  "demo_video = \<lparr>ss_profile = [], ss_enabled = True, ss_mode = ''usque'', ss_route = ''usque'', ss_sources = []\<rparr>"

definition demo_edited :: config where
  "demo_edited = Default\<lparr>cf_services := fmupd ''video'' demo_video fmempty, cf_revision := 1\<rparr>"

definition demo_encode :: "config \<Rightarrow> string" where
  "demo_encode c = (if c = Default then ''a'' else if c = demo_edited then ''b'' else CHR ''c'' # replicate (to_nat c) (CHR ''x''))"

definition demo_decode :: "string \<Rightarrow> config option" where
  "demo_decode s = (case s of [] \<Rightarrow> None
   | c # r \<Rightarrow> if c = CHR ''a'' then Some Default else if c = CHR ''b'' then Some demo_edited else Some (from_nat (length r)))"

definition demo_codec :: config_text where
  "demo_codec = \<lparr>ct_net = demo_net, ct_encode = demo_encode, ct_decode = demo_decode, ct_has_applied = (\<lambda>_. True),
     ct_time = (\<lambda>t. ''now''), ct_consent_digest = (\<lambda>_. [])\<rparr>"

lemma demo_codec_simps [simp]:
  "ct_net demo_codec = demo_net" "ct_encode demo_codec = demo_encode" "ct_decode demo_codec = demo_decode" "ct_has_applied demo_codec b"
  by (simp_all add: demo_codec_def)

lemma demo_json: "json_text demo_codec"
  by (simp add: json_text_def demo_encode_def demo_decode_def)

lemma demo_edited_new: "demo_edited \<noteq> Default"
proof
  assume "demo_edited = Default"
  then have "cf_revision demo_edited = cf_revision Default" by simp
  then show False by (simp add: demo_edited_def Default_def)
qed

section \<open>A run\<close>

definition demo_start :: config_store where
  "demo_start = fresh_store Default absent_image Absent"

definition demo_created :: config_store where
  "demo_created = demo_start\<lparr>cs_image := file_image ''a'', cs_content := Regular ''a'', cs_up := True\<rparr>"

definition demo_changed :: config_store where
  "demo_changed = demo_created\<lparr>cs_config := demo_edited, cs_image := file_image ''b'', cs_content := Regular ''b''\<rparr>"

lemmas demo_run_simps = run_simps op_remap_def op_zoom_def op_bind_def op_seq_def op_modify_def op_get_def op_check_def op_ask_def
  op_return_def op_guard_def op_try_def op_fail_def op_effect_def

lemma demo_persists:
  assumes "cs_content s = image_content (cs_image s)" "length (img_data (cs_image s)) \<le> MaxImageBytes" "cs_image s \<noteq> file_image d"
    "img_exists (cs_image s) \<or> img_data (cs_image s) = []" "length d \<le> MaxImageBytes"
  shows "persistLocked d ([], s) = (Inr (), [], s\<lparr>cs_content := Regular d, cs_image := file_image d\<rparr>)"
  using assms
  by (cases "cs_image s") (auto simp: persistLocked_def CompareAndSwap_def readTarget_def on_file_def open_file_def validImage_def equal_image_def
      ft_write_def image_content_def file_image_def absent_image_def demo_run_simps)

lemma demo_saves:
  assumes "cs_content s = image_content (cs_image s)" "length (img_data (cs_image s)) \<le> MaxImageBytes" "cs_image s \<noteq> file_image d"
    "img_exists (cs_image s) \<or> img_data (cs_image s) = []" "length d \<le> MaxImageBytes"
    "saved_ok L (cs_config s)" "\<not> cs_uncertain s" "d = ct_encode L (cs_config s)"
  shows "saveLocked L ([], s) = (Inr (), [], s\<lparr>cs_content := Regular d, cs_image := file_image d\<rparr>)"
proof -
  have "on_file ft_read ([], s) = (Inr (cs_image s), [], s)"
    using assms(1,2,4)
    by (cases "cs_image s") (auto simp: on_file_def open_file_def ft_read_def readTarget_def image_content_def absent_image_def demo_run_simps split: if_splits)
  then show ?thesis
    using assms(6-8) demo_persists [OF assms(1-5)] by (simp add: saveLocked_def saved_ok_def demo_run_simps)
qed

lemma demo_creates: "store_step demo_codec demo_start (Restart True, True) demo_created"
proof -
  have saved: "saved_ok demo_codec Default"
    by (simp add: saved_ok_def validateNFQWSFirstStartRecipes_def valid_recipe_def ValidateResourceExclusionStorage_def
        ValidateResourceExclusions_def validateConfigServiceBindings_def Default_def no_control_def)
  have s: "saveLocked demo_codec ([], demo_start) = (Inr (), [], demo_start\<lparr>cs_content := Regular ''a'', cs_image := file_image ''a''\<rparr>)"
    by (rule demo_saves) (simp_all add: saved demo_start_def image_content_def absent_image_def file_image_def demo_encode_def MaxImageBytes_def)
  have "load demo_codec True ([], demo_start) = (Inr (), [], demo_created)"
    using s by (simp add: load_def on_file_def readTarget_def open_file_def demo_run_simps demo_start_def demo_created_def fresh_store_def absent_image_def)
  then show ?thesis by (intro store_ok) simp
qed

lemma demo_updates: "store_step demo_codec demo_created (Change (EvUpdateService ''video'' demo_video None), True) demo_changed"
proof -
  have step: "updateService demo_codec ''video'' demo_video None Default = Inr (Some demo_edited)"
    by (simp add: updateService_def normal_state_def NormalizeSources_def demo_video_def normalizeState_def validateServiceProfileBinding_def
        fenceServicePolicy_def state_at_def zero_state_def Default_def demo_edited_def bump_def step_to_def Let_def)
  have saved: "saved_ok demo_codec demo_edited"
    by (simp add: saved_ok_def validateNFQWSFirstStartRecipes_def valid_recipe_def ValidateResourceExclusionStorage_def
        ValidateResourceExclusions_def validateConfigServiceBindings_def demo_edited_def demo_video_def validateServiceProfileBinding_def Default_def no_control_def fmpred_iff)
  have "saveLocked demo_codec ([], demo_created\<lparr>cs_config := demo_edited\<rparr>) =
      (Inr (), [], demo_created\<lparr>cs_config := demo_edited, cs_content := Regular ''b'', cs_image := file_image ''b''\<rparr>)"
    by (subst demo_saves [of _ "''b''"])
      (simp_all add: saved demo_created_def demo_start_def image_content_def file_image_def demo_encode_def demo_edited_new MaxImageBytes_def)
  then have "perform_store demo_codec (Change (EvUpdateService ''video'' demo_video None)) ([], demo_created) = (Inr (), [], demo_changed)"
    using step by (simp add: running_def perform_event_def event_undo_def plain_def transact_def demo_run_simps demo_created_def demo_start_def demo_changed_def)
  then show ?thesis by (rule store_ok)
qed

lemma demo_store_runs: "runs (store_step demo_codec) demo_start [(Restart True, True), (Change (EvUpdateService ''video'' demo_video None), True)] demo_changed"
  by (rule run_two) (rule demo_creates demo_updates)+

theorem store_refines_register_witness:
  "runs (register_step demo_codec) (register_of demo_start)
     [(Restart True, True), (Change (EvUpdateService ''video'' demo_video None), True)] (register_of demo_changed)"
  by (rule store_refines_register [OF demo_store_runs])


section \<open>Commits of a draft\<close>

definition demo_permission :: service_policy where
  "demo_permission = \<lparr>sp_schema = 1, sp_service = ''video'', sp_revision = 1, sp_enabled = True, sp_mode = ''auto'', sp_sources = [], sp_group = [],
     sp_nodes = [], sp_engines = [], sp_source_ids = [], sp_trust = [], sp_pinned = [], sp_pin_fallback = False,
     sp_scenario = \<lparr>sn_kind = ''video'', sn_udp = False, sn_ipv6 = False, sn_country = []\<rparr>, sp_terminal = ''retain'',
     sp_check = 60, sp_hold = 60, sp_switches = 1, sp_credentials = False, sp_legacy = False\<rparr>"

definition demo_draft :: "string list \<Rightarrow> config" where
  "demo_draft v = demo_edited\<lparr>cf_services := fmupd ''video'' (demo_video\<lparr>ss_sources := v\<rparr>) fmempty,
     cf_policies := fmupd ''video'' demo_permission fmempty\<rparr>"

definition demo_commit :: "string \<Rightarrow> config \<Rightarrow> config" where
  "demo_commit scope c = (case applyDraftScope demo_codec 0 scope None c of Inr (Some n) \<Rightarrow> n | _ \<Rightarrow> c)"

lemma demo_commits: "scope \<in> {''all'', ''services'', ''devices''} \<Longrightarrow> applyDraftScope demo_codec 0 scope None c = Inr (Some (demo_commit scope c))"
  by (simp add: demo_commit_def applyDraftScope_def validDraftScope_def step_to_def Let_def)

lemma demo_draft_simps [simp]:
  "fmlookup (cf_services (demo_draft v)) ''video'' = Some (demo_video\<lparr>ss_sources := v\<rparr>)"
  "state_at (cf_applied (demo_draft v)) ''video'' = zero_state" "fmlookup (cf_policies (demo_draft v)) ''video'' = Some demo_permission"
  by (simp_all add: demo_draft_def demo_edited_def Default_def state_at_def)

lemma demo_commit_all:
  "fmlookup (cf_applied (demo_commit ''all'' (demo_draft v))) ''video'' = Some (demo_video\<lparr>ss_sources := v\<rparr>)"
  using applyDraftScope_image(3) [OF demo_commits [of "''all''" "demo_draft v"]] by (simp add: apply_scope_def Let_def)

lemma demo_video_new: "zero_state \<noteq> demo_video\<lparr>ss_sources := v\<rparr>"
  by (simp add: zero_state_def demo_video_def)



definition demo_crowd :: "string list" where
  "demo_crowd = map (\<lambda>k. prefix_string demo_net \<lparr>px_addr = V4 (0x0A000000 + of_nat k), px_bits = 32\<rparr>) [0..<129]"

theorem oversized_policy_locks_out_witness:
  "saved_ok demo_codec (demo_commit ''all'' (demo_draft demo_crowd)) \<and>
   InspectBytes demo_codec (demo_encode (demo_commit ''all'' (demo_draft demo_crowd))) = None"
proof -
  have saved: "saved_ok demo_codec (demo_draft demo_crowd)"
    by (simp add: saved_ok_def validateNFQWSFirstStartRecipes_def valid_recipe_def ValidateResourceExclusionStorage_def
        ValidateResourceExclusions_def validateConfigServiceBindings_def demo_draft_def demo_edited_def demo_video_def
        validateServiceProfileBinding_def Default_def no_control_def fmpred_iff)
  have json: "ct_decode demo_codec (ct_encode demo_codec c) = Some c" for c
    using demo_json by (simp add: json_text_def)
  have step: "applyDraftScope demo_codec 0 ''all'' None (demo_draft demo_crowd) = Inr (Some (demo_commit ''all'' (demo_draft demo_crowd)))"
    by (simp add: demo_commits)
  have long: "128 < length (ss_sources (demo_video\<lparr>ss_sources := demo_crowd\<rparr>))" by (simp add: demo_crowd_def)
  have new: "state_at (cf_applied (demo_draft demo_crowd)) ''video'' \<noteq> demo_video\<lparr>ss_sources := demo_crowd\<rparr>" by (simp add: demo_video_new)
  from oversized_policy_locks_out [OF json saved step _ demo_commit_all new long] show ?thesis by simp
qed

end
