(* ===== verification/Autonomy_Policy.thy ===== *)
theory Autonomy_Policy
  imports Network_Policy
begin

text \<open>
  \<open>internal/autonomy/policy.go\<close>: the policy of the autonomous worker, its validity,
  and the maintenance windows in local time.  A time zone is the offset from UTC
  as a function of the instant; \<open>LoadLocation\<close> is the argument \<open>zones\<close>.
\<close>

section \<open>Data\<close>

record window =
  wd_mode :: string
  wd_start :: string
  wd_end :: string
  wd_days :: "int list"

record autonomy_policy =
  ap_channel :: string
  ap_routes :: "string list"
  ap_preferred_sources :: "string list"
  ap_schema :: int
  ap_revision :: "64 word"
  ap_inherit :: bool
  ap_setup :: bool
  ap_enabled :: bool
  ap_timezone :: string
  ap_all_lan :: bool
  ap_default_sources :: "string list"
  ap_source_ids :: "string list"
  ap_protocols :: "string list"
  ap_check :: int
  ap_reserve :: int
  ap_target :: int
  ap_candidates :: int
  ap_confirm :: int
  ap_switches :: int
  ap_application :: window
  ap_components :: window

record autonomy_service =
  as_removing :: bool
  as_delete :: bool
  as_draft :: string
  as_id :: string
  as_enabled :: bool
  as_all_lan :: bool
  as_sources :: "string list"
  as_definition :: string
  as_route :: string

type_synonym zone = "time \<Rightarrow> duration"
type_synonym zone_table = "string \<Rightarrow> zone option"

section \<open>Validity\<close>

definition MaxPolicySources :: nat where "MaxPolicySources = 32"
definition PreferredCount :: nat where "PreferredCount = 7"

definition PreferredIDs :: "string list" where
  "PreferredIDs = [''nfqws2'', ''usque'', ''warp-wg'', ''amneziawg'', ''wireguard'', ''sing-box'', ''xray'']"

definition scope_address :: "net_text \<Rightarrow> string \<Rightarrow> ip_addr option" where
  "scope_address L s = (case nt_parse_addr L s of
     Some a \<Rightarrow> Some a
   | None \<Rightarrow> (case nt_parse_prefix L s of
       None \<Rightarrow> None
     | Some p \<Rightarrow> if px_bits p = 0 \<or> p \<noteq> prefix_masked p then None else Some (px_addr p)))"

definition scope_value :: "net_text \<Rightarrow> string \<Rightarrow> bool" where
  "scope_value L s \<longleftrightarrow> (case scope_address L s of None \<Rightarrow> False
     | Some a \<Rightarrow> addr_valid a \<and> \<not> is_unspecified a \<and> \<not> is_multicast a \<and> \<not> is_loopback a)"

definition ValidateScope :: "net_text \<Rightarrow> bool \<Rightarrow> string list \<Rightarrow> bool" where
  "ValidateScope L all_lan vs \<longleftrightarrow>
     \<not> (all_lan \<and> vs \<noteq> [] \<or> \<not> all_lan \<and> vs = [] \<or> length vs > 128) \<and> distinct vs \<and> list_all (scope_value L) vs"

definition digit_value :: "char \<Rightarrow> int" where
  "digit_value c = of_char c - 48"

definition Minute :: "string \<Rightarrow> int option" where
  "Minute s = (if length s \<noteq> 5 \<or> s ! 2 \<noteq> CHR '':'' \<or> \<not> list_all is_digit (take 2 s @ drop 3 s) then None
     else let h = digit_value (s ! 0) * 10 + digit_value (s ! 1); m = digit_value (s ! 3) * 10 + digit_value (s ! 4) in
       if h > 23 \<or> m > 59 then None else Some (h * 60 + m))"

definition ValidateWindow :: "window \<Rightarrow> bool" where
  "ValidateWindow w \<longleftrightarrow> (case (Minute (wd_start w), Minute (wd_end w)) of
     (Some a, Some b) \<Rightarrow> a \<noteq> b \<and> wd_days w \<noteq> [] \<and> length (wd_days w) \<le> 7 \<and>
       wd_mode w \<in> {''off'', ''check'', ''prepare'', ''install''} \<and>
       list_all (\<lambda>d. 0 \<le> d \<and> d \<le> 6) (wd_days w) \<and> distinct (wd_days w)
   | _ \<Rightarrow> False)"

definition executor :: "string \<Rightarrow> bool" where
  "executor r \<longleftrightarrow> r \<in> set PreferredIDs"

definition subset_once :: "string list \<Rightarrow> (string \<Rightarrow> bool) \<Rightarrow> bool" where
  "subset_once vs valid \<longleftrightarrow> list_all valid vs \<and> distinct vs"

definition in_strings :: "string list \<Rightarrow> string \<Rightarrow> bool" where
  "in_strings xs x \<longleftrightarrow> x \<in> set xs"

definition policy_ranges :: "autonomy_policy \<Rightarrow> bool" where
  "policy_ranges p \<longleftrightarrow>
     \<not> (ap_enabled p \<and> ap_source_ids p = [] \<and> ap_routes p = []) \<and> 60 \<le> ap_check p \<and> ap_check p \<le> 3600 \<and>
     ap_check p \<le> ap_reserve p \<and> ap_reserve p \<le> 86400 \<and> 1 \<le> ap_target p \<and> ap_target p \<le> 4 \<and>
     1 \<le> ap_candidates p \<and> ap_candidates p \<le> 4 \<and> 10 \<le> ap_confirm p \<and> ap_confirm p \<le> 300 \<and>
     1 \<le> ap_switches p \<and> ap_switches p \<le> 20"

definition ValidateAutonomy :: "net_text \<Rightarrow> zone_table \<Rightarrow> autonomy_policy \<Rightarrow> bool" where
  "ValidateAutonomy L zones p \<longleftrightarrow>
     ap_channel p \<in> {[], ''stable'', ''preview''} \<and> ap_schema p = 1 \<and> ap_revision p \<noteq> -1 \<and>
     \<not> (ap_enabled p \<and> \<not> ap_setup p) \<and> ap_timezone p \<noteq> [] \<and> length (ap_timezone p) \<le> 96 \<and> ap_timezone p \<noteq> ''Local'' \<and>
     zones (ap_timezone p) \<noteq> None \<and>
     \<not> (ap_setup p \<and> \<not> ValidateScope L (ap_all_lan p) (ap_default_sources p)) \<and>
     length (ap_source_ids p) \<le> MaxPolicySources \<and> ap_protocols p \<noteq> [] \<and> length (ap_protocols p) \<le> 4 \<and>
     length (ap_routes p) \<le> PreferredCount \<and> length (ap_preferred_sources p) \<le> MaxPolicySources \<and>
     subset_once (ap_preferred_sources p) (in_strings (ap_source_ids p)) \<and> subset_once (ap_routes p) executor \<and>
     subset_once (ap_source_ids p) policyIdentifier \<and>
     subset_once (ap_protocols p) (in_strings [''vless'', ''hysteria2'', ''tuic'', ''shadowsocks'']) \<and>
     policy_ranges p \<and> ValidateWindow (ap_application p) \<and> ValidateWindow (ap_components p) \<and> wd_mode (ap_components p) \<noteq> ''prepare''"

definition every_night :: "string \<Rightarrow> string \<Rightarrow> window" where
  "every_night a b = \<lparr>wd_mode = ''install'', wd_start = a, wd_end = b, wd_days = [0, 1, 2, 3, 4, 5, 6]\<rparr>"

definition DefaultAutonomy :: autonomy_policy where
  "DefaultAutonomy = \<lparr>ap_channel = [], ap_routes = [''nfqws2'', ''sing-box'', ''xray''], ap_preferred_sources = [], ap_schema = 1, ap_revision = 0,
     ap_inherit = False, ap_setup = False, ap_enabled = False, ap_timezone = ''UTC'', ap_all_lan = False, ap_default_sources = [],
     ap_source_ids = [], ap_protocols = [''vless'', ''hysteria2'', ''tuic'', ''shadowsocks''], ap_check = 120, ap_reserve = 300,
     ap_target = 3, ap_candidates = 2, ap_confirm = 20, ap_switches = 6,
     ap_application = every_night ''03:00'' ''04:00'', ap_components = every_night ''04:00'' ''05:00''\<rparr>"

section \<open>Windows in local time\<close>

definition day_length :: duration where "day_length = 24 * hour"

definition in_zone :: "zone \<Rightarrow> time \<Rightarrow> time" where
  "in_zone z t = t + z t"

text \<open>\<open>time.Date\<close> of a local clock value: the offset is looked up once, and again at the result.\<close>

definition go_date :: "zone \<Rightarrow> time \<Rightarrow> time" where
  "go_date z local = (if z local = 0 then local else local - z (local - z local))"

definition day_before :: "zone \<Rightarrow> time \<Rightarrow> time" where
  "day_before z t = go_date z (in_zone z t - day_length)"

definition clock_minute :: "zone \<Rightarrow> time \<Rightarrow> int" where
  "clock_minute z t = in_zone z t div hour mod 24 * 60 + in_zone z t div minute mod 60"

definition local_day :: "zone \<Rightarrow> time \<Rightarrow> int" where
  "local_day z t = in_zone z t div day_length"

text \<open>The zero time was a Monday; Sunday is 0.\<close>

definition weekday :: "zone \<Rightarrow> time \<Rightarrow> int" where
  "weekday z t = (local_day z t + 1) mod 7"

text \<open>The key of an open window: the local day it belongs to, in place of its formatted date, and its bounds.\<close>

type_synonym window_key = "int \<times> string \<times> string"

definition keyed_day :: "window \<Rightarrow> zone \<Rightarrow> time \<Rightarrow> time option" where
  "keyed_day w z t =
     (let start = the (Minute (wd_start w)); finish = the (Minute (wd_end w)); m = clock_minute z t in
      if start < finish then (if m < start \<or> m \<ge> finish then None else Some t)
      else if m \<ge> finish \<and> m < start then None
      else if m < finish then Some (day_before z t)
      else Some t)"

definition windowKeyIn :: "window \<Rightarrow> zone \<Rightarrow> time \<Rightarrow> window_key option" where
  "windowKeyIn w z t = (case keyed_day w z t of
     None \<Rightarrow> None
   | Some d \<Rightarrow> if weekday z d \<notin> set (wd_days w) then None else Some (local_day z d, wd_start w, wd_end w))"

definition WindowKey :: "zone_table \<Rightarrow> window \<Rightarrow> string \<Rightarrow> time \<Rightarrow> window_key option" where
  "WindowKey zones w tz t =
     (if \<not> ValidateWindow w \<or> wd_mode w = ''off'' \<or> t = zero_time then None
      else case zones tz of None \<Rightarrow> None | Some z \<Rightarrow> windowKeyIn w z t)"

fun next_open :: "window \<Rightarrow> zone \<Rightarrow> nat \<Rightarrow> time \<Rightarrow> time" where
  "next_open w z 0 t = zero_time"
| "next_open w z (Suc k) t = (if windowKeyIn w z t \<noteq> None then t else next_open w z k (t + minute))"

definition NextWindow :: "zone_table \<Rightarrow> window \<Rightarrow> string \<Rightarrow> time \<Rightarrow> time" where
  "NextWindow zones w tz t =
     (if \<not> ValidateWindow w \<or> wd_mode w = ''off'' \<or> t = zero_time then zero_time
      else case zones tz of None \<Rightarrow> zero_time | Some z \<Rightarrow> next_open w z (8 * 24 * 60) (t - t mod minute))"

end
