(* ===== verification/Autonomy_Runtime.thy ===== *)
theory Autonomy_Runtime
  imports Prelude
begin

text \<open>
  \<open>internal/autonomy/decision.go\<close>, \<open>candidate_failures.go\<close> and \<open>traversal.go\<close>: what
  the worker remembers of one service between its rounds, the quorum of failures,
  the hourly budget of switches and the rotation over the candidates.
\<close>

section \<open>Data\<close>

record candidate_failure =
  fl_node :: string
  fl_network :: string
  fl_definition :: string
  fl_scope :: string
  fl_plan :: string
  fl_code :: string
  fl_observed :: time
  fl_until :: time

record traversal =
  tv_version :: string
  tv_ordered :: "string list"
  tv_cursor :: int
  tv_exhausted :: bool
  tv_halted :: bool
  tv_retry :: time
  tv_standard :: bool

record autonomy_runtime =
  ar_state :: string
  ar_message :: string
  ar_next_check :: time
  ar_checked :: time
  ar_reserve_checked :: time
  ar_failures :: int
  ar_failure_node :: string
  ar_network :: string
  ar_first_failure :: time
  ar_last_failure :: time
  ar_cursor :: int
  ar_search :: "traversal option"
  ar_reserves :: "string list"
  ar_switches :: "time list"
  ar_candidates :: "candidate_failure list"

section \<open>Quorum of failures\<close>

definition no_failures :: "autonomy_runtime \<Rightarrow> autonomy_runtime" where
  "no_failures r = r\<lparr>ar_failures := 0, ar_first_failure := zero_time, ar_last_failure := zero_time\<rparr>"

definition Observe :: "string \<Rightarrow> string \<Rightarrow> string \<Rightarrow> time \<Rightarrow> duration \<Rightarrow> autonomy_runtime \<Rightarrow> bool \<times> autonomy_runtime" where
  "Observe node network verdict now gap r0 =
     (let r = (if ar_failure_node r0 \<noteq> node \<or> ar_network r0 \<noteq> network then no_failures r0 else r0);
          r = r\<lparr>ar_failure_node := node, ar_network := network\<rparr> in
      if verdict = ''PASS'' then (False, no_failures r)
      else if verdict = ''FAIL'' then
        (if ar_failures r = 0 then (False, r\<lparr>ar_failures := 1, ar_first_failure := now, ar_last_failure := now\<rparr>)
         else let r = (if \<not> now < ar_last_failure r + gap then r\<lparr>ar_failures := 2, ar_last_failure := now\<rparr> else r)
              in (ar_failures r \<ge> 2, r))
      else (False, no_failures r))"

section \<open>Budget of switches\<close>

definition recent_switches :: "time \<Rightarrow> autonomy_runtime \<Rightarrow> time list" where
  "recent_switches now r = filter (\<lambda>a. now - hour < a) (ar_switches r)"

definition SwitchBudgetAt :: "time \<Rightarrow> int \<Rightarrow> autonomy_runtime \<Rightarrow> time" where
  "SwitchBudgetAt now limit r =
     (if limit < 1 then now + hour
      else let recent = recent_switches now r in
        if int (length recent) < limit then now
        else sort recent ! (length recent - nat limit) + hour)"

definition ReserveSwitch :: "time \<Rightarrow> int \<Rightarrow> autonomy_runtime \<Rightarrow> bool \<times> autonomy_runtime" where
  "ReserveSwitch now limit r =
     (let recent = recent_switches now r; r = r\<lparr>ar_switches := recent\<rparr> in
      if limit < 1 \<or> int (length recent) \<ge> limit then (False, r)
      else (True, r\<lparr>ar_switches := recent @ [now]\<rparr>))"

definition RefundSwitch :: "autonomy_runtime \<Rightarrow> autonomy_runtime" where
  "RefundSwitch r = r\<lparr>ar_switches := butlast (ar_switches r)\<rparr>"

section \<open>Candidates\<close>

fun batch_loop :: "string list \<Rightarrow> string \<Rightarrow> int \<Rightarrow> int \<Rightarrow> nat \<Rightarrow> nat \<Rightarrow> string list \<Rightarrow> nat \<Rightarrow> string list \<times> nat" where
  "batch_loop ids current cursor limit i 0 out examined = (out, examined)"
| "batch_loop ids current cursor limit i (Suc k) out examined =
     (if int (length out) < limit
      then let v = ids ! nat ((cursor + int i) mod int (length ids)) in
        batch_loop ids current cursor limit (Suc i) k (if v \<noteq> current then out @ [v] else out) (Suc examined)
      else (out, examined))"

definition CandidateBatch :: "string list \<Rightarrow> string \<Rightarrow> int \<Rightarrow> int \<Rightarrow> string list \<times> int" where
  "CandidateBatch ids current cursor0 limit =
     (if ids = [] \<or> limit < 1 then ([], 0)
      else let n = int (length ids); cursor = cursor0 mod n;
               (out, examined) = batch_loop ids current cursor limit 0 (length ids) [] 0
        in (out, (cursor + max 1 (int examined)) mod n))"

definition stale_failure :: "string \<Rightarrow> string \<Rightarrow> string \<Rightarrow> time \<Rightarrow> candidate_failure \<Rightarrow> bool" where
  "stale_failure network service scope now f \<longleftrightarrow>
     fl_network f \<noteq> network \<or> fl_definition f \<noteq> service \<or> fl_scope f \<noteq> scope \<or>
     fl_observed f = zero_time \<or> now < fl_observed f \<or> \<not> now < fl_until f \<or>
     fl_observed f + 5 * minute < fl_until f \<or> fl_code f \<noteq> ''http-403'' \<and> fl_code f \<noteq> ''http-451''"

definition PruneCandidateFailures :: "string \<Rightarrow> string \<Rightarrow> string \<Rightarrow> time \<Rightarrow> autonomy_runtime \<Rightarrow> autonomy_runtime" where
  "PruneCandidateFailures network service scope now r =
     r\<lparr>ar_candidates := take_last 4 (filter (\<lambda>f. \<not> stale_failure network service scope now f) (ar_candidates r))\<rparr>"

definition CandidateCoolingDown :: "string \<Rightarrow> autonomy_runtime \<Rightarrow> bool" where
  "CandidateCoolingDown i r \<longleftrightarrow> list_ex (\<lambda>f. fl_node f = i) (ar_candidates r)"

definition RecordCandidateFailure :: "candidate_failure \<Rightarrow> autonomy_runtime \<Rightarrow> autonomy_runtime" where
  "RecordCandidateFailure f0 r =
     (let f = f0\<lparr>fl_until := fl_observed f0 + 5 * minute\<rparr> in
      PruneCandidateFailures (fl_network f) (fl_definition f) (fl_scope f) (fl_observed f)
        (r\<lparr>ar_candidates := filter (\<lambda>g. fl_node g \<noteq> fl_node f) (ar_candidates r) @ [f]\<rparr>))"

end
