(* ===== verification/Autonomy_Properties.thy ===== *)
theory Autonomy_Properties
  imports Autonomy_Policy Autonomy_Runtime
begin

text \<open>
  The budget of switches over a run of the worker, and the search for the next maintenance window.
\<close>

section \<open>Sorted times\<close>

lemma sorted_filter_above:
  fixes c :: int
  assumes "sorted xs"
  shows "filter (\<lambda>a. c < a) xs = dropWhile (\<lambda>a. a \<le> c) xs"
  using assms
proof (induction xs)
  case (Cons a xs)
  show ?case
  proof (cases "a \<le> c")
    case False
    with Cons.prems have "\<forall>x\<in>set (a # xs). c < x" by fastforce
    with False show ?thesis by (simp add: filter_id_conv)
  qed (use Cons in simp)
qed simp

lemma sorted_count_above:
  fixes c :: int
  assumes "sorted xs" "1 \<le> k" "k \<le> length xs"
  shows "length (filter (\<lambda>a. c < a) xs) < k \<longleftrightarrow> xs ! (length xs - k) \<le> c"
proof -
  let ?i = "length xs - k"
  have i: "?i < length xs" using assms(2,3) by simp
  have split: "xs = take ?i xs @ xs ! ?i # drop (Suc ?i) xs" using i by (simp add: Cons_nth_drop_Suc)
  show ?thesis
  proof
    assume le: "xs ! ?i \<le> c"
    have "a \<le> c" if mem: "a \<in> set (take ?i xs)" for a
    proof -
      obtain j where "j < length (take ?i xs)" "a = take ?i xs ! j" using mem unfolding in_set_conv_nth [of a "take ?i xs"] by blast
      then have "j < ?i" "a = xs ! j" by simp_all
      with sorted_nth_mono [OF assms(1), of j ?i] i le show ?thesis by simp
    qed
    then have "filter (\<lambda>a. c < a) (take ?i xs) = []" by (auto simp: filter_empty_conv not_less)
    then have "filter (\<lambda>a. c < a) xs = filter (\<lambda>a. c < a) (drop (Suc ?i) xs)"
      by (subst split) (use le in simp)
    then have "length (filter (\<lambda>a. c < a) xs) \<le> length (drop (Suc ?i) xs)" by (metis length_filter_le)
    with assms(2,3) show "length (filter (\<lambda>a. c < a) xs) < k" by simp
  next
    assume less: "length (filter (\<lambda>a. c < a) xs) < k"
    show "xs ! ?i \<le> c"
    proof (rule ccontr)
      assume gt: "\<not> xs ! ?i \<le> c"
      have "c < a" if mem: "a \<in> set (drop ?i xs)" for a
      proof -
        obtain j where j: "j < length xs - ?i" "a = xs ! (?i + j)" using mem by (auto simp: in_set_conv_nth)
        have "xs ! ?i \<le> a" unfolding j(2) by (rule sorted_nth_mono [OF assms(1)]) (use j(1) in simp_all)
        with gt show ?thesis by simp
      qed
      then have "filter (\<lambda>a. c < a) (drop ?i xs) = drop ?i xs" by simp
      then have "length (filter (\<lambda>a. c < a) xs) \<ge> length (drop ?i xs)"
        by (metis append_take_drop_id filter_append le_add2 length_append)
      with less assms(3) show False by simp
    qed
  qed
qed

section \<open>The budget of switches\<close>

text \<open>
  The worker's runtime, the switches it kept (reserved and not refunded), and the
  clock it last read.
\<close>

datatype budget_event = Reserved time | Refunded | Observed string string string time duration | Failed candidate_failure

record budget =
  bg_runtime :: autonomy_runtime
  bg_kept :: "time list"
  bg_clock :: time

inductive budget_step :: "int \<Rightarrow> budget \<Rightarrow> budget_event \<Rightarrow> budget \<Rightarrow> bool" for limit where
  bs_reserve: "bg_clock b \<le> now \<Longrightarrow> ReserveSwitch now limit (bg_runtime b) = (ok, r) \<Longrightarrow>
    budget_step limit b (Reserved now) \<lparr>bg_runtime = r, bg_kept = (if ok then bg_kept b @ [now] else bg_kept b), bg_clock = now\<rparr>"
| bs_refund: "budget_step limit b Refunded (b\<lparr>bg_runtime := RefundSwitch (bg_runtime b),
    bg_kept := (if ar_switches (bg_runtime b) = [] then bg_kept b else butlast (bg_kept b))\<rparr>)"
| bs_observe: "budget_step limit b (Observed node network verdict now gap)
    (b\<lparr>bg_runtime := snd (Observe node network verdict now gap (bg_runtime b))\<rparr>)"
| bs_fail: "budget_step limit b (Failed f) (b\<lparr>bg_runtime := RecordCandidateFailure f (bg_runtime b)\<rparr>)"

definition in_hour :: "time \<Rightarrow> time list \<Rightarrow> time list" where
  "in_hour t xs = filter (\<lambda>a. t - hour < a \<and> a \<le> t) xs"

definition budget_ok :: "int \<Rightarrow> budget \<Rightarrow> bool" where
  "budget_ok limit b \<longleftrightarrow> sorted (bg_kept b) \<and> (\<forall>a\<in>set (bg_kept b). a \<le> bg_clock b) \<and>
     (\<exists>old. bg_kept b = old @ ar_switches (bg_runtime b) \<and> (\<forall>a\<in>set old. a \<le> bg_clock b - hour)) \<and>
     (\<forall>t. int (length (in_hour t (bg_kept b))) \<le> max 0 limit)"

lemma observe_switches: "ar_switches (snd (Observe node network verdict now gap r)) = ar_switches r"
  by (auto simp: Observe_def no_failures_def Let_def)

lemma record_switches: "ar_switches (RecordCandidateFailure f r) = ar_switches r"
  by (simp add: RecordCandidateFailure_def PruneCandidateFailures_def Let_def)

lemma pruned_suffix:
  assumes "kept = old @ sw" "sorted kept" "\<forall>a\<in>set old. a \<le> clock - hour" "clock \<le> now"
  shows "\<exists>old'. kept = old' @ filter (\<lambda>a. now - hour < a) sw \<and> (\<forall>a\<in>set old'. a \<le> now - hour)"
proof (intro exI conjI)
  have "sorted sw" using assms(1,2) by (simp add: sorted_append)
  then show "kept = (old @ takeWhile (\<lambda>a. a \<le> now - hour) sw) @ filter (\<lambda>a. now - hour < a) sw"
    using assms(1) by (simp add: sorted_filter_above)
  show "\<forall>a\<in>set (old @ takeWhile (\<lambda>a. a \<le> now - hour) sw). a \<le> now - hour"
    using assms(3,4) by (auto dest: set_takeWhileD)
qed

lemma reserve_keeps:
  assumes "budget_ok limit b" "bg_clock b \<le> now" "ReserveSwitch now limit (bg_runtime b) = (ok, r)"
  shows "budget_ok limit \<lparr>bg_runtime = r, bg_kept = (if ok then bg_kept b @ [now] else bg_kept b), bg_clock = now\<rparr>"
proof -
  let ?kept = "bg_kept b" and ?recent = "recent_switches now (bg_runtime b)"
  from assms(1) obtain old where b: "sorted ?kept" "\<forall>a\<in>set ?kept. a \<le> bg_clock b" "?kept = old @ ar_switches (bg_runtime b)"
    "\<forall>a\<in>set old. a \<le> bg_clock b - hour" "\<forall>t. int (length (in_hour t ?kept)) \<le> max 0 limit"
    by (auto simp: budget_ok_def)
  obtain old' where old': "?kept = old' @ ?recent" "\<forall>a\<in>set old'. a \<le> now - hour"
    using pruned_suffix [OF b(3,1,4) assms(2)] by (auto simp: recent_switches_def)
  have upto: "\<forall>a\<in>set ?kept. a \<le> now" using b(2) assms(2) by fastforce
  show ?thesis
  proof (cases ok)
    case False
    then have "ar_switches r = ?recent" using assms(3) by (auto simp: ReserveSwitch_def Let_def split: if_splits)
    with False b(1,5) old' upto show ?thesis by (auto simp: budget_ok_def)
  next
    case True
    then have r: "ar_switches r = ?recent @ [now]" "int (length ?recent) < limit"
      using assms(3) by (auto simp: ReserveSwitch_def Let_def split: if_splits)
    have "int (length (in_hour t (?kept @ [now]))) \<le> max 0 limit" for t
    proof (cases "t - hour < now \<and> now \<le> t")
      case False
      with b(5) show ?thesis by (auto simp: in_hour_def)
    next
      case now: True
      have "in_hour t old' = []" using old'(2) now by (auto simp: in_hour_def filter_empty_conv)
      then have "length (in_hour t ?kept) \<le> length ?recent" by (simp add: old'(1)) (simp add: in_hour_def)
      with now r(2) show ?thesis by (simp add: in_hour_def)
    qed
    with True b(1) old' upto r(1) show ?thesis by (auto simp: budget_ok_def sorted_append)
  qed
qed

lemma refund_keeps:
  assumes "budget_ok limit b"
  shows "budget_ok limit (b\<lparr>bg_runtime := RefundSwitch (bg_runtime b),
    bg_kept := (if ar_switches (bg_runtime b) = [] then bg_kept b else butlast (bg_kept b))\<rparr>)"
proof (cases "ar_switches (bg_runtime b) = []")
  case True
  with assms show ?thesis by (simp add: budget_ok_def RefundSwitch_def)
next
  case False
  from assms obtain old where b: "sorted (bg_kept b)" "\<forall>a\<in>set (bg_kept b). a \<le> bg_clock b" "bg_kept b = old @ ar_switches (bg_runtime b)"
    "\<forall>a\<in>set old. a \<le> bg_clock b - hour" "\<forall>t. int (length (in_hour t (bg_kept b))) \<le> max 0 limit"
    by (auto simp: budget_ok_def)
  let ?b = "b\<lparr>bg_runtime := RefundSwitch (bg_runtime b),
    bg_kept := (if ar_switches (bg_runtime b) = [] then bg_kept b else butlast (bg_kept b))\<rparr>"
  have fields: "bg_kept ?b = butlast (bg_kept b)" "bg_clock ?b = bg_clock b" "ar_switches (bg_runtime ?b) = butlast (ar_switches (bg_runtime b))"
    using False by (simp_all add: RefundSwitch_def)
  have last: "bg_kept b = butlast (bg_kept b) @ [last (bg_kept b)]"
    by (rule append_butlast_last_id [symmetric]) (use b(3) False in simp)
  have s: "sorted (butlast (bg_kept b))" using b(1) by (simp add: sorted_butlast)
  have "length (in_hour t (butlast (bg_kept b))) \<le> length (in_hour t (bg_kept b))" for t
    by (subst (2) last) (simp add: in_hour_def)
  then have "int (length (in_hour t (butlast (bg_kept b)))) \<le> max 0 limit" for t
    using b(5) by (meson of_nat_mono order_trans)
  moreover have "\<forall>a\<in>set (butlast (bg_kept b)). a \<le> bg_clock b" using b(2) by (blast dest: in_set_butlastD)
  moreover have "butlast (bg_kept b) = old @ butlast (ar_switches (bg_runtime b))" using b(3) False by (simp add: butlast_append)
  ultimately show ?thesis
    using b(4) s unfolding budget_ok_def fields by blast
qed

lemma budget_step_ok: "budget_step limit b e b' \<Longrightarrow> budget_ok limit b \<Longrightarrow> budget_ok limit b'"
  by (induction rule: budget_step.induct)
    (auto simp: reserve_keeps refund_keeps, auto simp: budget_ok_def observe_switches record_switches)

interpretation hb: step_invariant "budget_step limit" "budget_ok limit" for limit
  by unfold_locales (rule budget_step_ok)

text \<open>\<open>SwitchBudgetAt\<close> is the earliest moment at which a reservation succeeds.\<close>

lemma switch_budget_exact:
  assumes "now \<le> t"
  shows "fst (ReserveSwitch t limit r) \<longleftrightarrow> 1 \<le> limit \<and> SwitchBudgetAt now limit r \<le> t"
proof -
  let ?recent = "recent_switches now r"
  have later: "recent_switches t r = filter (\<lambda>a. t - hour < a) ?recent"
    using assms by (simp add: recent_switches_def) (rule filter_cong, auto)
  have "fst (ReserveSwitch t limit r) \<longleftrightarrow> 1 \<le> limit \<and> int (length (filter (\<lambda>a. t - hour < a) ?recent)) < limit"
    by (auto simp: ReserveSwitch_def Let_def later)
  also have "\<dots> \<longleftrightarrow> 1 \<le> limit \<and> SwitchBudgetAt now limit r \<le> t"
  proof (cases "int (length ?recent) < limit \<or> limit < 1")
    case True
    have "int (length (filter (\<lambda>a. t - hour < a) ?recent)) \<le> int (length ?recent)" by simp
    with True have "int (length (filter (\<lambda>a. t - hour < a) ?recent)) < limit \<or> limit < 1" by linarith
    with True assms show ?thesis by (auto simp: SwitchBudgetAt_def Let_def)
  next
    case False
    let ?k = "nat limit"
    have k: "1 \<le> ?k" "?k \<le> length (sort ?recent)" using False by auto
    have "length (filter (\<lambda>a. t - hour < a) ?recent) = length (filter (\<lambda>a. t - hour < a) (sort ?recent))"
      by (metis filter_sort length_sort)
    then have "int (length (filter (\<lambda>a. t - hour < a) ?recent)) < limit \<longleftrightarrow> sort ?recent ! (length ?recent - ?k) \<le> t - hour"
      using sorted_count_above [OF sorted_sort k, of "t - hour"] False by auto
    with False show ?thesis by (auto simp: SwitchBudgetAt_def Let_def)
  qed
  finally show ?thesis .
qed

definition new_budget :: "autonomy_runtime \<Rightarrow> time \<Rightarrow> budget" where
  "new_budget r now = \<lparr>bg_runtime = r\<lparr>ar_switches := []\<rparr>, bg_kept = [], bg_clock = now\<rparr>"

section \<open>Windows\<close>

text \<open>Whether a window is open in a local minute, counted from the zero time.\<close>

definition minute_day :: "window \<Rightarrow> int \<Rightarrow> int option" where
  "minute_day w k =
     (let start = the (Minute (wd_start w)); finish = the (Minute (wd_end w)); m = k mod 1440; d = k div 1440 in
      if start < finish then (if m < start \<or> m \<ge> finish then None else Some d)
      else if m \<ge> finish \<and> m < start then None
      else if m < finish then Some (d - 1)
      else Some d)"

definition open_minute :: "window \<Rightarrow> int \<Rightarrow> bool" where
  "open_minute w k \<longleftrightarrow> (case minute_day w k of None \<Rightarrow> False | Some d \<Rightarrow> (d + 1) mod 7 \<in> set (wd_days w))"

lemma hour_minute: "x div hour = x div minute div 60"
  using zdiv_zmult2_eq [of 60 x minute] by (simp add: hour_def mult.commute)

lemma clock_minute_mod: "clock_minute z t = in_zone z t div minute mod 1440"
  using zmod_zmult2_eq [of 24 "in_zone z t div minute" 60] by (simp add: clock_minute_def hour_minute)

lemma local_day_div: "local_day z t = in_zone z t div minute div 1440"
  using zdiv_zmult2_eq [of 1440 "in_zone z t" minute] by (simp add: local_day_def day_length_def hour_def mult.commute)

lemma day_before_fixed: "local_day (\<lambda>_. off) (day_before (\<lambda>_. off) t) = local_day (\<lambda>_. off) t - 1"
proof -
  have "in_zone (\<lambda>_. off) (day_before (\<lambda>_. off) t) = in_zone (\<lambda>_. off) t + (- 1) * day_length"
    by (simp add: in_zone_def day_before_def go_date_def)
  moreover have "day_length \<noteq> 0" by (simp add: day_length_def duration_defs)
  ultimately show ?thesis unfolding local_day_def
    using div_mult_self1 [of day_length "in_zone (\<lambda>_. off) t" "- 1"] by simp
qed

lemma window_open_minute: "windowKeyIn w (\<lambda>_. off) t \<noteq> None \<longleftrightarrow> open_minute w ((t + off) div minute)"
  by (simp add: windowKeyIn_def keyed_day_def open_minute_def minute_day_def weekday_def clock_minute_mod day_before_fixed Let_def)
    (simp add: local_day_div in_zone_def)

lemma minute_shift: "off mod minute = 0 \<Longrightarrow> (t + off) div minute = t div minute + off div minute"
  by (rule div_plus_div_distrib_dvd_right) auto

lemma minute_steps:
  assumes "off mod minute = 0"
  shows "(t + int i * minute + off) div minute = (t + off) div minute + int i"
  using minute_shift [OF assms, of "t + int i * minute"] minute_shift [OF assms, of t] by (simp add: duration_defs)

text \<open>Within one minute a window does not open or close.\<close>

lemma window_grid:
  assumes "off mod minute = 0" "n \<le> t" "t < n + int j * minute" "n mod minute = 0"
  shows "\<exists>l<j. windowKeyIn w (\<lambda>_. off) t = None \<longleftrightarrow> windowKeyIn w (\<lambda>_. off) (n + int l * minute) = None"
proof (intro exI conjI)
  let ?l = "nat ((t - n) div minute)"
  have min: "0 < minute" by (simp add: duration_defs)
  have l: "int ?l = (t - n) div minute" using assms(2) min by (simp add: pos_imp_zdiv_nonneg_iff)
  have "(t - n) div minute * minute < int j * minute"
    using assms(3) div_mult_mod_eq [of "t - n" minute] pos_mod_sign [OF min, of "t - n"] by linarith
  then have "(t - n) div minute < int j" by (rule mult_right_less_imp_less) (use min in simp)
  then show "?l < j" using l by linarith
  have "t div minute = n div minute + int ?l"
    using minute_shift [OF assms(4), of "t - n"] l by simp
  then have "(t + off) div minute = (n + int ?l * minute + off) div minute"
    unfolding minute_steps [OF assms(1)] using minute_shift [OF assms(1), of t] minute_shift [OF assms(1), of n] by simp
  then show "windowKeyIn w (\<lambda>_. off) t = None \<longleftrightarrow> windowKeyIn w (\<lambda>_. off) (n + int ?l * minute) = None"
    using window_open_minute [of w off t] window_open_minute [of w off "n + int ?l * minute"] by metis
qed

lemma next_open_first:
  assumes "windowKeyIn w z (t + int i * minute) \<noteq> None" "i < k"
  shows "\<exists>j\<le>i. next_open w z k t = t + int j * minute \<and> windowKeyIn w z (t + int j * minute) \<noteq> None \<and>
    (\<forall>l<j. windowKeyIn w z (t + int l * minute) = None)"
  using assms
proof (induction k arbitrary: t i)
  case (Suc k)
  show ?case
  proof (cases "windowKeyIn w z t = None")
    case False
    then show ?thesis by (intro exI [of _ 0]) simp
  next
    case True
    with Suc.prems(1) obtain i' where i: "i = Suc i'" by (cases i) auto
    with Suc.prems have "windowKeyIn w z (t + minute + int i' * minute) \<noteq> None" "i' < k" by (simp_all add: algebra_simps)
    from Suc.IH [OF this] obtain j where j: "j \<le> i'" "next_open w z k (t + minute) = t + minute + int j * minute"
      "windowKeyIn w z (t + minute + int j * minute) \<noteq> None" "\<forall>l<j. windowKeyIn w z (t + minute + int l * minute) = None" by blast
    have shift: "t + minute + int l * minute = t + int (Suc l) * minute" for l by (simp add: algebra_simps)
    have "windowKeyIn w z (t + int l * minute) = None" if "l < Suc j" for l
      using that True j(4) by (cases l) (simp_all only: shift, simp_all)
    moreover have "next_open w z (Suc k) t = t + int (Suc j) * minute" using True j(2) unfolding shift [symmetric] by simp
    moreover have "windowKeyIn w z (t + int (Suc j) * minute) \<noteq> None" using j(3) unfolding shift .
    moreover have "Suc j \<le> i" using i j(1) by simp
    ultimately show ?thesis by blast
  qed
qed simp

lemma digit_value_nonneg: "is_digit c \<Longrightarrow> 0 \<le> digit_value c"
  using of_nat_of_char [of c, where 'a = int] by (simp add: digit_value_def is_digit_def in_range_def)

lemma Minute_range: "Minute s = Some m \<Longrightarrow> 0 \<le> m \<and> m < 1440"
proof -
  assume m: "Minute s = Some m"
  have d: "0 \<le> digit_value (s ! i)" if "i \<in> {0, 1, 3, 4}" for i
  proof -
    from m have s: "length s = 5" "list_all is_digit (take 2 s @ drop 3 s)" by (auto simp: Minute_def split: if_splits)
    then obtain a b c e f where "s = [a, b, c, e, f]" by (auto simp: length_Suc_conv eval_nat_numeral)
    with s(2) that show ?thesis by (auto simp: digit_value_nonneg)
  qed
  from m show ?thesis using d [of 0] d [of 1] d [of 3] d [of 4]
    by (auto simp: Minute_def Let_def split: if_splits)
qed

text \<open>Some minute of the next eight days is open: the start of the window on the next listed weekday.\<close>

lemma open_within:
  assumes "ValidateWindow w"
  shows "\<exists>i < 8 * 24 * 60. open_minute w (k + int i)"
proof -
  obtain a b where w: "Minute (wd_start w) = Some a" "Minute (wd_end w) = Some b" "a \<noteq> b" "wd_days w \<noteq> []"
    "list_all (\<lambda>d. 0 \<le> d \<and> d \<le> 6) (wd_days w)"
    using assms by (auto simp: ValidateWindow_def split: option.splits)
  obtain d where d: "d \<in> set (wd_days w)" "0 \<le> d" "d \<le> 6" using w(4,5) by (cases "wd_days w") auto
  note a = Minute_range [OF w(1)] and b = Minute_range [OF w(2)]
  define today where "today = k div 1440"
  define ahead where "ahead = (d - today - 2) mod 7"
  define day where "day = today + 1 + ahead"
  define i where "i = nat (day * 1440 + a - k)"
  have m: "0 \<le> ahead" "ahead \<le> 6" by (simp_all add: ahead_def)
  obtain passed where k: "k = today * 1440 + passed" "0 \<le> passed" "passed < 1440"
    using that [of "k mod 1440"] by (simp add: today_def)
  have "day * 1440 = today * 1440 + 1440 + ahead * 1440" by (simp add: day_def)
  then have away: "day * 1440 + a - k = 1440 + ahead * 1440 + a - passed" using k(1) by linarith
  have pos: "0 \<le> day * 1440 + a - k" "day * 1440 + a - k < 11520" unfolding away using m a k(2,3) by auto
  have "day + 1 = today + 2 + (d - today - 2) mod 7" by (simp add: day_def ahead_def)
  then have "(day + 1) mod 7 = (today + 2 + (d - today - 2) mod 7) mod 7" by (rule arg_cong)
  also have "\<dots> = (today + 2 + (d - today - 2)) mod 7" by (rule mod_add_right_eq)
  also have "\<dots> = d" using d(2,3) by simp
  finally have "(day + 1) mod 7 = d" .
  moreover have at: "k + int i = day * 1440 + a" using pos by (simp add: i_def)
  moreover have "(day * 1440 + a) div 1440 = day" "(day * 1440 + a) mod 1440 = a" using a by simp_all
  ultimately have "open_minute w (k + int i)"
    using w(1-3) d(1) a by (simp add: open_minute_def minute_day_def Let_def)
  moreover have "i < 8 * 24 * 60" using pos by (simp add: i_def)
  ultimately show ?thesis by blast
qed

section \<open>Properties\<close>

text \<open>
  C39: a service is switched at most \<open>limit\<close> times in any hour.  In every run of
  reservations, refunds, observations and refusals under a clock that does not go
  back, each hour contains at most that many switches that were reserved and not
  refunded, and \<open>SwitchBudgetAt\<close> is exactly the first moment at which the next
  reservation succeeds.
\<close>

theorem hourly_switch_bound:
  assumes "runs (budget_step limit) (new_budget r0 now) es b"
  shows "(\<forall>t. int (length (in_hour t (bg_kept b))) \<le> max 0 limit) \<and>
    (\<forall>t. bg_clock b \<le> t \<longrightarrow>
       (fst (ReserveSwitch t limit (bg_runtime b)) \<longleftrightarrow> 1 \<le> limit \<and> SwitchBudgetAt (bg_clock b) limit (bg_runtime b) \<le> t))"
proof -
  have "budget_ok limit (new_budget r0 now)" by (simp add: budget_ok_def new_budget_def in_hour_def)
  from hb.run_inv [OF assms this] show ?thesis by (simp add: budget_ok_def switch_budget_exact)
qed

text \<open>
  C40: the search for the next window ends with a window.  In a zone whose offset
  from UTC is constant, a whole number of minutes, the eight days of the loop are
  enough for every valid window that is not off: the result is the first instant
  not before the minute of the question at which the window is open.
\<close>

theorem next_window_found:
  assumes "ValidateWindow w" "wd_mode w \<noteq> ''off''" "zones tz = Some (\<lambda>_. off)" "off mod minute = 0" "minute \<le> now"
  shows "now - now mod minute \<le> NextWindow zones w tz now \<and> NextWindow zones w tz now < now + 8 * day_length \<and>
    WindowKey zones w tz (NextWindow zones w tz now) \<noteq> None \<and>
    (\<forall>t. now - now mod minute \<le> t \<and> t < NextWindow zones w tz now \<longrightarrow> WindowKey zones w tz t = None)"
proof -
  let ?n = "now - now mod minute" and ?z = "\<lambda>_. off"
  have min: "0 < minute" by (simp add: duration_defs)
  have n: "?n = now div minute * minute" by (simp add: minus_mod_eq_div_mult)
  have grid: "?n mod minute = 0" by (simp add: n)
  obtain i where i: "i < 8 * 24 * 60" "open_minute w ((?n + off) div minute + int i)" using open_within [OF assms(1)] by blast
  have "windowKeyIn w ?z (?n + int i * minute) \<noteq> None" unfolding window_open_minute minute_steps [OF assms(4)] by (rule i(2))
  from next_open_first [OF this i(1)] obtain j where j: "j \<le> i" "next_open w ?z (8 * 24 * 60) ?n = ?n + int j * minute"
    "windowKeyIn w ?z (?n + int j * minute) \<noteq> None" "\<forall>l<j. windowKeyIn w ?z (?n + int l * minute) = None" by blast
  have "now \<noteq> zero_time" using assms(5) min by (simp add: zero_time_def)
  then have r: "NextWindow zones w tz now = ?n + int j * minute"
    using assms(1-3) j(2) by (simp add: NextWindow_def)
  have "0 < ?n" using assms(5) min n by (simp add: pos_imp_zdiv_pos_iff)
  then have key: "WindowKey zones w tz t = windowKeyIn w ?z t" if "?n \<le> t" for t
    using that assms(1-3) by (simp add: WindowKey_def zero_time_def)
  have "int j * minute < 8 * 24 * 60 * minute" using j(1) i(1) min by simp
  moreover have "8 * 24 * 60 * minute = 8 * day_length" by (simp add: day_length_def hour_def)
  moreover have "?n \<le> now" "0 \<le> int j * minute" using min by simp_all
  ultimately have range: "?n \<le> ?n + int j * minute" "?n + int j * minute < now + 8 * day_length" by linarith+
  have "windowKeyIn w ?z t = None" if t: "?n \<le> t" "t < ?n + int j * minute" for t
  proof -
    obtain l where "l < j" "windowKeyIn w ?z t = None \<longleftrightarrow> windowKeyIn w ?z (?n + int l * minute) = None"
      using window_grid [OF assms(4) t grid, of w] by metis
    with j(4) show ?thesis by simp
  qed
  then have "\<forall>t. ?n \<le> t \<and> t < ?n + int j * minute \<longrightarrow> WindowKey zones w tz t = None" by (metis key)
  moreover have "WindowKey zones w tz (?n + int j * minute) \<noteq> None" unfolding key [OF range(1)] by (rule j(3))
  ultimately show ?thesis unfolding r using range by (intro conjI)
qed

section \<open>Witnesses\<close>

definition demo_runtime :: autonomy_runtime where
  "demo_runtime = \<lparr>ar_state = [], ar_message = [], ar_next_check = 0, ar_checked = 0, ar_reserve_checked = 0, ar_failures = 0,
     ar_failure_node = [], ar_network = [], ar_first_failure = 0, ar_last_failure = 0, ar_cursor = 0, ar_search = None,
     ar_reserves = [], ar_switches = [], ar_candidates = []\<rparr>"

definition demo_spent :: budget where
  "demo_spent = \<lparr>bg_runtime = demo_runtime\<lparr>ar_switches := [10 * minute]\<rparr>, bg_kept = [10 * minute], bg_clock = 10 * minute\<rparr>"

theorem hourly_switch_bound_witness:
  "runs (budget_step 1) (new_budget demo_runtime 0) [Reserved (10 * minute)] demo_spent \<and>
   \<not> fst (ReserveSwitch (69 * minute) 1 (bg_runtime demo_spent)) \<and> fst (ReserveSwitch (70 * minute) 1 (bg_runtime demo_spent))"
proof -
  have "ReserveSwitch (10 * minute) 1 (bg_runtime (new_budget demo_runtime 0)) = (True, bg_runtime demo_spent)"
    by (simp add: ReserveSwitch_def recent_switches_def new_budget_def demo_runtime_def demo_spent_def)
  from bs_reserve [OF _ this] have "budget_step 1 (new_budget demo_runtime 0) (Reserved (10 * minute)) demo_spent"
    by (simp add: new_budget_def demo_spent_def duration_defs)
  then have run: "runs (budget_step 1) (new_budget demo_runtime 0) [Reserved (10 * minute)] demo_spent" by (rule run_one)
  have "SwitchBudgetAt (bg_clock demo_spent) 1 (bg_runtime demo_spent) = 70 * minute" "bg_clock demo_spent = 10 * minute"
    by (simp_all add: SwitchBudgetAt_def recent_switches_def demo_spent_def duration_defs)
  with run hourly_switch_bound [OF run] show ?thesis by (auto simp: duration_defs)
qed

theorem next_window_found_witness:
  "NextWindow (\<lambda>_. Some (\<lambda>_. 2 * hour)) (every_night ''23:00'' ''01:00'') ''zone'' (400 * day_length) < 408 * day_length \<and>
   WindowKey (\<lambda>_. Some (\<lambda>_. 2 * hour)) (every_night ''23:00'' ''01:00'') ''zone''
     (NextWindow (\<lambda>_. Some (\<lambda>_. 2 * hour)) (every_night ''23:00'' ''01:00'') ''zone'' (400 * day_length)) \<noteq> None"
proof -
  have valid: "ValidateWindow (every_night ''23:00'' ''01:00'')" by code_simp
  show ?thesis
    using next_window_found [OF valid, of "\<lambda>_. Some (\<lambda>_. 2 * hour)" "''zone''" "2 * hour" "400 * day_length"]
    by (simp add: every_night_def day_length_def duration_defs)
qed

end
