(* ===== verification/Spec2Isabelle.thy ===== *)
theory Spec2Isabelle
  imports Restore_Properties Update_Properties Gate_Properties Smart_Properties Session_Account Network_Properties Config_Demo Autonomy_Properties
begin

text \<open>
  RAZVILKA is a program for home routers that decides which traffic takes which
  route, keeps the decision honest with probes, and installs its own updates.  Its
  Go sources (\<open>src/internal\<close>, \<open>src/cmd\<close>) drive the kernel, the resolver and third
  party tools through thin wrappers; the decisions and the durable state that
  must not be lost or invented lie in a few packages with no such effects.  This
  development models those packages, function by function, and proves what they
  promise.

  Parts and theories.

  \<^item> \<open>Prelude\<close>: operations on a state in a world that may refuse any step
    (\<open>op\<close>; an error leaves the changes made so far in place, as in Go), the rules
    \<open>wp_intros\<close> for every world and \<open>run_simps\<close> for one that never refuses, runs
    of step relations with the locales \<open>step_invariant\<close>, \<open>step_relation\<close> and
    \<open>kept_relation\<close>, Go's times, durations and strings.

  \<^item> Restore journal (\<open>restorejournal/journal.go\<close>, \<open>file_target.go\<close>):
    \<open>File_Target\<close> holds the file adapter and proves the contract \<open>restore_target\<close>
    of a target; \<open>Restore_Journal\<close> has \<open>Open\<close>, \<open>ExecuteWithHandover\<close> and
    \<open>Recover\<close>; \<open>Restore_Atomic\<close>, \<open>Restore_Execute\<close>, \<open>Restore_Properties\<close> prove
    all-or-nothing under interruption, honest outcomes and that foreign edits stay.

  \<^item> Self-update journal (\<open>selfupdatejournal\<close>): \<open>Update_Receipt\<close> (receipts and
    their validity), \<open>Update_Journal\<close> (\<open>journal.go\<close>), \<open>Update_Paired\<close> (\<open>paired.go\<close>,
    \<open>stopped.go\<close>, \<open>prior_state.go\<close>, \<open>binary_images.go\<close>); \<open>Update_Invariant\<close>,
    \<open>Update_Rollback\<close>, \<open>Update_Bounds\<close>, \<open>Update_Properties\<close> prove that a command
    starts once, that a rollback puts every file back, that receipts stay
    readable and retained.

  \<^item> Operation gate (\<open>operationgate\<close>): \<open>Operation_Gate\<close> models admissions, the
    fence, exclusive contexts and their cleanup as steps of one interleaving
    relation; \<open>Gate_Properties\<close> proves exclusion, generations and the fence.

  \<^item> Evidence (\<open>evidence\<close>, part of \<open>testlab\<close>) in \<open>Evidence\<close> and
    \<open>Evidence_Properties\<close>, and the smart route (\<open>smartroute\<close>) in \<open>Smart_Route\<close>
    and \<open>Smart_Properties\<close>: which probe results prove a service, and which
    proofs allow a switch.

  \<^item> Session gate (\<open>security\<close>): \<open>Private_File\<close> (durable owner-only files with
    the versions a power loss may bring back, contract \<open>private_store\<close>),
    \<open>Session_Gate\<close> (accounts, sessions, recovery, the guard of the API);
    \<open>Session_Invariant\<close>, \<open>Session_Properties\<close>, \<open>Session_Account\<close>.

  \<^item> Network policy (\<open>config/network_policy.go\<close>, \<open>resource_exclusions.go\<close>,
    \<open>autonomy/network_policy.go\<close>): \<open>Net_Address\<close> (what the code uses of
    \<open>net/netip\<close>), \<open>Network_Policy\<close> (validity, overlap, exclusions),
    \<open>Network_Decision\<close> (the decision for one packet, the scope digest, the
    conflict of shared addresses), \<open>Network_Properties\<close>.

  \<^item> Configuration store (\<open>config\<close>): \<open>Config_Data\<close> (the document, its validity
    and \<open>InspectBytes\<close>), \<open>Config_Steps\<close> and \<open>Config_Network\<close> (each method of \<open>Store\<close>
    as a pure step from a document to its successor), \<open>Config_Store\<close> (the store
    over its file: compare and swap, take back, undo functions, restart);
    \<open>Config_Refinement\<close> (the store refines an atomic register),
    \<open>Config_Invariant\<close> (every step keeps the document loadable),
    \<open>Config_Properties\<close>, and \<open>Config_Demo\<close> with the witnesses.

  \<^item> Autonomy (\<open>autonomy/policy.go\<close>, \<open>decision.go\<close>, \<open>candidate_failures.go\<close>):
    \<open>Autonomy_Policy\<close>, \<open>Autonomy_Runtime\<close>, \<open>Autonomy_Properties\<close>.

  How the parts meet.  The configuration store writes through the file adapter of
  the restore journal and rests on its lemmas; the steps of the store use the
  validity of network policies; the decision of \<open>autonomy/network_policy.go\<close> reads
  the same policies and exclusions; the session gate writes through \<open>Private_File\<close>
  by the contract \<open>private_store\<close>.

  State and operations.  A struct is a record with one field per field the
  modelled code reads; a method is a function on that record or an \<open>op\<close>.  A
  mutex makes a method one step; where the code can be interleaved (the gate) the
  steps are those between locks.  Every file system call, context check and write
  asks the world, which may go on, refuse before the effect, or fail after it;
  theorems quantify over all answers.  Machine integers are words where they can
  wrap (revisions are \<open>64 word\<close>), integers where the code bounds them.  A nil map
  or slice is the empty one.  Times are nanoseconds since the zero time.

  Parameters.  Code that is not under \<open>src\<close> is an argument: JSON, SHA-256, HMAC,
  the public suffix list and IDNA, the text of addresses, the time zone database.
  What a proof needs of it is a named hypothesis that states documented behaviour
  (\<open>go_text\<close>: canonical prefixes parse back; \<open>json_text\<close>: a document decodes to
  itself, for the valid UTF-8 that a JSON API accepts).  Each is instantiated by
  concrete functions in a witness.

  Bounds.  Loops are structural recursion over the list or the counter of the
  source; no model needs fuel of its own.  The limits are those of the code: 4 MiB
  for a restored file, 16 KiB for a receipt (\<open>Update_Bounds\<close> proves every valid
  receipt fits), 128 device sources, eight days for the next window
  (\<open>Autonomy_Properties\<close> proves them enough for a constant offset).

  Findings.  Modelling showed that a policy with more than 128 sources is saved but
  not loaded (\<open>oversized_policy_locks_out\<close>), that a dropped remembered session
  survives a failed write (\<open>dropped_session_kept_on_disk\<close>), that loading drops
  canonical sources it has computed (\<open>inspected_state\<close>), that an undo reuses a
  revision number (\<open>undo_step\<close>), and that the search for the next window can miss
  one that the start of daylight saving time skips.

  Not modelled.  The web application, the installer, the data plane, DNS control,
  package handling, packet capture and the supervision of native tools are calls
  of the operating system and of third-party programs with little logic between
  them; parsers of foreign formats and downloads of published lists produce data
  that the modelled validity checks receive.  Within the modelled packages:
  operating-system leases and directory handles, cookies' attributes, receipts of
  reviewed commits, and clones (values are immutable here).
\<close>

end
